(* ===== verification/Prelude.thy ===== *)
theory Prelude
  imports Main
begin

text \<open>
  Shared vocabulary of the development.

  \<^item> The Python exceptions the sources raise or catch, as one datatype, with the
    class relations their \<open>except\<close> clauses rely on; a computation that may raise has type
    \<^verbatim>\<open>exn + 'a\<close>, abbreviated \<open>result\<close>, \<open>Inl\<close> being the raised exception.
  \<^item> Python dictionaries, as association lists in insertion order (\<open>dget\<close>, \<open>dset\<close>,
    \<open>dpop\<close>), behind the interface locale \<open>dict_store\<close>.
  \<^item> The list lemmas the components share.
\<close>

subsection \<open>Collections of rewrite rules\<close>

named_theorems dict_simps \<open>lookup laws of dictionaries\<close>
named_theorems text_simps \<open>laws of the string operations\<close>
named_theorems result_simps \<open>laws of the result type\<close>

subsection \<open>Exceptions\<close>

text \<open>
  \<open>HTTPError\<close> is \<^verbatim>\<open>httpx.HTTPError\<close> (transport failures), \<open>HTTPStatusError\<close> its subclass
  raised by \<^verbatim>\<open>raise_for_status\<close>. \<open>ValidationError\<close> and \<open>SchemaError\<close> are those of
  \<^verbatim>\<open>jsonschema\<close>. \<open>OtherError\<close> is any exception outside these classes. The SDK's own
  \<^verbatim>\<open>OperationError\<close> is the record \<open>failure\<close> of the theory Client.
\<close>

datatype exn =
    ValueError string
  | ProtocolError string
  | TypeError
  | KeyError string
  | IndexError
  | AttributeError
  | AssertionError string
  | RuntimeError string
  | StopIteration
  | OSError
  | TimeoutError string
  | CancelledError
  | ValidationError
  | SchemaError
  | HTTPError
  | HTTPStatusError int
  | OtherError string

text \<open>Which exceptions an \<open>except\<close> clause naming the class catches (subclasses included).\<close>

fun is_value_error :: "exn \<Rightarrow> bool" where
  "is_value_error (ValueError _) = True"
| "is_value_error (ProtocolError _) = True"
| "is_value_error _ = False"

fun is_http_error :: "exn \<Rightarrow> bool" where
  "is_http_error HTTPError = True"
| "is_http_error (HTTPStatusError _) = True"
| "is_http_error _ = False"

fun is_timeout :: "exn \<Rightarrow> bool" where
  "is_timeout (TimeoutError _) = True"
| "is_timeout _ = False"

text \<open>\<^verbatim>\<open>TimeoutError\<close> is a subclass of \<^verbatim>\<open>OSError\<close>, and \<^verbatim>\<open>asyncio.TimeoutError\<close> is the same class.\<close>

fun is_os_error :: "exn \<Rightarrow> bool" where
  "is_os_error OSError = True"
| "is_os_error (TimeoutError _) = True"
| "is_os_error _ = False"

type_synonym 'a result = "exn + 'a"

fun rbind :: "'a result \<Rightarrow> ('a \<Rightarrow> 'b result) \<Rightarrow> 'b result" where
  "rbind (Inl e) f = Inl e"
| "rbind (Inr x) f = f x"

lemma rbind_Inr_iff [result_simps]: "rbind r f = Inr y \<longleftrightarrow> (\<exists>x. r = Inr x \<and> f x = Inr y)"
  by (cases r) auto

lemma rbind_Inl_iff [result_simps]:
  "rbind r f = Inl e \<longleftrightarrow> r = Inl e \<or> (\<exists>x. r = Inr x \<and> f x = Inl e)"
  by (cases r) auto

lemma if_Inr_iff [result_simps]:
  "(if b then Inl e else r) = Inr x \<longleftrightarrow> \<not> b \<and> r = Inr x"
  by simp

subsection \<open>Dictionaries\<close>

type_synonym ('k, 'v) dict = "('k \<times> 'v) list"

definition dget :: "('k, 'v) dict \<Rightarrow> 'k \<Rightarrow> 'v option" where
  "dget d k = map_of d k"

text \<open>\<^verbatim>\<open>d[k] = v\<close>: an existing key keeps its place, a new one goes to the end.\<close>

fun dset :: "('k, 'v) dict \<Rightarrow> 'k \<Rightarrow> 'v \<Rightarrow> ('k, 'v) dict" where
  "dset [] k v = [(k, v)]"
| "dset ((k', v') # d) k v = (if k' = k then (k, v) # d else (k', v') # dset d k v)"

definition dpop :: "('k, 'v) dict \<Rightarrow> 'k \<Rightarrow> ('k, 'v) dict" where
  "dpop d k = filter (\<lambda>kv. fst kv \<noteq> k) d"

definition dkeys :: "('k, 'v) dict \<Rightarrow> 'k list" where
  "dkeys d = map fst d"

definition dwf :: "('k, 'v) dict \<Rightarrow> bool" where
  "dwf d \<longleftrightarrow> distinct (dkeys d)"

text \<open>\<^verbatim>\<open>{k: v for ...}\<close>: the pairs are stored one after the other.\<close>

definition dict_of :: "('k \<times> 'v) list \<Rightarrow> ('k, 'v) dict" where
  "dict_of kvs = fold (\<lambda>(k, v) d. dset d k v) kvs []"

text \<open>\<^verbatim>\<open>os.environ.get(name)\<close> where only its truth counts: a missing variable is like an empty one.\<close>

definition getenv :: "(string, string) dict \<Rightarrow> string \<Rightarrow> string" where
  "getenv environ name = (case dget environ name of Some v \<Rightarrow> v | None \<Rightarrow> [])"

lemma dget_Nil [simp]: "dget [] k = None"
  by (simp add: dget_def)

lemma dget_Cons [simp]: "dget ((k', v) # d) k = (if k' = k then Some v else dget d k)"
  by (auto simp: dget_def)

lemma dget_dset [dict_simps]: "dget (dset d k v) k' = (if k' = k then Some v else dget d k')"
  by (induction d k v rule: dset.induct) auto

lemma dget_dpop [dict_simps]: "dget (dpop d k) k' = (if k' = k then None else dget d k')"
  by (induction d) (auto simp: dpop_def)

lemma dkeys_dset: "dkeys (dset d k v) = (if k \<in> set (dkeys d) then dkeys d else dkeys d @ [k])"
  by (induction d k v rule: dset.induct) (auto simp: dkeys_def)

lemma dwf_Nil [simp]: "dwf []"
  by (simp add: dwf_def dkeys_def)

lemma dwf_dset [intro]: "dwf d \<Longrightarrow> dwf (dset d k v)"
  by (auto simp: dwf_def dkeys_dset)

lemma dwf_dpop [intro]: "dwf d \<Longrightarrow> dwf (dpop d k)"
  by (induction d) (auto simp: dwf_def dkeys_def dpop_def)

lemma dget_None_iff: "dget d k = None \<longleftrightarrow> k \<notin> set (dkeys d)"
  by (simp add: dget_def dkeys_def map_of_eq_None_iff)

lemma dget_SomeD: "dget d k = Some v \<Longrightarrow> (k, v) \<in> set d"
  by (simp add: dget_def map_of_SomeD)

text \<open>
  The dictionary interface: what a client may rely on after a store or a removal. The
  lemmas about whole sequences of stores are proved once, from these laws.
\<close>

locale dict_store =
  fixes empty :: "'d"
    and lookup :: "'d \<Rightarrow> 'k \<Rightarrow> 'v option"
    and store :: "'d \<Rightarrow> 'k \<Rightarrow> 'v \<Rightarrow> 'd"
    and remove :: "'d \<Rightarrow> 'k \<Rightarrow> 'd"
    and invar :: "'d \<Rightarrow> bool"
  assumes lookup_empty: "lookup empty k = None"
    and lookup_store: "lookup (store d k v) k' = (if k' = k then Some v else lookup d k')"
    and lookup_remove: "lookup (remove d k) k' = (if k' = k then None else lookup d k')"
    and invar_empty: "invar empty"
    and invar_store: "invar d \<Longrightarrow> invar (store d k v)"
    and invar_remove: "invar d \<Longrightarrow> invar (remove d k)"
begin

lemma lookup_store_all:
  "lookup (fold (\<lambda>(k, v) d. store d k v) kvs d) k =
     (case map_of (rev kvs) k of Some v \<Rightarrow> Some v | None \<Rightarrow> lookup d k)"
proof (induction kvs arbitrary: d)
  case Nil
  then show ?case by simp
next
  case (Cons kv kvs)
  then show ?case
    by (cases kv) (auto simp: lookup_store map_add_def split: option.splits)
qed

lemma lookup_store_all_distinct:
  assumes "distinct (map fst kvs)"
  shows "lookup (fold (\<lambda>(k, v) d. store d k v) kvs d) k =
     (case map_of kvs k of Some v \<Rightarrow> Some v | None \<Rightarrow> lookup d k)"
proof -
  have "map_of (rev kvs) = map_of kvs"
    using assms by (intro map_of_inject_set [THEN iffD2]) (simp_all add: rev_map [symmetric])
  then show ?thesis by (simp add: lookup_store_all)
qed

lemma invar_store_all: "invar d \<Longrightarrow> invar (fold (\<lambda>(k, v) d. store d k v) kvs d)"
  by (induction kvs arbitrary: d) (auto intro: invar_store)

end

interpretation adict: dict_store "[]" dget dset dpop dwf
  by unfold_locales (auto simp: dict_simps)

lemma dget_dict_of: "dget (dict_of kvs) k = map_of (rev kvs) k"
  by (simp add: dict_of_def adict.lookup_store_all split: option.splits)

lemma dwf_dict_of [simp]: "dwf (dict_of kvs)"
  by (simp add: dict_of_def adict.invar_store_all)

subsection \<open>Lists\<close>

text \<open>\<^verbatim>\<open>next((x for x in xs if p(x)), None)\<close> is the library's \<open>find\<close>.\<close>

lemma find_SomeD: "find p xs = Some x \<Longrightarrow> x \<in> set xs \<and> p x"
  by (auto simp: find_Some_iff)

lemma append_eq_prefix:
  assumes "s @ t = p @ n" "n \<noteq> []" "hd n \<notin> set t"
  obtains n' where "s = p @ n'" "n' @ t = n"
  using assms by (auto simp: append_eq_append_conv2)

lemma list_all_filter [simp]: "list_all p (filter p xs)"
  by (induction xs) auto

end
