(* ===== verification/Py_Text.thy ===== *)
theory Py_Text
  imports Prelude
begin

text \<open>
  The operations of Python's \<^verbatim>\<open>str\<close> and \<^verbatim>\<open>re\<close> that the sources use. A \<open>string\<close> holds the
  code points below 256 (one \<open>char\<close> each): the header values, tokens, paths and names the
  code inspects are compared with ASCII patterns only, and every predicate below says what
  Python answers on the whole range.

  Regular expressions are data; \<open>fullmatch\<close> runs the derivative of the pattern over the
  text, and \<open>fullmatch_lang\<close> equates it with the language of the pattern.
\<close>

subsection \<open>Character classes\<close>

definition char_in :: "char \<Rightarrow> char \<Rightarrow> char \<Rightarrow> bool" where
  "char_in lo hi c \<longleftrightarrow> (of_char lo :: nat) \<le> of_char c \<and> (of_char c :: nat) \<le> of_char hi"

type_synonym cclass = "(char \<times> char) list"

definition in_class :: "cclass \<Rightarrow> char \<Rightarrow> bool" where
  "in_class cs c = list_ex (\<lambda>(lo, hi). char_in lo hi c) cs"

abbreviation is_digit :: "char \<Rightarrow> bool" where
  "is_digit \<equiv> char_in CHR ''0'' CHR ''9''"

text \<open>Latin-1 superscript digits are \<^verbatim>\<open>isdigit\<close> too, which is why the code asks \<^verbatim>\<open>isascii\<close> first.\<close>

definition py_isdigit :: "string \<Rightarrow> bool" where
  "py_isdigit s \<longleftrightarrow> s \<noteq> [] \<and> list_all (\<lambda>c. is_digit c \<or> (of_char c :: nat) \<in> {178, 179, 185}) s"

definition py_isascii :: "string \<Rightarrow> bool" where
  "py_isascii s = list_all (\<lambda>c. (of_char c :: nat) < 128) s"

definition py_space :: "char \<Rightarrow> bool" where
  "py_space c \<longleftrightarrow> (let n = (of_char c :: nat) in 9 \<le> n \<and> n \<le> 13 \<or> 28 \<le> n \<and> n \<le> 32 \<or> n = 133 \<or> n = 160)"

subsection \<open>Stripping, splitting, prefixes\<close>

definition rstrip_of :: "(char \<Rightarrow> bool) \<Rightarrow> string \<Rightarrow> string" where
  "rstrip_of p s = rev (dropWhile p (rev s))"

definition py_strip :: "string \<Rightarrow> string" where
  "py_strip s = rstrip_of py_space (dropWhile py_space s)"

definition startswith :: "string \<Rightarrow> string \<Rightarrow> bool" where
  "startswith s p \<longleftrightarrow> take (length p) s = p"

definition endswith :: "string \<Rightarrow> string \<Rightarrow> bool" where
  "endswith s p \<longleftrightarrow> startswith (rev s) (rev p)"

text \<open>\<^verbatim>\<open>s.partition(c)\<close> and \<^verbatim>\<open>s.rpartition(c)\<close> for a one-character separator: the middle
  component says whether it was found.\<close>

definition partition_at :: "char \<Rightarrow> string \<Rightarrow> string \<times> bool \<times> string" where
  "partition_at c s =
     (case dropWhile (\<lambda>x. x \<noteq> c) s of
        [] \<Rightarrow> (s, False, [])
      | _ # rest \<Rightarrow> (takeWhile (\<lambda>x. x \<noteq> c) s, True, rest))"

definition rpartition_at :: "char \<Rightarrow> string \<Rightarrow> string \<times> bool \<times> string" where
  "rpartition_at c s =
     (case partition_at c (rev s) of
        (a, True, b) \<Rightarrow> (rev b, True, rev a)
      | (_, False, _) \<Rightarrow> ([], False, s))"

text \<open>\<^verbatim>\<open>str.lower\<close> on code points below 256.\<close>

definition lower_char :: "char \<Rightarrow> char" where
  "lower_char c =
     (let n = (of_char c :: nat)
      in if 65 \<le> n \<and> n \<le> 90 \<or> 192 \<le> n \<and> n \<le> 222 \<and> n \<noteq> 215 then char_of (n + 32) else c)"

definition py_lower :: "string \<Rightarrow> string" where
  "py_lower s = map lower_char s"

subsection \<open>Integers\<close>

definition digit_val :: "char \<Rightarrow> nat" where
  "digit_val c = of_char c - 48"

definition digits_val :: "string \<Rightarrow> nat" where
  "digits_val s = foldl (\<lambda>n c. 10 * n + digit_val c) 0 s"

text \<open>\<^verbatim>\<open>int(raw)\<close> of a string of ASCII digits: the interpreter refuses more than 4300 of them.\<close>

definition int_max_str_digits :: nat where
  "int_max_str_digits = 4300"

definition py_int_digits :: "string \<Rightarrow> int result" where
  "py_int_digits s =
     (if int_max_str_digits < length s
      then Inl (ValueError ''Exceeds the limit (4300 digits) for integer string conversion'')
      else Inr (int (digits_val s)))"

lemma partition_at_notin [text_simps]: "c \<notin> set s \<Longrightarrow> partition_at c s = (s, False, [])"
proof -
  assume "c \<notin> set s"
  then have "dropWhile (\<lambda>x. x \<noteq> c) s = []" by (simp add: dropWhile_eq_Nil_conv) blast
  then show ?thesis unfolding partition_at_def by (simp only: list.case)
qed

lemma partition_at_append [text_simps]:
  "c \<notin> set a \<Longrightarrow> partition_at c (a @ c # b) = (a, True, b)"
proof -
  assume c: "c \<notin> set a"
  then have "\<And>x. x \<in> set a \<Longrightarrow> x \<noteq> c" by blast
  then show ?thesis
    by (simp add: partition_at_def dropWhile_append2 takeWhile_append2)
qed

lemma partition_at_cases:
  obtains "c \<notin> set s" "partition_at c s = (s, False, [])"
  | a b where "c \<notin> set a" "s = a @ c # b" "partition_at c s = (a, True, b)"
proof (cases "c \<in> set s")
  case True
  then obtain a b where "s = a @ c # b" "c \<notin> set a" by (blast dest: split_list_first)
  with that(2) show ?thesis by (simp add: partition_at_append)
next
  case False
  with that(1) show ?thesis by (simp add: partition_at_notin)
qed

lemma startswith_append [text_simps]: "startswith (p @ s) p"
  by (simp add: startswith_def)

lemma startswith_iff: "startswith s p \<longleftrightarrow> (\<exists>t. s = p @ t)"
  by (metis append_eq_conv_conj append_take_drop_id startswith_def)

lemma endswith_iff: "endswith s p \<longleftrightarrow> (\<exists>t. s = t @ p)"
  by (metis endswith_def rev_append rev_rev_ident startswith_iff)

lemma rstrip_of_snoc [text_simps]:
  "rstrip_of p (s @ [c]) = (if p c then rstrip_of p s else s @ [c])"
  by (simp add: rstrip_of_def)

lemma rstrip_of_decomp: "\<exists>t. s = rstrip_of p s @ t \<and> list_all p t"
proof -
  have "rev s = takeWhile p (rev s) @ dropWhile p (rev s)" by simp
  then have "s = rstrip_of p s @ rev (takeWhile p (rev s))"
    by (metis rev_append rev_rev_ident rstrip_of_def)
  moreover have "list_all p (rev (takeWhile p (rev s)))"
    by (auto simp: list_all_iff dest: set_takeWhileD)
  ultimately show ?thesis by blast
qed

lemma length_rstrip_le: "length (rstrip_of p s) \<le> length s"
  using length_dropWhile_le [of p "rev s"] by (simp add: rstrip_of_def)

lemma rstrip_of_last: "rstrip_of p s \<noteq> [] \<Longrightarrow> \<not> p (last (rstrip_of p s))"
  using hd_dropWhile [of p "rev s"] by (simp add: rstrip_of_def last_rev)

lemma rstrip_of_id: "s = [] \<or> \<not> p (last s) \<Longrightarrow> rstrip_of p s = s"
  by (cases s rule: rev_cases) (auto simp: rstrip_of_def)

lemma rstrip_of_idem [text_simps]: "rstrip_of p (rstrip_of p s) = rstrip_of p s"
  using rstrip_of_last [of p s] by (intro rstrip_of_id) auto

lemma set_rstrip_of: "set (rstrip_of p s) \<subseteq> set s"
proof -
  obtain t where "s = rstrip_of p s @ t" using rstrip_of_decomp by blast
  then have "set s = set (rstrip_of p s) \<union> set t" by (metis set_append)
  then show ?thesis by blast
qed

subsection \<open>Regular expressions\<close>

datatype rx = Zero | Eps | Cls cclass | Seq rx rx | Alt rx rx | Star rx

abbreviation Plus :: "rx \<Rightarrow> rx" where
  "Plus r \<equiv> Seq r (Star r)"

text \<open>A literal text, \<^verbatim>\<open>r{n}\<close> and \<^verbatim>\<open>r{0,n}\<close>.\<close>

fun lit :: "string \<Rightarrow> rx" where
  "lit [] = Eps"
| "lit (c # s) = Seq (Cls [(c, c)]) (lit s)"

fun rep :: "nat \<Rightarrow> rx \<Rightarrow> rx" where
  "rep 0 r = Eps"
| "rep (Suc n) r = Seq r (rep n r)"

fun upto_rep :: "nat \<Rightarrow> rx \<Rightarrow> rx" where
  "upto_rep 0 r = Eps"
| "upto_rep (Suc n) r = Alt (Seq r (upto_rep n r)) Eps"

primrec nullable :: "rx \<Rightarrow> bool" where
  "nullable Zero = False"
| "nullable Eps = True"
| "nullable (Cls cs) = False"
| "nullable (Seq r s) = (nullable r \<and> nullable s)"
| "nullable (Alt r s) = (nullable r \<or> nullable s)"
| "nullable (Star r) = True"

fun mk_seq :: "rx \<Rightarrow> rx \<Rightarrow> rx" where
  "mk_seq Zero s = Zero"
| "mk_seq Eps s = s"
| "mk_seq r s = Seq r s"

fun mk_alt :: "rx \<Rightarrow> rx \<Rightarrow> rx" where
  "mk_alt Zero s = s"
| "mk_alt r Zero = r"
| "mk_alt r s = Alt r s"

primrec deriv :: "char \<Rightarrow> rx \<Rightarrow> rx" where
  "deriv c Zero = Zero"
| "deriv c Eps = Zero"
| "deriv c (Cls cs) = (if in_class cs c then Eps else Zero)"
| "deriv c (Seq r s) =
     (if nullable r then mk_alt (mk_seq (deriv c r) s) (deriv c s) else mk_seq (deriv c r) s)"
| "deriv c (Alt r s) = mk_alt (deriv c r) (deriv c s)"
| "deriv c (Star r) = mk_seq (deriv c r) (Star r)"

fun fullmatch :: "rx \<Rightarrow> string \<Rightarrow> bool" where
  "fullmatch r [] = nullable r"
| "fullmatch r (c # s) = fullmatch (deriv c r) s"

primrec lang :: "rx \<Rightarrow> string set" where
  "lang Zero = {}"
| "lang Eps = {[]}"
| "lang (Cls cs) = {[c] | c. in_class cs c}"
| "lang (Seq r s) = {u @ v | u v. u \<in> lang r \<and> v \<in> lang s}"
| "lang (Alt r s) = lang r \<union> lang s"
| "lang (Star r) = {concat ws | ws. set ws \<subseteq> lang r}"

lemma nullable_iff: "nullable r \<longleftrightarrow> [] \<in> lang r"
proof (induction r)
  case (Star r)
  have "concat [] = ([]::string) \<and> set [] \<subseteq> lang r" by simp
  then show ?case by (auto intro: exI [where x = "[]"])
qed auto

lemma lang_mk_seq [simp]: "lang (mk_seq r s) = lang (Seq r s)"
  by (cases r) auto

lemma lang_mk_alt [simp]: "lang (mk_alt r s) = lang (Alt r s)"
  by (cases r; cases s) auto

lemma Cons_concat_iff:
  "c # w \<in> {concat ws | ws. set ws \<subseteq> A} \<longleftrightarrow>
     (\<exists>u v. w = u @ v \<and> c # u \<in> A \<and> v \<in> {concat ws | ws. set ws \<subseteq> A})"
proof
  have "\<exists>u v. w = u @ v \<and> c # u \<in> A \<and> v \<in> {concat ws | ws. set ws \<subseteq> A}"
    if "c # w = concat ws" "set ws \<subseteq> A" for ws
    using that
  proof (induction ws)
    case Nil
    then show ?case by simp
  next
    case (Cons x ws)
    then show ?case by (cases x) auto
  qed
  then show "c # w \<in> {concat ws | ws. set ws \<subseteq> A} \<Longrightarrow>
    \<exists>u v. w = u @ v \<and> c # u \<in> A \<and> v \<in> {concat ws | ws. set ws \<subseteq> A}" by blast
next
  assume "\<exists>u v. w = u @ v \<and> c # u \<in> A \<and> v \<in> {concat ws | ws. set ws \<subseteq> A}"
  then obtain u ws where "w = u @ concat ws" "c # u \<in> A" "set ws \<subseteq> A" by blast
  then show "c # w \<in> {concat ws | ws. set ws \<subseteq> A}"
    by (auto intro!: exI [where x = "(c # u) # ws"])
qed

lemma lang_deriv: "w \<in> lang (deriv c r) \<longleftrightarrow> c # w \<in> lang r"
proof (induction r arbitrary: w)
  case (Seq r s)
  have "(\<exists>u v. c # w = u @ v \<and> u \<in> lang r \<and> v \<in> lang s) \<longleftrightarrow>
      (\<exists>u v. w = u @ v \<and> c # u \<in> lang r \<and> v \<in> lang s) \<or> [] \<in> lang r \<and> c # w \<in> lang s"
    by (auto simp: Cons_eq_append_conv)
  with Seq show ?case by (auto simp: nullable_iff)
next
  case (Star r)
  show ?case
    using Star Cons_concat_iff [of c w "lang r"] by simp
qed auto

theorem fullmatch_lang: "fullmatch r s \<longleftrightarrow> s \<in> lang r"
  by (induction r s rule: fullmatch.induct) (simp_all add: nullable_iff lang_deriv)

text \<open>Closed forms of the shapes the sources use.\<close>

lemma in_lang_Seq: "s \<in> lang (Seq a b) \<longleftrightarrow> (\<exists>u v. s = u @ v \<and> u \<in> lang a \<and> v \<in> lang b)"
  by simp

lemma in_lang_Star: "s \<in> lang (Star a) \<longleftrightarrow> (\<exists>ws. s = concat ws \<and> set ws \<subseteq> lang a)"
  by simp

lemma in_lang_Seq_Cls:
  "s \<in> lang (Seq (Cls cs) r) \<longleftrightarrow> (\<exists>c t. s = c # t \<and> in_class cs c \<and> t \<in> lang r)"
proof
  assume "\<exists>c t. s = c # t \<and> in_class cs c \<and> t \<in> lang r"
  then obtain c t where "s = [c] @ t" "in_class cs c" "t \<in> lang r" by auto
  then show "s \<in> lang (Seq (Cls cs) r)" by (auto intro: exI [where x = "[c]"])
qed auto

lemma lang_Star_Cls: "lang (Star (Cls cs)) = {s. \<forall>c \<in> set s. in_class cs c}"
proof (intro set_eqI iffI)
  fix s assume "s \<in> lang (Star (Cls cs))"
  then obtain ws where s: "s = concat ws" and ws: "set ws \<subseteq> lang (Cls cs)" by auto
  have "\<forall>c \<in> set w. in_class cs c" if "w \<in> set ws" for w
    using subsetD [OF ws that] by auto
  then show "s \<in> {s. \<forall>c \<in> set s. in_class cs c}" by (simp add: s)
next
  fix s assume "s \<in> {s. \<forall>c \<in> set s. in_class cs c}"
  then have "set (map (\<lambda>c. [c]) s) \<subseteq> lang (Cls cs)" by auto
  moreover have "s = concat (map (\<lambda>c. [c]) s)" by (induction s) simp_all
  ultimately show "s \<in> lang (Star (Cls cs))" unfolding lang.simps(6) by blast
qed

lemma lang_Plus_Cls: "lang (Plus (Cls cs)) = {s. s \<noteq> [] \<and> (\<forall>c \<in> set s. in_class cs c)}"
proof -
  have "s \<in> lang (Plus (Cls cs)) \<longleftrightarrow> s \<noteq> [] \<and> (\<forall>c \<in> set s. in_class cs c)" for s
    unfolding in_lang_Seq_Cls lang_Star_Cls by (cases s) auto
  then show ?thesis by blast
qed

lemma lang_rep_Cls: "lang (rep n (Cls cs)) = {s. length s = n \<and> (\<forall>c \<in> set s. in_class cs c)}"
proof (induction n)
  case (Suc n)
  have "s \<in> lang (rep (Suc n) (Cls cs)) \<longleftrightarrow> length s = Suc n \<and> (\<forall>c \<in> set s. in_class cs c)" for s
    unfolding rep.simps in_lang_Seq_Cls Suc by (cases s) auto
  then show ?case by blast
qed auto

lemma lang_upto_rep_Cls:
  "lang (upto_rep n (Cls cs)) = {s. length s \<le> n \<and> (\<forall>c \<in> set s. in_class cs c)}"
proof (induction n)
  case (Suc n)
  have "s \<in> lang (upto_rep (Suc n) (Cls cs)) \<longleftrightarrow> length s \<le> Suc n \<and> (\<forall>c \<in> set s. in_class cs c)" for s
    unfolding upto_rep.simps lang.simps(2,5) Un_iff in_lang_Seq_Cls Suc by (cases s) auto
  then show ?case by blast
qed auto

lemma lang_lit: "lang (lit t) = {t}"
proof (induction t)
  case (Cons c t)
  have "in_class [(c, c)] x \<longleftrightarrow> x = c" for x
    by (auto simp: in_class_def char_in_def)
  with Cons show ?case by auto
qed simp

lemma fullmatch_Plus_Cls:
  "fullmatch (Plus (Cls cs)) s \<longleftrightarrow> s \<noteq> [] \<and> (\<forall>c \<in> set s. in_class cs c)"
  using lang_Plus_Cls [of cs] by (simp only: fullmatch_lang) simp

text \<open>The characters a text of the language can hold.\<close>

primrec rx_char :: "rx \<Rightarrow> char \<Rightarrow> bool" where
  "rx_char Zero c = False"
| "rx_char Eps c = False"
| "rx_char (Cls cs) c = in_class cs c"
| "rx_char (Seq r s) c = (rx_char r c \<or> rx_char s c)"
| "rx_char (Alt r s) c = (rx_char r c \<or> rx_char s c)"
| "rx_char (Star r) c = rx_char r c"

lemma lang_rx_char: "s \<in> lang r \<Longrightarrow> c \<in> set s \<Longrightarrow> rx_char r c"
proof (induction r arbitrary: s)
  case (Star r)
  then obtain ws w where "s = concat ws" "set ws \<subseteq> lang r" "w \<in> set ws" "c \<in> set w" by auto
  with Star.IH [of w] show ?case by auto
next
  case (Seq r1 r2)
  then obtain u v where uv: "s = u @ v" "u \<in> lang r1" "v \<in> lang r2" by auto
  with Seq.prems(2) have "c \<in> set u \<or> c \<in> set v" by simp
  with Seq.IH(1) [OF uv(2)] Seq.IH(2) [OF uv(3)] show ?case by auto
qed auto

lemma fullmatch_rx_char: "fullmatch r s \<Longrightarrow> c \<in> set s \<Longrightarrow> rx_char r c"
  by (simp add: fullmatch_lang lang_rx_char)

end
