(* ===== verification/Py_Json.thy ===== *)
theory Py_Json
  imports Complex_Main Py_Text
begin

text \<open>
  Parsed JSON as Python holds it, and the operations the sources use on it: \<^verbatim>\<open>dict.get\<close>,
  truth values, \<^verbatim>\<open>==\<close>, and \<^verbatim>\<open>json.dumps\<close>. A dict is an association list in insertion
  order. A finite float is the rational number it denotes; its decimal rendering
  \<^verbatim>\<open>float.__repr__\<close> is the parameter \<open>frepr\<close> of \<open>dumps\<close>.
\<close>

datatype pyfloat = Fin rat | PInf | NInf | NaN

datatype json =
    JNull
  | JBool bool
  | JInt int
  | JFloat pyfloat
  | JStr string
  | JList "json list"
  | JDict "(string \<times> json) list"

subsection \<open>Dictionaries, types, truth\<close>

text \<open>\<^verbatim>\<open>d.get(k)\<close>: \<^verbatim>\<open>None\<close> for a missing key, as for a stored \<^verbatim>\<open>null\<close>.\<close>

definition get :: "(string, json) dict \<Rightarrow> string \<Rightarrow> json" where
  "get d k = (case dget d k of None \<Rightarrow> JNull | Some v \<Rightarrow> v)"

definition get_or :: "(string, json) dict \<Rightarrow> string \<Rightarrow> json \<Rightarrow> json" where
  "get_or d k dflt = (case dget d k of None \<Rightarrow> dflt | Some v \<Rightarrow> v)"

fun as_str :: "json \<Rightarrow> string option" where
  "as_str (JStr s) = Some s"
| "as_str _ = None"

fun as_dict :: "json \<Rightarrow> (string, json) dict option" where
  "as_dict (JDict d) = Some d"
| "as_dict _ = None"

fun as_list :: "json \<Rightarrow> json list option" where
  "as_list (JList xs) = Some xs"
| "as_list _ = None"

text \<open>\<^verbatim>\<open>type(v) is int\<close>: a \<^verbatim>\<open>bool\<close> is not one.\<close>

fun as_int :: "json \<Rightarrow> int option" where
  "as_int (JInt i) = Some i"
| "as_int _ = None"

definition is_str :: "json \<Rightarrow> bool" where
  "is_str v \<longleftrightarrow> as_str v \<noteq> None"

definition nonempty_str :: "json \<Rightarrow> bool" where
  "nonempty_str v = (case as_str v of Some s \<Rightarrow> s \<noteq> [] | None \<Rightarrow> False)"

fun truthy :: "json \<Rightarrow> bool" where
  "truthy JNull = False"
| "truthy (JBool b) = b"
| "truthy (JInt i) = (i \<noteq> 0)"
| "truthy (JFloat f) = (f \<noteq> Fin 0)"
| "truthy (JStr s) = (s \<noteq> [])"
| "truthy (JList xs) = (xs \<noteq> [])"
| "truthy (JDict d) = (d \<noteq> [])"

lemma as_str_Some [simp]: "as_str v = Some s \<longleftrightarrow> v = JStr s"
  by (cases v) auto

lemma as_dict_Some [simp]: "as_dict v = Some d \<longleftrightarrow> v = JDict d"
  by (cases v) auto

lemma as_list_Some [simp]: "as_list v = Some xs \<longleftrightarrow> v = JList xs"
  by (cases v) auto

lemma as_int_Some [simp]: "as_int v = Some i \<longleftrightarrow> v = JInt i"
  by (cases v) auto

lemma nonempty_str_iff: "nonempty_str v \<longleftrightarrow> (\<exists>s. v = JStr s \<and> s \<noteq> [])"
  by (cases v) (auto simp: nonempty_str_def)

lemma is_str_iff: "is_str v \<longleftrightarrow> (\<exists>s. v = JStr s)"
  by (cases v) (auto simp: is_str_def)

lemma get_dset [dict_simps]: "get (dset d k v) k' = (if k' = k then v else get d k')"
  by (simp add: get_def dict_simps)

lemma get_notnull: "get d k = v \<Longrightarrow> v \<noteq> JNull \<Longrightarrow> dget d k = Some v"
  by (auto simp: get_def split: option.splits)

subsection \<open>Equality\<close>

text \<open>\<^verbatim>\<open>==\<close> compares numbers by value across types (\<^verbatim>\<open>True == 1 == 1.0\<close>) and dicts without
  regard to order; a NaN equals nothing.\<close>

fun num_of :: "json \<Rightarrow> pyfloat option" where
  "num_of (JBool b) = Some (Fin (if b then 1 else 0))"
| "num_of (JInt i) = Some (Fin (of_int i))"
| "num_of (JFloat f) = Some f"
| "num_of _ = None"

definition num_eq :: "json \<Rightarrow> json \<Rightarrow> bool" where
  "num_eq a b =
     (case (num_of a, num_of b) of (Some x, Some y) \<Rightarrow> x = y \<and> x \<noteq> NaN | _ \<Rightarrow> False)"

fun py_eq :: "json \<Rightarrow> json \<Rightarrow> bool"
  and py_eq_list :: "json list \<Rightarrow> json list \<Rightarrow> bool"
  and py_eq_items :: "(string \<times> json) list \<Rightarrow> (string, json) dict \<Rightarrow> bool" where
  "py_eq JNull b = (b = JNull)"
| "py_eq (JBool x) b = num_eq (JBool x) b"
| "py_eq (JInt i) b = num_eq (JInt i) b"
| "py_eq (JFloat f) b = num_eq (JFloat f) b"
| "py_eq (JStr s) b = (b = JStr s)"
| "py_eq (JList xs) b = (case b of JList ys \<Rightarrow> py_eq_list xs ys | _ \<Rightarrow> False)"
| "py_eq (JDict xs) b =
     (case b of JDict ys \<Rightarrow> length xs = length ys \<and> py_eq_items xs ys | _ \<Rightarrow> False)"
| "py_eq_list [] ys = (ys = [])"
| "py_eq_list (x # xs) ys = (case ys of [] \<Rightarrow> False | y # ys' \<Rightarrow> py_eq x y \<and> py_eq_list xs ys')"
| "py_eq_items [] ys = True"
| "py_eq_items ((k, v) # xs) ys =
     ((case dget ys k of None \<Rightarrow> False | Some w \<Rightarrow> py_eq v w) \<and> py_eq_items xs ys)"

lemma py_eq_JStr [simp]: "py_eq v (JStr s) \<longleftrightarrow> v = JStr s"
  by (cases v) (auto simp: num_eq_def split: option.splits)

lemma py_eq_JNull [simp]: "py_eq v JNull \<longleftrightarrow> v = JNull"
  by (cases v) (auto simp: num_eq_def split: option.splits)

lemma py_eq_JInt: "py_eq (JInt i) (JInt j) \<longleftrightarrow> i = j"
  by (simp add: num_eq_def)

subsection \<open>Serialisation\<close>

text \<open>\<^verbatim>\<open>str(i)\<close> for integers, with the interpreter's limit of 4300 digits.\<close>

fun nat_str :: "nat \<Rightarrow> string" where
  "nat_str n = (if n < 10 then [char_of (48 + n)] else nat_str (n div 10) @ [char_of (48 + n mod 10)])"

declare nat_str.simps [simp del]

definition int_str :: "int \<Rightarrow> string result" where
  "int_str i =
     (let ds = nat_str (nat \<bar>i\<bar>)
      in if int_max_str_digits < length ds
         then Inl (ValueError ''Exceeds the limit (4300 digits) for integer string conversion'')
         else Inr (if i < 0 then CHR ''-'' # ds else ds))"

definition hex_digit :: "nat \<Rightarrow> char" where
  "hex_digit n = (if n < 10 then char_of (48 + n) else char_of (87 + n))"

definition esc_char :: "char \<Rightarrow> string" where
  "esc_char c =
     (let n = (of_char c :: nat)
      in if n = 34 then [CHR 0x5C, CHR 0x22]
         else if n = 92 then [CHR 0x5C, CHR 0x5C]
         else if n = 10 then [CHR 0x5C, CHR ''n'']
         else if n = 13 then [CHR 0x5C, CHR ''r'']
         else if n = 9 then [CHR 0x5C, CHR ''t'']
         else if n = 12 then [CHR 0x5C, CHR ''f'']
         else if n = 8 then [CHR 0x5C, CHR ''b'']
         else if 32 \<le> n \<and> n \<le> 126 then [c]
         else [CHR 0x5C, CHR ''u'', CHR ''0'', CHR ''0'', hex_digit (n div 16), hex_digit (n mod 16)])"

definition quote :: "string \<Rightarrow> string" where
  "quote s = CHR 0x22 # concat (map esc_char s) @ [CHR 0x22]"

fun join :: "string \<Rightarrow> string list \<Rightarrow> string" where
  "join sep [] = []"
| "join sep [s] = s"
| "join sep (s # t # ss) = s @ sep @ join sep (t # ss)"

text \<open>\<^verbatim>\<open>json.dumps(v, allow_nan=False)\<close>.\<close>

fun dumps :: "(rat \<Rightarrow> string) \<Rightarrow> json \<Rightarrow> string result"
  and dumps_list :: "(rat \<Rightarrow> string) \<Rightarrow> json list \<Rightarrow> string list result"
  and dumps_items :: "(rat \<Rightarrow> string) \<Rightarrow> (string \<times> json) list \<Rightarrow> string list result" where
  "dumps fr JNull = Inr ''null''"
| "dumps fr (JBool b) = Inr (if b then ''true'' else ''false'')"
| "dumps fr (JInt i) = int_str i"
| "dumps fr (JFloat f) =
     (case f of Fin r \<Rightarrow> Inr (fr r)
      | _ \<Rightarrow> Inl (ValueError ''Out of range float values are not JSON compliant''))"
| "dumps fr (JStr s) = Inr (quote s)"
| "dumps fr (JList xs) = rbind (dumps_list fr xs) (\<lambda>ss. Inr (''['' @ join '', '' ss @ '']''))"
| "dumps fr (JDict kvs) = rbind (dumps_items fr kvs) (\<lambda>ss. Inr (''{'' @ join '', '' ss @ ''}''))"
| "dumps_list fr [] = Inr []"
| "dumps_list fr (x # xs) = rbind (dumps fr x) (\<lambda>s. rbind (dumps_list fr xs) (\<lambda>ss. Inr (s # ss)))"
| "dumps_items fr [] = Inr []"
| "dumps_items fr ((k, v) # kvs) =
     rbind (dumps fr v) (\<lambda>s. rbind (dumps_items fr kvs) (\<lambda>ss. Inr ((quote k @ '': '' @ s) # ss)))"

text \<open>What the serialiser emits is printable ASCII, so a newline can only be the frame's own.\<close>

definition printable :: "string \<Rightarrow> bool" where
  "printable s \<longleftrightarrow> (\<forall>c \<in> set s. 32 \<le> (of_char c :: nat) \<and> (of_char c :: nat) \<le> 126)"

lemma printable_append [simp]: "printable (a @ b) \<longleftrightarrow> printable a \<and> printable b"
  by (auto simp: printable_def)

lemma printable_Nil [simp]: "printable []"
  by (simp add: printable_def)

lemma printable_Cons [simp]:
  "printable (c # s) \<longleftrightarrow> 32 \<le> (of_char c :: nat) \<and> (of_char c :: nat) \<le> 126 \<and> printable s"
  by (auto simp: printable_def)

lemma printable_nat_str [simp]: "printable (nat_str n)"
proof (induction n rule: nat_str.induct)
  case (1 n)
  have "n mod 10 < 10" by simp
  then have "48 + n mod 10 < 256" "n mod 10 \<le> 78" by linarith+
  with 1 show ?case by (subst nat_str.simps) (simp add: of_char_of)
qed

lemma printable_hex_digit: "n < 16 \<Longrightarrow> printable [hex_digit n]"
  by (simp add: hex_digit_def of_char_of)

lemma printable_esc_char [simp]: "printable (esc_char c)"
proof -
  have n: "(of_char c :: nat) < 256" by simp
  then have "(of_char c :: nat) div 16 < 16" by linarith
  then have "printable [hex_digit ((of_char c :: nat) div 16)]" by (rule printable_hex_digit)
  moreover have "printable [hex_digit ((of_char c :: nat) mod 16)]"
    by (rule printable_hex_digit) simp
  ultimately show ?thesis by (simp add: esc_char_def Let_def)
qed

lemma printable_quote [simp]: "printable (quote s)"
proof -
  have "printable (concat (map esc_char s))" by (induction s) auto
  then show ?thesis by (simp add: quote_def)
qed

lemma printable_join: "printable sep \<Longrightarrow> list_all printable ss \<Longrightarrow> printable (join sep ss)"
  by (induction sep ss rule: join.induct) auto

lemma printable_int_str: "int_str i = Inr s \<Longrightarrow> printable s"
  by (auto simp: int_str_def Let_def split: if_splits)

lemma dumps_printable:
  assumes "\<And>r. printable (fr r)"
  shows "dumps fr v = Inr s \<Longrightarrow> printable s"
    and "dumps_list fr xs = Inr ss \<Longrightarrow> list_all printable ss"
    and "dumps_items fr kvs = Inr ss \<Longrightarrow> list_all printable ss"
  using assms
  by (induction fr v and fr xs and fr kvs arbitrary: s and ss and ss
      rule: dumps_dumps_list_dumps_items.induct)
     (auto simp: result_simps printable_join printable_int_str split: pyfloat.splits)

text \<open>Every failure of the serialiser is a \<^verbatim>\<open>ValueError\<close>.\<close>

lemma dumps_Inl_ValueError:
  "dumps fr v = Inl e \<Longrightarrow> is_value_error e"
  "dumps_list fr xs = Inl e \<Longrightarrow> is_value_error e"
  "dumps_items fr kvs = Inl e \<Longrightarrow> is_value_error e"
  by (induction fr v and fr xs and fr kvs rule: dumps_dumps_list_dumps_items.induct)
     (auto simp: result_simps int_str_def Let_def split: pyfloat.splits if_splits)

end
