(* ===== verification/Url.thy ===== *)
theory Url
  imports Py_Text
begin

text \<open>
  \<^verbatim>\<open>urllib.parse.urlsplit\<close> (CPython 3.12) as far as \<open>validate_origin\<close> of
  \<^verbatim>\<open>python/ai_protocol/protocol.py\<close> uses it, and \<open>validate_origin\<close> itself.

  The library's check of a bracketed IP literal differs between patch releases and is the
  parameter \<open>bracket_ok\<close> (\<open>True\<close> when the literal is accepted). The library's NFKC check of
  the authority can only fail for code points above 255 and does not occur on our strings.

  The main facts: what an accepted origin looks like, and that a request URL made of an
  accepted origin and a published path still has the origin's scheme and authority.
\<close>

record split_url =
  scheme :: string
  netloc :: string
  upath :: string
  uquery :: string
  ufragment :: string

definition c0_or_space :: "char \<Rightarrow> bool" where
  "c0_or_space c \<longleftrightarrow> (of_char c :: nat) \<le> 32"

definition unsafe_byte :: "char \<Rightarrow> bool" where
  "unsafe_byte c \<longleftrightarrow> (of_char c :: nat) \<in> {9, 10, 13}"

definition clean :: "string \<Rightarrow> string" where
  "clean u = filter (\<lambda>c. \<not> unsafe_byte c) (dropWhile c0_or_space u)"

abbreviation alpha_class :: cclass where
  "alpha_class \<equiv> [(CHR ''A'', CHR ''Z''), (CHR ''a'', CHR ''z'')]"

abbreviation scheme_class :: cclass where
  "scheme_class \<equiv> [(CHR ''A'', CHR ''Z''), (CHR ''a'', CHR ''z''), (CHR ''0'', CHR ''9''),
     (CHR ''+'', CHR ''+''), (CHR ''-'', CHR ''-''), (CHR ''.'', CHR ''.'')]"

definition split_scheme :: "string \<Rightarrow> string \<times> string" where
  "split_scheme u =
     (case partition_at CHR '':'' u of
        (a, found, rest) \<Rightarrow>
          if found \<and> a \<noteq> [] \<and> in_class alpha_class (hd a) \<and> list_all (in_class scheme_class) a
          then (py_lower a, rest) else ([], u))"

definition netloc_delim :: "char \<Rightarrow> bool" where
  "netloc_delim c \<longleftrightarrow> c = CHR ''/'' \<or> c = CHR ''?'' \<or> c = CHR ''#''"

definition split_netloc :: "string \<Rightarrow> string \<times> string" where
  "split_netloc u =
     (if startswith u ''//''
      then (takeWhile (\<lambda>c. \<not> netloc_delim c) (drop 2 u), dropWhile (\<lambda>c. \<not> netloc_delim c) (drop 2 u))
      else ([], u))"

text \<open>\<^verbatim>\<open>url.split(c, 1)\<close> with a default for the missing second part.\<close>

definition split_once :: "char \<Rightarrow> string \<Rightarrow> string \<times> string" where
  "split_once c u = (case partition_at c u of (a, found, b) \<Rightarrow> if found then (a, b) else (u, []))"

definition brackets_ok :: "(string \<Rightarrow> bool) \<Rightarrow> string \<Rightarrow> bool" where
  "brackets_ok bracket_ok n =
     (if CHR ''['' \<in> set n \<longleftrightarrow> CHR '']'' \<in> set n
      then CHR ''['' \<in> set n \<longrightarrow> bracket_ok n else False)"

definition urlsplit :: "(string \<Rightarrow> bool) \<Rightarrow> string \<Rightarrow> split_url result" where
  "urlsplit bracket_ok raw =
     (case split_scheme (clean raw) of (sc, u1) \<Rightarrow>
      case split_netloc u1 of (nl, u2) \<Rightarrow>
        if \<not> brackets_ok bracket_ok nl then Inl (ValueError ''Invalid IPv6 URL'')
        else case split_once CHR ''#'' u2 of (u3, fr) \<Rightarrow>
             case split_once CHR ''?'' u3 of (p, q) \<Rightarrow>
               Inr \<lparr>scheme = sc, netloc = nl, upath = p, uquery = q, ufragment = fr\<rparr>)"

text \<open>The attributes \<^verbatim>\<open>username\<close>, \<^verbatim>\<open>password\<close> and \<^verbatim>\<open>hostname\<close> of a split result.\<close>

definition username :: "split_url \<Rightarrow> string option" where
  "username u = (case rpartition_at CHR ''@'' (netloc u) of
     (info, found, _) \<Rightarrow> if found then Some (fst (partition_at CHR '':'' info)) else None)"

definition password :: "split_url \<Rightarrow> string option" where
  "password u = (case rpartition_at CHR ''@'' (netloc u) of
     (info, found, _) \<Rightarrow>
       (case partition_at CHR '':'' info of
          (_, have, pw) \<Rightarrow> if found \<and> have then Some pw else None))"

definition hostname :: "split_url \<Rightarrow> string option" where
  "hostname u =
     (case rpartition_at CHR ''@'' (netloc u) of (_, _, hostinfo) \<Rightarrow>
      case partition_at CHR ''['' hostinfo of (_, open_br, bracketed) \<Rightarrow>
        let h = (if open_br then fst (partition_at CHR '']'' bracketed)
                 else fst (partition_at CHR '':'' hostinfo))
        in if h = [] then None
           else (case partition_at CHR ''%'' h of
                   (a, pc, zone) \<Rightarrow> Some (py_lower a @ (if pc then CHR ''%'' # zone else []))))"

definition validate_origin :: "(string \<Rightarrow> bool) \<Rightarrow> string \<Rightarrow> string result" where
  "validate_origin bracket_ok origin =
     rbind (urlsplit bracket_ok origin) (\<lambda>url.
       if scheme url \<notin> {''http'', ''https''} \<or> hostname url = None \<or> username url \<noteq> None
          \<or> password url \<noteq> None \<or> upath url \<notin> {[], ''/''} \<or> uquery url \<noteq> [] \<or> ufragment url \<noteq> []
       then Inl (ValueError ''Service URL must be an HTTP(S) origin without credentials or a path'')
       else Inr (rstrip_of (\<lambda>c. c = CHR ''/'') origin))"

subsection \<open>Lemmas\<close>

lemma split_once_notin [text_simps]: "c \<notin> set u \<Longrightarrow> split_once c u = (u, [])"
  by (simp add: split_once_def partition_at_notin)

lemma split_once_append [text_simps]: "c \<notin> set a \<Longrightarrow> split_once c (a @ c # b) = (a, b)"
  by (simp add: split_once_def partition_at_append)

lemma clean_append:
  assumes "\<exists>c \<in> set a. \<not> c0_or_space c"
  shows "clean (a @ b) = clean a @ filter (\<lambda>c. \<not> unsafe_byte c) b"
  using assms by (auto simp: clean_def dropWhile_append1)

lemma clean_nonempty: "clean a \<noteq> [] \<Longrightarrow> \<exists>c \<in> set a. \<not> c0_or_space c"
proof (rule ccontr)
  assume ne: "clean a \<noteq> []" and "\<not> (\<exists>c \<in> set a. \<not> c0_or_space c)"
  then have "dropWhile c0_or_space a = []" by (simp add: dropWhile_eq_Nil_conv)
  with ne show False by (simp add: clean_def)
qed

lemma split_scheme_Nil: "split_scheme u = ([], u) \<or> (\<exists>a r. u = a @ CHR '':'' # r \<and> a \<noteq> [] \<and>
    CHR '':'' \<notin> set a \<and> split_scheme u = (py_lower a, r) \<and>
    (\<forall>r'. split_scheme (a @ CHR '':'' # r') = (py_lower a, r')))"
proof (cases rule: partition_at_cases [of "CHR '':''" u])
  case 1
  then show ?thesis by (simp add: split_scheme_def)
next
  case (2 a b)
  then show ?thesis
    by (auto simp: split_scheme_def partition_at_append)
qed

lemma username_None_iff: "username u = None \<longleftrightarrow> CHR ''@'' \<notin> set (netloc u)"
proof (cases rule: partition_at_cases [of "CHR ''@''" "rev (netloc u)"])
  case 1
  then show ?thesis by (simp add: username_def rpartition_at_def)
next
  case (2 a b)
  then have "CHR ''@'' \<in> set (netloc u)" by (metis in_set_conv_decomp set_rev)
  with 2 show ?thesis by (simp add: username_def rpartition_at_def)
qed

lemma password_username: "password u \<noteq> None \<Longrightarrow> username u \<noteq> None"
  by (auto simp: password_def username_def split: prod.splits if_splits)

lemma hostname_netloc: "hostname u \<noteq> None \<Longrightarrow> netloc u \<noteq> []"
  by (auto simp: hostname_def rpartition_at_def partition_at_def Let_def)

lemma validate_origin_InrD:
  assumes "validate_origin bk raw = Inr b"
  obtains u where "urlsplit bk raw = Inr u" "scheme u \<in> {''http'', ''https''}" "hostname u \<noteq> None"
    "CHR ''@'' \<notin> set (netloc u)" "upath u \<in> {[], ''/''}" "uquery u = []" "ufragment u = []"
    "b = rstrip_of (\<lambda>c. c = CHR ''/'') raw"
  using assms
  by (auto simp: validate_origin_def result_simps username_None_iff split: if_splits)

subsection \<open>Where a request goes\<close>

text \<open>A path as it is appended to the origin: it starts with a slash and holds no character
  that ends it or that the splitter removes.\<close>

definition path_text :: "string \<Rightarrow> bool" where
  "path_text p \<longleftrightarrow> p \<noteq> [] \<and> hd p = CHR ''/'' \<and>
     (\<forall>c \<in> set p. 32 < (of_char c :: nat) \<and> c \<noteq> CHR ''?'' \<and> c \<noteq> CHR ''#'')"

lemma filter_safe: "(\<And>c. c \<in> set s \<Longrightarrow> 32 < (of_char c :: nat)) \<Longrightarrow> filter (\<lambda>c. \<not> unsafe_byte c) s = s"
  by (rule filter_True) (force simp: unsafe_byte_def)

lemma clean_id: "(\<And>c. c \<in> set s \<Longrightarrow> 32 < (of_char c :: nat)) \<Longrightarrow> clean s = s"
proof -
  assume s: "\<And>c. c \<in> set s \<Longrightarrow> 32 < (of_char c :: nat)"
  then have "dropWhile c0_or_space s = s"
    by (cases s) (auto simp: c0_or_space_def dest: s leD)
  with filter_safe [OF s] show ?thesis by (simp add: clean_def)
qed

lemma clean_app_safe:
  assumes "clean a \<noteq> []" "\<And>c. c \<in> set b \<Longrightarrow> 32 < (of_char c :: nat)"
  shows "clean (a @ b) = clean a @ b"
  using clean_append [OF clean_nonempty [OF assms(1)]] filter_safe [OF assms(2)] by simp

lemma takeWhile_not_delim:
  "s = [] \<or> netloc_delim (hd s) \<Longrightarrow>
     takeWhile (\<lambda>c. \<not> netloc_delim c) (n @ s) = takeWhile (\<lambda>c. \<not> netloc_delim c) n"
  by (induction n) (cases s, auto)

text \<open>The text of an accepted origin, up to what the splitter discards.\<close>

lemma accepted_origin_shape:
  assumes "validate_origin bk raw = Inr b" and u: "urlsplit bk raw = Inr u"
  obtains t a n where "raw = b @ t" "set t \<subseteq> {CHR ''/''}"
    "clean b = a @ CHR '':'' # ''//'' @ n"
    "\<forall>r. split_scheme (a @ CHR '':'' # r) = (scheme u, r)"
    "takeWhile (\<lambda>c. \<not> netloc_delim c) n = netloc u"
    "clean raw = clean b @ t"
proof -
  let ?nd = "\<lambda>c. \<not> netloc_delim c"
  from assms have sch: "scheme u \<noteq> []" and host: "hostname u \<noteq> None"
    and b: "b = rstrip_of (\<lambda>c. c = CHR ''/'') raw"
    by (auto elim!: validate_origin_InrD)
  from b obtain t where raw: "raw = b @ t" and t: "set t \<subseteq> {CHR ''/''}"
    using rstrip_of_decomp [of raw "\<lambda>c. c = CHR ''/''"] by (auto simp: list_all_iff)
  have t_safe: "\<And>c. c \<in> set t \<Longrightarrow> 32 < (of_char c :: nat)" using t by auto
  from u sch obtain a r where C: "clean raw = a @ CHR '':'' # r" and a: "CHR '':'' \<notin> set a"
    and sp: "\<And>x. split_scheme (a @ CHR '':'' # x) = (scheme u, x)"
    using split_scheme_Nil [of "clean raw"]
    by (auto simp: urlsplit_def split: prod.splits if_splits)
  have nl: "fst (split_netloc r) = netloc u"
    using u by (cases u) (auto simp: urlsplit_def C sp split: prod.splits if_splits)
  with hostname_netloc [OF host] obtain n where r: "r = ''//'' @ n" and n: "takeWhile ?nd n = netloc u"
    by (auto simp: split_netloc_def startswith_iff split: if_splits)
  have cb: "clean b \<noteq> []"
  proof
    assume "clean b = []"
    have "\<forall>c \<in> set b. c0_or_space c"
    proof (rule ccontr)
      assume "\<not> ?thesis"
      then have "clean raw = clean b @ t" using clean_append [of b t] filter_safe [OF t_safe] raw by auto
      with \<open>clean b = []\<close> C t show False by auto
    qed
    then have "dropWhile c0_or_space raw = dropWhile c0_or_space t" by (simp add: raw dropWhile_append2)
    then have "set (clean raw) \<subseteq> set t"
      by (auto simp: clean_def dest: set_dropWhileD)
    with C t show False by auto
  qed
  then have Cb: "clean raw = clean b @ t" using clean_app_safe [OF _ t_safe] raw by simp
  have "clean b @ t = a @ CHR '':'' # r" using C Cb by simp
  then obtain s0 where s0: "clean b = a @ s0" "s0 @ t = CHR '':'' # r"
    using t by (elim append_eq_prefix) auto
  have "s0 \<noteq> []" using s0(2) t by (cases s0) auto
  then obtain s where s: "clean b = a @ CHR '':'' # s" "s @ t = r" using s0 by (cases s0) auto
  have "n \<noteq> []" "\<not> netloc_delim (hd n)" using n hostname_netloc [OF host] by (cases n, auto split: if_splits)+
  moreover have "s @ t = ''//'' @ n" using s r by simp
  ultimately obtain n' where n': "s = ''//'' @ n'" "n' @ t = n"
    using t by (elim append_eq_prefix) (auto simp: netloc_delim_def)
  have "takeWhile ?nd n' = netloc u"
    using n n'(2) takeWhile_not_delim [of t n'] t by (cases t) (auto simp: netloc_delim_def)
  with raw t s(1) n'(1) sp Cb show thesis by (intro that [of t a n']) auto
qed

lemma request_stays_on_origin_aux:
  assumes ok: "validate_origin bk raw = Inr b" and u: "urlsplit bk raw = Inr u" and p: "path_text p"
  shows "\<exists>u'. urlsplit bk (b @ p) = Inr u' \<and> scheme u' = scheme u \<and> netloc u' = netloc u"
proof -
  obtain t a n where raw: "raw = b @ t" "set t \<subseteq> {CHR ''/''}" and C: "clean b = a @ CHR '':'' # ''//'' @ n"
    and sp: "\<forall>r. split_scheme (a @ CHR '':'' # r) = (scheme u, r)"
    and n: "takeWhile (\<lambda>c. \<not> netloc_delim c) n = netloc u" and Cb: "clean raw = clean b @ t"
    by (rule accepted_origin_shape [OF ok u])
  have "clean (b @ p) = clean b @ p" using C p by (intro clean_app_safe) (auto simp: path_text_def)
  then have "split_scheme (clean (b @ p)) = (scheme u, ''//'' @ n @ p)" using sp C by simp
  moreover have "fst (split_netloc (''//'' @ n @ p)) = netloc u"
    using n takeWhile_not_delim [of p n] p
    by (auto simp: split_netloc_def startswith_def path_text_def netloc_delim_def)
  moreover have "brackets_ok bk (netloc u)" using u by (cases u) (auto simp: urlsplit_def split: prod.splits if_splits)
  ultimately show ?thesis by (auto simp: urlsplit_def split: prod.splits)
qed

text \<open>
  Claim C34. Every request of a client built on an accepted origin keeps the scheme and the
  authority of that origin, whatever the published path is: appending a path text to the
  validated origin yields a URL that splits into the same scheme and network location.
\<close>

theorem request_stays_on_origin:
  assumes "validate_origin bk raw = Inr b" and "urlsplit bk raw = Inr u" and "path_text p"
  shows "\<exists>u'. urlsplit bk (b @ p) = Inr u' \<and> scheme u' = scheme u \<and> netloc u' = netloc u"
  using assms by (rule request_stays_on_origin_aux)

theorem request_stays_on_origin_witness:
  "\<exists>u u'. urlsplit (\<lambda>_. True) ''http://h:3000/'' = Inr u \<and>
     urlsplit (\<lambda>_. True) (''http://h:3000'' @ ''/agent-policy'') = Inr u' \<and>
     scheme u' = ''http'' \<and> netloc u' = ''h:3000''"
proof -
  let ?u = "\<lparr>scheme = ''http'', netloc = ''h:3000'', upath = ''/'', uquery = [], ufragment = []\<rparr>"
  have a: "validate_origin (\<lambda>_. True) ''http://h:3000/'' = Inr ''http://h:3000''" by code_simp
  have b: "urlsplit (\<lambda>_. True) ''http://h:3000/'' = Inr ?u" by code_simp
  have c: "path_text ''/agent-policy''" by code_simp
  show ?thesis using request_stays_on_origin [OF a b c] b by auto
qed

text \<open>
  When the origin text itself holds neither whitespace nor control characters, no
  question mark and no hash, the request URL addresses exactly the published path: it splits
  into the origin's scheme and authority, that path, and an empty query and fragment.
\<close>

theorem request_addresses_path:
  assumes ok: "validate_origin bk raw = Inr b" and u: "urlsplit bk raw = Inr u" and p: "path_text p"
    and plain: "\<forall>c \<in> set raw. 32 < (of_char c :: nat) \<and> c \<noteq> CHR ''?'' \<and> c \<noteq> CHR ''#''"
  shows "urlsplit bk (b @ p) =
    Inr \<lparr>scheme = scheme u, netloc = netloc u, upath = p, uquery = [], ufragment = []\<rparr>"
proof -
  let ?nd = "\<lambda>c. \<not> netloc_delim c"
  obtain t a n where raw: "raw = b @ t" "set t \<subseteq> {CHR ''/''}" and C: "clean b = a @ CHR '':'' # ''//'' @ n"
    and sp: "\<forall>r. split_scheme (a @ CHR '':'' # r) = (scheme u, r)"
    and n: "takeWhile (\<lambda>c. \<not> netloc_delim c) n = netloc u" and Cb: "clean raw = clean b @ t"
    by (rule accepted_origin_shape [OF ok u])
  have b: "b = a @ CHR '':'' # ''//'' @ n" using C plain raw(1) clean_id [of b] by auto
  have "snd (split_netloc (''//'' @ n @ t)) = upath u"
  proof -
    have "set (dropWhile ?nd (n @ t)) \<subseteq> set raw" using raw b by (auto dest: set_dropWhileD)
    then have "CHR ''#'' \<notin> set (dropWhile ?nd (n @ t))" "CHR ''?'' \<notin> set (dropWhile ?nd (n @ t))"
      using plain by blast+
    then show ?thesis
      using u by (cases u) (auto simp: urlsplit_def Cb C sp split_netloc_def startswith_def
          split_once_notin split: if_splits)
  qed
  then have path: "dropWhile ?nd (n @ t) \<in> {[], ''/''}"
    using ok u by (auto elim!: validate_origin_InrD simp: split_netloc_def startswith_def)
  have "dropWhile ?nd n = []"
  proof (rule ccontr)
    assume ne: "dropWhile ?nd n \<noteq> []"
    then have "dropWhile ?nd (n @ t) = dropWhile ?nd n @ t"
      by (auto simp: dropWhile_eq_Nil_conv dropWhile_append)
    with path ne have "dropWhile ?nd n = ''/''" "t = []" by (auto simp: append_eq_Cons_conv)
    then have "b = (a @ CHR '':'' # ''//'' @ takeWhile ?nd n) @ ''/''"
      using b takeWhile_dropWhile_id [of ?nd n] by (metis append.assoc append_Cons)
    then have "b \<noteq> []" "last b = CHR ''/''" by (simp_all only: last_snoc last_append) simp_all
    moreover have "b = rstrip_of (\<lambda>c. c = CHR ''/'') raw"
      using ok by (rule validate_origin_InrD)
    ultimately show False using rstrip_of_last [of "\<lambda>c. c = CHR ''/''" raw] by simp
  qed
  then have "takeWhile ?nd n = n" by (metis append.right_neutral takeWhile_dropWhile_id)
  then have nn: "n = netloc u" using n by simp
  have "clean (b @ p) = b @ p" using plain raw p by (intro clean_id) (auto simp: path_text_def)
  moreover have "split_netloc (''//'' @ n @ p) = (n, p)"
    using \<open>dropWhile ?nd n = []\<close> \<open>takeWhile ?nd n = n\<close> p
    by (cases p) (auto simp: split_netloc_def startswith_def path_text_def netloc_delim_def
        dropWhile_eq_Nil_conv takeWhile_append2 dropWhile_append2)
  moreover have "brackets_ok bk (netloc u)" using u by (cases u) (auto simp: urlsplit_def split: prod.splits if_splits)
  moreover have "CHR ''?'' \<notin> set p" "CHR ''#'' \<notin> set p" using p by (auto simp: path_text_def)
  ultimately show ?thesis using b sp by (simp add: urlsplit_def nn split_once_notin)
qed

theorem request_addresses_path_witness:
  "urlsplit (\<lambda>_. True) (''http://h:3000'' @ ''/agent-policy'') =
     Inr \<lparr>scheme = ''http'', netloc = ''h:3000'', upath = ''/agent-policy'', uquery = [], ufragment = []\<rparr>"
proof -
  let ?u = "\<lparr>scheme = ''http'', netloc = ''h:3000'', upath = ''/'', uquery = [], ufragment = []\<rparr>"
  have a: "validate_origin (\<lambda>_. True) ''http://h:3000/'' = Inr ''http://h:3000''" by code_simp
  have b: "urlsplit (\<lambda>_. True) ''http://h:3000/'' = Inr ?u" by code_simp
  have c: "path_text ''/agent-policy''" by code_simp
  have d: "\<forall>c \<in> set ''http://h:3000/''. 32 < (of_char c :: nat) \<and> c \<noteq> CHR ''?'' \<and> c \<noteq> CHR ''#''"
    by code_simp
  show ?thesis using request_addresses_path [OF a b c d] by simp
qed


end
