(* ===== verification/Protocol.thy ===== *)
theory Protocol
  imports Py_Json Url
begin

text \<open>
  \<^verbatim>\<open>python/ai_protocol/protocol.py\<close>: the bearer token check of \<open>service_client\<close>, operation
  descriptors (\<open>validate_operation\<close>), discovery, and the retry rule \<open>safe_to_retry\<close>. The attempt
  loop \<open>execute\<close> is in the theory Execute.

  Parameters: \<open>check_schema\<close> is \<^verbatim>\<open>jsonschema.Draft202012Validator.check_schema\<close> and
  \<open>validate schema params\<close> the validator run, each returning the exception it raises, if any.
  HTTP answers are values of \<open>response\<close>; a transport exception is \<open>Inl\<close>.
\<close>

type_synonym schema_check = "json \<Rightarrow> exn option"
type_synonym schema_validate = "json \<Rightarrow> json \<Rightarrow> exn option"

definition raised :: "exn option \<Rightarrow> unit result" where
  "raised x = (case x of None \<Rightarrow> Inr () | Some e \<Rightarrow> Inl e)"

lemma raised_Inr_iff [result_simps]: "raised x = Inr () \<longleftrightarrow> x = None"
  by (cases x) (auto simp: raised_def)

lemma raised_Inl_iff [result_simps]: "raised x = Inl e \<longleftrightarrow> x = Some e"
  by (cases x) (auto simp: raised_def)

subsection \<open>Patterns\<close>

definition token_class :: cclass where
  "token_class = [(CHR ''A'', CHR ''Z''), (CHR ''a'', CHR ''z''), (CHR ''0'', CHR ''9''),
     (CHR ''.'', CHR ''.''), (CHR ''_'', CHR ''_''), (CHR 0x7E, CHR 0x7E), (CHR ''+'', CHR ''+''),
     (CHR ''/'', CHR ''/''), (CHR ''='', CHR ''=''), (CHR ''-'', CHR ''-'')]"

definition token_rx :: rx where
  "token_rx = Plus (Cls token_class)"

definition name_class :: cclass where
  "name_class = [(CHR ''A'', CHR ''Z''), (CHR ''a'', CHR ''z''), (CHR ''0'', CHR ''9''),
     (CHR ''_'', CHR ''_''), (CHR ''-'', CHR ''-'')]"

definition path_rx :: rx where
  "path_rx = Seq (Seq (lit ''/'') (Plus (Cls name_class)))
                 (Star (Seq (lit ''/'') (Plus (Cls name_class))))"

subsection \<open>The HTTP client of a token\<close>

record http_config =
  auth_header :: string
  trust_env :: bool
  io_timeout :: rat
  follow_redirects :: bool

definition service_client :: "(string, string) dict \<Rightarrow> string option \<Rightarrow> http_config result" where
  "service_client environ token =
     (let token = (case token of Some t \<Rightarrow> if t = [] then dget environ ''AGENT_TOKEN_1'' else Some t
                   | None \<Rightarrow> dget environ ''AGENT_TOKEN_1'')
      in case token of
           None \<Rightarrow> Inl (ValueError ''Set AGENT_TOKEN_1 before running the client'')
         | Some t \<Rightarrow>
             if t = [] then Inl (ValueError ''Set AGENT_TOKEN_1 before running the client'')
             else if \<not> fullmatch token_rx t
             then Inl (ValueError ''AGENT_TOKEN_1 is not a valid bearer token'')
             else Inr \<lparr>auth_header = ''Bearer '' @ t, trust_env = False, io_timeout = 30,
                       follow_redirects = False\<rparr>)"

definition base_url :: "(string, string) dict \<Rightarrow> string" where
  "base_url environ =
     rstrip_of (\<lambda>c. c = CHR ''/'')
       (case dget environ ''SERVICE_URL'' of Some u \<Rightarrow> u
        | None \<Rightarrow> ''http://127.0.0.1:'' @
            (case dget environ ''GATEWAY_PORT'' of Some p \<Rightarrow> p | None \<Rightarrow> ''3000''))"

text \<open>\<^verbatim>\<open>(base_url or BASE_URL).rstrip("/") + path\<close>.\<close>

definition url_for :: "string \<Rightarrow> string option \<Rightarrow> string \<Rightarrow> string" where
  "url_for BASE_URL base path =
     rstrip_of (\<lambda>c. c = CHR ''/'')
       (case base of Some b \<Rightarrow> if b = [] then BASE_URL else b | None \<Rightarrow> BASE_URL) @ path"

subsection \<open>Operation descriptors\<close>

definition ref_key :: "string \<Rightarrow> bool" where
  "ref_key k \<longleftrightarrow> k = ''$ref'' \<or> k = ''$dynamicRef''"

definition local_ref :: "json \<Rightarrow> bool" where
  "local_ref v = (case as_str v of Some s \<Rightarrow> startswith s ''#'' | None \<Rightarrow> False)"

fun check_references :: "json \<Rightarrow> unit result"
  and check_items :: "(string \<times> json) list \<Rightarrow> unit result"
  and check_elements :: "json list \<Rightarrow> unit result" where
  "check_references (JDict kvs) = check_items kvs"
| "check_references (JList xs) = check_elements xs"
| "check_references _ = Inr ()"
| "check_items [] = Inr ()"
| "check_items ((key, item) # kvs) =
     (if ref_key key \<and> \<not> local_ref item
      then Inl (ValueError ''External schema references are not supported'')
      else rbind (check_references item) (\<lambda>_. check_items kvs))"
| "check_elements [] = Inr ()"
| "check_elements (x # xs) = rbind (check_references x) (\<lambda>_. check_elements xs)"

definition validate_operation :: "schema_check \<Rightarrow> json \<Rightarrow> unit result" where
  "validate_operation check_schema operation =
     (case as_dict operation of
        None \<Rightarrow> Inl (ValueError ''Invalid operation descriptor'')
      | Some d \<Rightarrow>
        if \<not> nonempty_str (get d ''name'') then Inl (ValueError ''Invalid operation name'')
        else if \<not> is_str (get d ''description'') then Inl (ValueError ''Invalid operation description'')
        else if \<not> py_eq (get d ''method'') (JStr ''POST'')
        then Inl (ValueError ''This client currently supports only POST'')
        else if \<not> (case as_str (get d ''path'') of Some p \<Rightarrow> fullmatch path_rx p | None \<Rightarrow> False)
        then Inl (ValueError ''Unsupported operation path'')
        else case as_dict (get d ''input_schema'') of
               None \<Rightarrow> Inl (ValueError ''Invalid operation schema'')
             | Some s \<Rightarrow> rbind (check_references (JDict s)) (\<lambda>_. raised (check_schema (JDict s))))"

text \<open>\<^verbatim>\<open>operation["name"]\<close> and friends, for operations that passed \<open>validate_operation\<close>.\<close>

definition field :: "json \<Rightarrow> string \<Rightarrow> json" where
  "field v k = (case as_dict v of Some d \<Rightarrow> get d k | None \<Rightarrow> JNull)"

definition str_field :: "json \<Rightarrow> string \<Rightarrow> string" where
  "str_field v k = (case as_str (field v k) of Some s \<Rightarrow> s | None \<Rightarrow> [])"

subsection \<open>Responses\<close>

text \<open>\<open>resp_json\<close> is \<open>None\<close> when \<^verbatim>\<open>response.json()\<close> raises \<^verbatim>\<open>ValueError\<close>; \<open>retry_after\<close> is the
  \<^verbatim>\<open>Retry-After\<close> header, if present.\<close>

record response =
  status_code :: int
  resp_json :: "json option"
  retry_after :: "string option"

definition is_success :: "response \<Rightarrow> bool" where
  "is_success r \<longleftrightarrow> 200 \<le> status_code r \<and> status_code r < 300"

definition raise_for_status :: "response \<Rightarrow> unit result" where
  "raise_for_status r = (if is_success r then Inr () else Inl (HTTPStatusError (status_code r)))"

definition response_json :: "response \<Rightarrow> json result" where
  "response_json r =
     (case resp_json r of Some v \<Rightarrow> Inr v | None \<Rightarrow> Inl (ValueError ''Expecting value''))"

definition safe_to_retry :: "response \<Rightarrow> bool" where
  "safe_to_retry r =
     (if status_code r = 429 then True
      else if status_code r \<noteq> 503 then False
      else case resp_json r of
             None \<Rightarrow> False
           | Some body \<Rightarrow>
               (case as_dict (field body ''error'') of
                  None \<Rightarrow> False
                | Some d \<Rightarrow> py_eq (get d ''code'') (JStr ''queue_timeout'') \<and>
                            py_eq (get d ''execution'') (JStr ''not_started'')))"

text \<open>The \<^verbatim>\<open>Retry-After\<close> rule shared by \<open>execute\<close> and \<^verbatim>\<open>AsyncClient.call\<close>.\<close>

definition retry_seconds :: "response \<Rightarrow> int result" where
  "retry_seconds r =
     (let raw = py_strip (case retry_after r of Some h \<Rightarrow> h | None \<Rightarrow> ''1'')
      in if py_isascii raw \<and> py_isdigit raw then py_int_digits raw else Inr 1)"

subsection \<open>Discovery\<close>

fun scan_operations :: "schema_check \<Rightarrow> string list \<Rightarrow> json list \<Rightarrow> unit result" where
  "scan_operations check_schema names [] = Inr ()"
| "scan_operations check_schema names (operation # ops) =
     rbind (validate_operation check_schema operation) (\<lambda>_.
       if str_field operation ''name'' \<in> set names
       then Inl (ValueError ''Duplicate operation name'')
       else scan_operations check_schema (str_field operation ''name'' # names) ops)"

definition check_discovery :: "schema_check \<Rightarrow> json \<Rightarrow> json list result" where
  "check_discovery check_schema policy =
     (if (case as_dict policy of None \<Rightarrow> True | Some p \<Rightarrow> as_int (get p ''version'') \<noteq> Some 3)
      then Inl (ValueError ''Unsupported protocol version; this client requires v3'')
      else if \<not> nonempty_str (field policy ''principal_id'') then Inl (ValueError ''Invalid principal ID'')
      else if \<not> (py_eq (field policy ''client_class'') (JStr ''agent'')
                 \<or> py_eq (field policy ''client_class'') (JStr ''interactive''))
      then Inl (ValueError ''Invalid client class'')
      else if (case as_dict (field policy ''limits'') of None \<Rightarrow> True
               | Some l \<Rightarrow> \<not> py_eq (get l ''scope'') (JStr ''principal''))
      then Inl (ValueError ''Unsupported budget scope'')
      else if (case as_int (field (field policy ''limits'') ''max_outstanding'') of
                 None \<Rightarrow> True | Some m \<Rightarrow> m < 1)
      then Inl (ValueError ''Invalid outstanding limit'')
      else case as_list (field policy ''operations'') of
             None \<Rightarrow> Inl (ValueError ''Invalid operation list'')
           | Some ops \<Rightarrow> rbind (scan_operations check_schema [] ops) (\<lambda>_. Inr ops))"

text \<open>\<open>answer\<close> is the outcome of \<^verbatim>\<open>client.get(url_for(base_url, "/agent-policy"))\<close>.\<close>

definition discover :: "schema_check \<Rightarrow> response result \<Rightarrow> json list result" where
  "discover check_schema answer =
     rbind answer (\<lambda>r. rbind (raise_for_status r) (\<lambda>_. rbind (response_json r) (check_discovery check_schema)))"

subsection \<open>What the patterns accept\<close>

lemma token_iff:
  "fullmatch token_rx t \<longleftrightarrow> t \<noteq> [] \<and> (\<forall>c \<in> set t. in_class token_class c)"
  by (simp add: token_rx_def fullmatch_Plus_Cls)

lemma token_class_visible: "in_class token_class c \<Longrightarrow> 33 \<le> (of_char c :: nat) \<and> (of_char c :: nat) \<le> 126"
  by (auto simp: token_class_def in_class_def char_in_def)

lemma token_visible:
  "fullmatch token_rx t \<Longrightarrow> \<forall>c \<in> set t. 33 \<le> (of_char c :: nat) \<and> (of_char c :: nat) \<le> 126"
  by (auto simp: token_iff dest: token_class_visible)

lemma name_class_safe:
  "in_class name_class c \<Longrightarrow> 32 < (of_char c :: nat) \<and> c \<notin> {CHR ''?'', CHR ''#'', CHR ''/''}"
  by (auto simp: name_class_def in_class_def char_in_def)

definition segment :: "string \<Rightarrow> bool" where
  "segment s \<longleftrightarrow> s \<noteq> [] \<and> (\<forall>c \<in> set s. in_class name_class c)"

lemma lang_slash_segment:
  "lang (Seq (lit ''/'') (Plus (Cls name_class))) = {CHR ''/'' # s | s. segment s}"
  using lang_lit [of "''/''"] lang_Plus_Cls [of name_class] by (auto simp: segment_def)

lemma in_lang_path_rx:
  "p \<in> lang path_rx \<longleftrightarrow> (\<exists>s ws. segment s \<and> p = (CHR ''/'' # s) @ concat ws \<and>
      set ws \<subseteq> {CHR ''/'' # s | s. segment s})"
  unfolding path_rx_def in_lang_Seq [of _ "Seq (lit ''/'') (Plus (Cls name_class))"] in_lang_Star
    lang_slash_segment by blast

theorem path_rx_segments:
  "fullmatch path_rx p \<longleftrightarrow>
     (\<exists>segs. segs \<noteq> [] \<and> (\<forall>s \<in> set segs. segment s) \<and> p = concat (map (Cons CHR ''/'') segs))"
proof
  let ?A = "{CHR ''/'' # s | s. segment s}"
  assume "fullmatch path_rx p"
  then obtain s ws where p: "p = (CHR ''/'' # s) @ concat ws" and s: "segment s" and ws: "set ws \<subseteq> ?A"
    by (auto simp: fullmatch_lang in_lang_path_rx)
  have "\<exists>segs. ws = map (Cons CHR ''/'') segs \<and> (\<forall>s \<in> set segs. segment s)" using ws
  proof (induction ws)
    case (Cons w ws)
    then obtain t segs where "w = CHR ''/'' # t" "segment t" "ws = map (Cons CHR ''/'') segs"
      "\<forall>s \<in> set segs. segment s" by auto
    then show ?case by (auto intro!: exI [where x = "t # segs"])
  qed simp
  then obtain segs where "ws = map (Cons CHR ''/'') segs" "\<forall>s \<in> set segs. segment s" by blast
  with p s show "\<exists>segs. segs \<noteq> [] \<and> (\<forall>s \<in> set segs. segment s) \<and> p = concat (map (Cons CHR ''/'') segs)"
    by (auto intro!: exI [where x = "s # segs"])
next
  assume "\<exists>segs. segs \<noteq> [] \<and> (\<forall>s \<in> set segs. segment s) \<and> p = concat (map (Cons CHR ''/'') segs)"
  then obtain s segs where "segment s" "\<forall>s \<in> set segs. segment s"
    "p = (CHR ''/'' # s) @ concat (map (Cons CHR ''/'') segs)" by (auto simp: neq_Nil_conv)
  moreover from this have "set (map (Cons CHR ''/'') segs) \<subseteq> {CHR ''/'' # s | s. segment s}" by auto
  ultimately show "fullmatch path_rx p" unfolding fullmatch_lang in_lang_path_rx by blast
qed

lemma path_rx_text: "fullmatch path_rx p \<Longrightarrow> path_text p"
proof -
  assume "fullmatch path_rx p"
  then obtain segs where segs: "segs \<noteq> []" "\<forall>s \<in> set segs. segment s"
    and p: "p = concat (map (Cons CHR ''/'') segs)" by (auto simp: path_rx_segments)
  have "c = CHR ''/'' \<or> in_class name_class c" if "c \<in> set p" for c
    using that segs(2) by (auto simp: p segment_def split: if_splits)
  then have "32 < (of_char c :: nat) \<and> c \<noteq> CHR ''?'' \<and> c \<noteq> CHR ''#''" if "c \<in> set p" for c
    using that name_class_safe [of c] by fastforce
  moreover have "p \<noteq> []" "hd p = CHR ''/''" using segs(1) by (cases segs, auto simp: p)+
  ultimately show ?thesis by (simp add: path_text_def)
qed

subsection \<open>Schema references\<close>

text \<open>\<open>nested v w\<close>: \<open>w\<close> occurs in \<open>v\<close>, at any depth.\<close>

inductive nested :: "json \<Rightarrow> json \<Rightarrow> bool" where
  here: "nested v v"
| in_dict: "(k, x) \<in> set kvs \<Longrightarrow> nested x w \<Longrightarrow> nested (JDict kvs) w"
| in_list: "x \<in> set xs \<Longrightarrow> nested x w \<Longrightarrow> nested (JList xs) w"

inductive_simps nested_JDict: "nested (JDict kvs) w"
inductive_simps nested_JList: "nested (JList xs) w"
inductive_cases nested_JNull: "nested JNull w"
inductive_cases nested_JBool: "nested (JBool b) w"
inductive_cases nested_JInt: "nested (JInt i) w"
inductive_cases nested_JFloat: "nested (JFloat f) w"
inductive_cases nested_JStr: "nested (JStr s) w"

definition refs_local :: "json \<Rightarrow> bool" where
  "refs_local v \<longleftrightarrow> (\<forall>d k x. nested v (JDict d) \<longrightarrow> (k, x) \<in> set d \<longrightarrow> ref_key k \<longrightarrow> local_ref x)"

lemma refs_local_JDict:
  "refs_local (JDict kvs) \<longleftrightarrow> (\<forall>(k, x) \<in> set kvs. (ref_key k \<longrightarrow> local_ref x) \<and> refs_local x)"
proof
  assume L: "refs_local (JDict kvs)"
  have "(ref_key k \<longrightarrow> local_ref x) \<and> refs_local x" if kx: "(k, x) \<in> set kvs" for k x
  proof -
    have "ref_key k \<longrightarrow> local_ref x" using L kx nested.here by (auto simp: refs_local_def)
    moreover have "refs_local x" using L in_dict [OF kx] by (auto simp: refs_local_def)
    ultimately show ?thesis by blast
  qed
  then show "\<forall>(k, x) \<in> set kvs. (ref_key k \<longrightarrow> local_ref x) \<and> refs_local x" by auto
next
  assume R: "\<forall>(k, x) \<in> set kvs. (ref_key k \<longrightarrow> local_ref x) \<and> refs_local x"
  show "refs_local (JDict kvs)" unfolding refs_local_def
  proof (intro allI impI)
    fix d k x assume "nested (JDict kvs) (JDict d)" "(k, x) \<in> set d" "ref_key k"
    with R show "local_ref x" by (auto simp: nested_JDict refs_local_def)
  qed
qed

lemma refs_local_JList: "refs_local (JList xs) \<longleftrightarrow> (\<forall>x \<in> set xs. refs_local x)"
proof -
  have "nested (JList xs) (JDict d) \<longleftrightarrow> (\<exists>x \<in> set xs. nested x (JDict d))" for d
    by (auto simp: nested_JList)
  then show ?thesis by (auto simp: refs_local_def)
qed

lemma refs_local_atom:
  "refs_local JNull" "refs_local (JBool b)" "refs_local (JInt i)" "refs_local (JFloat f)" "refs_local (JStr s)"
  by (auto simp: refs_local_def elim: nested_JNull nested_JBool nested_JInt nested_JFloat nested_JStr)

lemma check_references_iff:
  "check_references v = Inr () \<longleftrightarrow> refs_local v"
  "check_items kvs = Inr () \<longleftrightarrow> (\<forall>(k, x) \<in> set kvs. (ref_key k \<longrightarrow> local_ref x) \<and> refs_local x)"
  "check_elements xs = Inr () \<longleftrightarrow> (\<forall>x \<in> set xs. refs_local x)"
proof (induction v and kvs and xs rule: check_references_check_items_check_elements.induct)
qed (auto simp: refs_local_JDict refs_local_JList refs_local_atom result_simps if_split)

lemma check_references_Inl:
  "check_references v = Inl e \<Longrightarrow> is_value_error e"
  "check_items kvs = Inl e \<Longrightarrow> is_value_error e"
  "check_elements xs = Inl e \<Longrightarrow> is_value_error e"
  by (induction v and kvs and xs rule: check_references_check_items_check_elements.induct)
     (auto simp: result_simps split: if_splits)

text \<open>
  The reference check accepts a schema exactly when, at every depth, each
  \<^verbatim>\<open>$ref\<close> and \<^verbatim>\<open>$dynamicRef\<close> entry of each object is a text starting with a hash, so that no
  accepted schema names another document; every rejection is a \<^verbatim>\<open>ValueError\<close>.
\<close>

theorem check_references_spec:
  "(check_references schema = Inr () \<longleftrightarrow>
     (\<forall>d k x. nested schema (JDict d) \<longrightarrow> (k, x) \<in> set d \<longrightarrow> k \<in> {''$ref'', ''$dynamicRef''} \<longrightarrow>
        (\<exists>t. x = JStr (CHR ''#'' # t)))) \<and>
   (\<forall>e. check_references schema = Inl e \<longrightarrow> is_value_error e)"
proof -
  have "local_ref x \<longleftrightarrow> (\<exists>t. x = JStr (CHR ''#'' # t))" for x
    by (cases x) (auto simp: local_ref_def startswith_iff)
  then have "check_references schema = Inr () \<longleftrightarrow>
     (\<forall>d k x. nested schema (JDict d) \<longrightarrow> (k, x) \<in> set d \<longrightarrow> k \<in> {''$ref'', ''$dynamicRef''} \<longrightarrow>
        (\<exists>t. x = JStr (CHR ''#'' # t)))"
    by (auto simp: check_references_iff refs_local_def ref_key_def)
  then show ?thesis using check_references_Inl(1) by blast
qed

theorem check_references_spec_witness:
  "check_references (JDict [(''$ref'', JStr ''#/x'')]) = Inr () \<and>
   nested (JDict [(''$ref'', JStr ''#/x'')]) (JDict [(''$ref'', JStr ''#/x'')]) \<and>
   (\<exists>t. JStr ''#/x'' = JStr (CHR ''#'' # t))"
proof -
  let ?s = "JDict [(''$ref'', JStr ''#/x'')]"
  have a: "check_references ?s = Inr ()" by code_simp
  have b: "nested ?s ?s" by (rule nested.here)
  have "\<exists>t. JStr ''#/x'' = JStr (CHR ''#'' # t)"
    using check_references_spec [of ?s] a b by auto
  with a b show ?thesis by blast
qed

subsection \<open>Accepted operations\<close>

definition valid_operation :: "schema_check \<Rightarrow> json \<Rightarrow> bool" where
  "valid_operation check_schema v \<longleftrightarrow> validate_operation check_schema v = Inr ()"

lemma validate_operation_Inr_iff:
  "validate_operation check_schema v = Inr () \<longleftrightarrow>
     (\<exists>d n ds p s. v = JDict d \<and> get d ''name'' = JStr n \<and> n \<noteq> [] \<and> get d ''description'' = JStr ds \<and>
        get d ''method'' = JStr ''POST'' \<and> get d ''path'' = JStr p \<and> fullmatch path_rx p \<and>
        get d ''input_schema'' = JDict s \<and> refs_local (JDict s) \<and> check_schema (JDict s) = None)"
  unfolding validate_operation_def
  by (cases "as_dict v"; simp)
     (auto simp: nonempty_str_iff is_str_iff result_simps check_references_iff(1)
       simp del: check_references.simps(1) split: option.splits)

lemma validate_operation_error:
  "validate_operation check_schema v = Inl e \<Longrightarrow> is_value_error e \<or> (\<exists>s. check_schema s = Some e)"
  unfolding validate_operation_def
  by (auto simp: result_simps simp del: check_references.simps(1) dest: check_references_Inl(1)
      split: option.splits if_splits)

lemma scan_operations_Inr_iff:
  "scan_operations check_schema names ops = Inr () \<longleftrightarrow>
     list_all (valid_operation check_schema) ops \<and> distinct (map (\<lambda>v. str_field v ''name'') ops) \<and>
     set names \<inter> (\<lambda>v. str_field v ''name'') ` set ops = {}"
  by (induction names ops rule: scan_operations.induct [of _ check_schema])
     (auto simp: result_simps valid_operation_def)

text \<open>
  Claim C35. Discovery returns a list of operations exactly when the answer is a success whose
  body is a version 3 policy: an integer version, a non-empty principal, a known client class,
  a principal-scoped budget of at least one, and operations that are all valid with pairwise
  distinct names; the list is the one the service published.
\<close>

theorem discover_spec:
  "discover check_schema answer = Inr ops \<longleftrightarrow>
     (\<exists>r p l m. answer = Inr r \<and> is_success r \<and> resp_json r = Some (JDict p) \<and>
        get p ''version'' = JInt 3 \<and> (\<exists>s. s \<noteq> [] \<and> get p ''principal_id'' = JStr s) \<and>
        get p ''client_class'' \<in> {JStr ''agent'', JStr ''interactive''} \<and>
        get p ''limits'' = JDict l \<and> get l ''scope'' = JStr ''principal'' \<and>
        get l ''max_outstanding'' = JInt m \<and> 1 \<le> m \<and> get p ''operations'' = JList ops \<and>
        (\<forall>v \<in> set ops. valid_operation check_schema v) \<and> distinct (map (\<lambda>v. str_field v ''name'') ops))"
  (is "?L \<longleftrightarrow> ?R")
proof
  assume ?L
  then show ?R
    by (auto simp: discover_def check_discovery_def raise_for_status_def response_json_def field_def
        result_simps nonempty_str_iff scan_operations_Inr_iff list_all_iff split: if_splits option.splits)
next
  assume ?R
  then show ?L
    by (auto simp: discover_def check_discovery_def raise_for_status_def response_json_def field_def
        result_simps nonempty_str_iff scan_operations_Inr_iff list_all_iff split: option.splits)
qed

lemma operation_on_origin:
  assumes op: "validate_operation check_schema operation = Inr ()"
    and ok: "validate_origin bk raw = Inr b" and u: "urlsplit bk raw = Inr u"
  shows "\<exists>u'. urlsplit bk (url_for BASE_URL (Some b) (str_field operation ''path'')) = Inr u' \<and>
           scheme u' = scheme u \<and> netloc u' = netloc u"
proof -
  obtain t a n where "clean b = a @ CHR '':'' # ''//'' @ n"
    by (rule accepted_origin_shape [OF ok u])
  then have "b \<noteq> []" by (auto simp: clean_def)
  moreover have "rstrip_of (\<lambda>c. c = CHR ''/'') b = b"
    using ok by (auto elim: validate_origin_InrD simp: text_simps)
  moreover have "path_text (str_field operation ''path'')"
    using op path_rx_text by (auto simp: validate_operation_Inr_iff str_field_def field_def)
  ultimately show ?thesis using request_stays_on_origin_aux [OF ok u] by (simp add: url_for_def)
qed

text \<open>
  The credential stays with the configured service: the URL of every request for an
  accepted operation on an accepted origin has the scheme and the network location of that
  origin.
\<close>

theorem operation_request_on_origin:
  assumes "validate_operation check_schema operation = Inr ()"
    and "validate_origin bk raw = Inr b" and "urlsplit bk raw = Inr u"
  shows "\<exists>u'. urlsplit bk (url_for BASE_URL (Some b) (str_field operation ''path'')) = Inr u' \<and>
           scheme u' = scheme u \<and> netloc u' = netloc u"
  using assms by (rule operation_on_origin)

definition sample_operation :: json where
  "sample_operation = JDict [(''name'', JStr ''get_product''), (''description'', JStr ''d''),
     (''method'', JStr ''POST''), (''path'', JStr ''/product''), (''input_schema'', JDict [])]"

theorem operation_request_on_origin_witness:
  "\<exists>u'. urlsplit (\<lambda>_. True) (url_for [] (Some ''http://h:3000'') ''/product'') = Inr u' \<and>
        scheme u' = ''http'' \<and> netloc u' = ''h:3000''"
proof -
  let ?u = "\<lparr>scheme = ''http'', netloc = ''h:3000'', upath = ''/'', uquery = [], ufragment = []\<rparr>"
  have a: "validate_operation (\<lambda>_. None) sample_operation = Inr ()" by code_simp
  have b: "validate_origin (\<lambda>_. True) ''http://h:3000/'' = Inr ''http://h:3000''" by code_simp
  have c: "urlsplit (\<lambda>_. True) ''http://h:3000/'' = Inr ?u" by code_simp
  have d: "str_field sample_operation ''path'' = ''/product''" by code_simp
  show ?thesis using operation_request_on_origin [OF a b c, of "[]"] by (simp add: d)
qed

text \<open>
  The synchronous client is only built for a non-empty token of printable,
  non-blank ASCII characters, so its Authorization header is one well-formed header line; it
  never follows redirects and never reads proxy settings from the environment.
\<close>

theorem service_client_header:
  "service_client environ token = Inr cfg \<Longrightarrow>
     (\<exists>t. auth_header cfg = ''Bearer '' @ t \<and> t \<noteq> [] \<and>
        (\<forall>c \<in> set t. 33 \<le> (of_char c :: nat) \<and> (of_char c :: nat) \<le> 126) \<and>
        (token = Some t \<or> dget environ ''AGENT_TOKEN_1'' = Some t)) \<and>
     \<not> follow_redirects cfg \<and> \<not> trust_env cfg"
  by (auto simp: service_client_def Let_def dest!: token_visible split: option.splits if_splits)

theorem service_client_header_witness:
  "\<exists>cfg. service_client [] (Some ''abc'') = Inr cfg \<and> auth_header cfg = ''Bearer abc'' \<and>
     \<not> follow_redirects cfg"
proof -
  let ?c = "\<lparr>auth_header = ''Bearer abc'', trust_env = False, io_timeout = 30, follow_redirects = False\<rparr>"
  have "service_client [] (Some ''abc'') = Inr ?c" by code_simp
  then show ?thesis using service_client_header [of "[]" "Some ''abc''" ?c] by auto
qed

subsection \<open>A discovery\<close>

theorem discover_spec_witness:
  "valid_operation (\<lambda>_. None) sample_operation"
proof -
  let ?p = "JDict [(''version'', JInt 3), (''principal_id'', JStr ''p''), (''client_class'', JStr ''agent''),
    (''limits'', JDict [(''scope'', JStr ''principal''), (''max_outstanding'', JInt 1)]),
    (''operations'', JList [sample_operation])]"
  have "discover (\<lambda>_. None) (Inr \<lparr>status_code = 200, resp_json = Some ?p, retry_after = None\<rparr>) = Inr [sample_operation]"
    by code_simp
  from this [unfolded discover_spec] show ?thesis by auto
qed

end
