(* ===== verification/Retry_Contract.thy ===== *)
theory Retry_Contract
  imports Main
begin

text \<open>
  The contract every attempt loop of the project keeps: a logical task is sent at most
  \<open>bound\<close> times, and it is sent again only after an answer that allows it. \<open>is_log xs\<close> says
  that some run of the loop received exactly the answers \<open>xs\<close>, one per request, in order.
  The lemmas are what callers and the benchmark audits conclude from it.
\<close>

locale bounded_retry =
  fixes is_log :: "'r list \<Rightarrow> bool"
    and retryable :: "'r \<Rightarrow> bool"
    and bound :: nat
  assumes log_bounded: "is_log xs \<Longrightarrow> length xs \<le> bound"
    and sent_again: "is_log xs \<Longrightarrow> i + 1 < length xs \<Longrightarrow> retryable (xs ! i)"
begin

lemma decisive_is_last: "is_log xs \<Longrightarrow> i < length xs \<Longrightarrow> \<not> retryable (xs ! i) \<Longrightarrow> i = length xs - 1"
  using sent_again [of xs i] by linarith

lemma butlast_retryable: "is_log xs \<Longrightarrow> list_all retryable (butlast xs)"
proof -
  assume log: "is_log xs"
  have "retryable (butlast xs ! i)" if "i < length (butlast xs)" for i
    using that sent_again [OF log, of i] by (simp add: nth_butlast)
  then show ?thesis by (simp add: list_all_length)
qed

lemma one_decisive: "is_log xs \<Longrightarrow> length (filter (\<lambda>r. \<not> retryable r) xs) \<le> 1"
proof -
  assume "is_log xs"
  then have "filter (\<lambda>r. \<not> retryable r) (butlast xs) = []"
    using butlast_retryable by (simp add: filter_empty_conv list_all_iff)
  then show ?thesis by (cases xs rule: rev_cases) simp_all
qed

text \<open>The audit of the benchmark analyses: consecutive attempts, and the bound.\<close>

lemma log_audit:
  "is_log xs \<Longrightarrow> length xs \<le> bound \<and> list_all (\<lambda>(a, b). retryable a) (zip xs (tl xs))"
proof -
  assume log: "is_log xs"
  have "retryable (xs ! i)" if "i < length (zip xs (tl xs))" for i
    using that sent_again [OF log, of i] by simp
  then have "list_all (\<lambda>(a, b). retryable a) (zip xs (tl xs))"
    by (simp add: list_all_length nth_tl split: prod.splits)
  with log_bounded [OF log] show ?thesis by blast
qed

end

end
