(* ===== verification/Execute.thy ===== *)
theory Execute
  imports Protocol Retry_Contract
begin

text \<open>
  The synchronous helper \<open>execute\<close> of \<^verbatim>\<open>python/ai_protocol/protocol.py\<close>: one operation, at
  most five attempts, one deadline. The loop over \<^verbatim>\<open>range(1, 6)\<close> is recursion over the
  attempt numbers, so it terminates by construction. Floats are exact rationals.
\<close>

subsection \<open>The attempt loop\<close>

text \<open>
  The readings of \<^verbatim>\<open>time.monotonic()\<close> are named by the program point that takes them:
  before the loop, before attempt \<open>k\<close> is sent, after its answer, and before its backoff.
  \<open>serve k\<close> is what \<^verbatim>\<open>client.request\<close> does on attempt \<open>k\<close>. The run returns the actions it
  performed, in order, and its result; \<open>Inr None\<close> is falling off the end of the function.
\<close>

datatype moment = Begin | Before nat | After nat | Backoff nat

datatype action = Send string string json rat | Say int | Sleep int

definition is_send :: "action \<Rightarrow> bool" where
  "is_send a = (case a of Send _ _ _ _ \<Rightarrow> True | _ \<Rightarrow> False)"

fun slept :: "action \<Rightarrow> int" where
  "slept (Sleep s) = s"
| "slept _ = 0"

type_synonym 'a run = "action list \<times> 'a"

definition then_run :: "action list \<Rightarrow> 'a run \<Rightarrow> 'a run" where
  "then_run acts r = (acts @ fst r, snd r)"

fun attempt_loop ::
  "(moment \<Rightarrow> rat) \<Rightarrow> (nat \<Rightarrow> response result) \<Rightarrow> (rat \<Rightarrow> action) \<Rightarrow> rat \<Rightarrow> nat list \<Rightarrow>
   json option result run" where
  "attempt_loop clk serve send deadline [] = ([], Inr None)"
| "attempt_loop clk serve send deadline (k # ks) =
     (let remaining = deadline - clk (Before k)
      in if remaining \<le> 0 then ([], Inl (TimeoutError ''Operation deadline exceeded''))
         else case serve k of
           Inl e \<Rightarrow> ([send (min 30 remaining)], Inl e)
         | Inr r \<Rightarrow>
             if deadline \<le> clk (After k)
             then ([send (min 30 remaining)], Inl (TimeoutError ''Operation deadline exceeded''))
             else if safe_to_retry r \<and> k < 5 then
               (case retry_seconds r of
                  Inl e \<Rightarrow> ([send (min 30 remaining)], Inl e)
                | Inr s \<Rightarrow>
                    if deadline - clk (Backoff k) \<le> of_int s
                    then ([send (min 30 remaining)],
                          Inl (TimeoutError ''Retry-After exceeds the operation deadline''))
                    else then_run [send (min 30 remaining), Say s, Sleep s]
                           (attempt_loop clk serve send deadline ks))
             else ([send (min 30 remaining)],
                   rbind (raise_for_status r) (\<lambda>_. rbind (response_json r) (\<lambda>v. Inr (Some v)))))"

definition execute ::
  "schema_check \<Rightarrow> schema_validate \<Rightarrow> (moment \<Rightarrow> rat) \<Rightarrow> (nat \<Rightarrow> response result) \<Rightarrow>
   string \<Rightarrow> string option \<Rightarrow> json \<Rightarrow> json \<Rightarrow> rat \<Rightarrow> json option result run" where
  "execute check_schema validate clk serve BASE_URL base operation params task_timeout =
     (case validate_operation check_schema operation of
        Inl e \<Rightarrow> ([], Inl e)
      | Inr _ \<Rightarrow>
        (case validate (field operation ''input_schema'') params of
           Some e \<Rightarrow> ([], Inl e)
         | None \<Rightarrow>
             attempt_loop clk serve
               (Send (str_field operation ''method'') (url_for BASE_URL base (str_field operation ''path'')) params)
               (clk Begin + task_timeout) [1, 2, 3, 4, 5]))"


subsection \<open>Requests and answers of a run\<close>

definition sends :: "action list \<Rightarrow> nat" where
  "sends acts = length (filter is_send acts)"

lemma sends_simps [simp]:
  "sends [] = 0" "sends (a # acts) = (if is_send a then Suc (sends acts) else sends acts)"
  "sends (xs @ ys) = sends xs + sends ys"
  by (simp_all add: sends_def)

lemma is_send_simps [simp]: "is_send (Send m u p t)" "\<not> is_send (Say s)" "\<not> is_send (Sleep s)"
  by (simp_all add: is_send_def)

lemma fst_then_run [simp]: "fst (then_run acts r) = acts @ fst r"
  and snd_then_run [simp]: "snd (then_run acts r) = snd r"
  by (simp_all add: then_run_def)

definition retryable_answer :: "response result \<Rightarrow> bool" where
  "retryable_answer a = (case a of Inl _ \<Rightarrow> False | Inr r \<Rightarrow> safe_to_retry r)"

text \<open>What an attempt that is not repeated yields.\<close>

definition outcome :: "response result \<Rightarrow> json option result" where
  "outcome a = rbind a (\<lambda>r. rbind (raise_for_status r) (\<lambda>_. rbind (response_json r) (\<lambda>v. Inr (Some v))))"

lemma outcome_simps: "outcome (Inl e) = Inl e"
  "outcome (Inr r) = rbind (raise_for_status r) (\<lambda>_. rbind (response_json r) (\<lambda>v. Inr (Some v)))"
  by (simp_all add: outcome_def)

lemma outcome_not_None: "outcome a \<noteq> Inr None"
  by (auto simp: outcome_def result_simps)

lemma outcome_Some: "outcome a = Inr (Some v) \<longleftrightarrow> (\<exists>r. a = Inr r \<and> is_success r \<and> resp_json r = Some v)"
  by (auto simp: outcome_def raise_for_status_def response_json_def result_simps split: option.splits if_splits)

text \<open>One step of the loop: the deadline has passed, this attempt is the last, or it is sent again.\<close>

lemma attempt_loop_Cons:
  obtains (late) "fst (attempt_loop clk serve send dl (k # ks)) = []"
      "snd (attempt_loop clk serve send dl (k # ks)) = Inl (TimeoutError ''Operation deadline exceeded'')"
      "dl \<le> clk (Before k)"
  | (last) "fst (attempt_loop clk serve send dl (k # ks)) = [send (min 30 (dl - clk (Before k)))]"
      "clk (Before k) < dl"
      "(snd (attempt_loop clk serve send dl (k # ks)) = outcome (serve k) \<and>
          \<not> (retryable_answer (serve k) \<and> k < 5) \<and> (clk (After k) < dl \<or> (\<exists>e. serve k = Inl e))) \<or>
       (\<exists>m. snd (attempt_loop clk serve send dl (k # ks)) = Inl (TimeoutError m)) \<or>
       (\<exists>r e. serve k = Inr r \<and> retry_seconds r = Inl e \<and>
          snd (attempt_loop clk serve send dl (k # ks)) = Inl e)"
  | (again) r s where "serve k = Inr r" "safe_to_retry r" "k < 5" "retry_seconds r = Inr s"
      "clk (Before k) < dl" "clk (After k) < dl" "of_int s < dl - clk (Backoff k)"
      "attempt_loop clk serve send dl (k # ks) =
         then_run [send (min 30 (dl - clk (Before k))), Say s, Sleep s] (attempt_loop clk serve send dl ks)"
proof -
  consider "dl \<le> clk (Before k)" | e where "clk (Before k) < dl" "serve k = Inl e"
    | r where "clk (Before k) < dl" "serve k = Inr r" by (cases "serve k") force+
  then show thesis
  proof cases
    case 1
    then show thesis by (intro that(1)) simp_all
  next
    case 2
    then show thesis by (intro that(2)) (simp_all add: retryable_answer_def outcome_simps)
  next
    case 3
    show thesis
    proof (cases "clk (After k) < dl \<and> safe_to_retry r \<and> k < 5 \<and>
        (\<exists>s. retry_seconds r = Inr s \<and> of_int s < dl - clk (Backoff k))")
      case True
      then obtain s where "clk (After k) < dl" "safe_to_retry r" "k < 5" "retry_seconds r = Inr s"
        "of_int s < dl - clk (Backoff k)" by blast
      with 3 show thesis by (intro that(3) [of r s]) simp_all
    next
      case False
      with 3 show thesis
        by (intro that(2); cases "retry_seconds r")
           (auto simp: Let_def not_less retryable_answer_def outcome_simps)
    qed
  qed
qed

declare attempt_loop.simps(2) [simp del]

lemma attempt_loop_log:
  assumes send: "\<And>t. is_send (send t)"
  shows "sends (fst (attempt_loop clk serve send dl ks)) \<le> length ks \<and>
    (\<forall>i. i + 1 < sends (fst (attempt_loop clk serve send dl ks)) \<longrightarrow>
       retryable_answer (serve (ks ! i)))"
proof (induction ks)
  case (Cons k ks)
  show ?case
  proof (cases rule: attempt_loop_Cons [of clk serve send dl k ks])
    case (again r s)
    with send Cons show ?thesis
      by (auto simp: nth_Cons retryable_answer_def  split: nat.splits)
  qed (use send in \<open>simp_all\<close>)
qed simp

definition execute_log ::
  "(nat \<Rightarrow> response result) \<Rightarrow> json option result run \<Rightarrow> response result list" where
  "execute_log serve r = map serve [1..<Suc (sends (fst r))]"

definition is_execute_log :: "response result list \<Rightarrow> bool" where
  "is_execute_log xs \<longleftrightarrow> (\<exists>cs validate clk serve B base op params timeout.
     xs = execute_log serve (execute cs validate clk serve B base op params timeout))"

lemma execute_sends:
  "sends (fst (execute cs validate clk serve B base op params timeout)) \<le> 5 \<and>
   (\<forall>i. i + 1 < sends (fst (execute cs validate clk serve B base op params timeout)) \<longrightarrow>
      retryable_answer (serve (i + 1)))"
proof -
  let ?send = "Send (str_field op ''method'') (url_for B base (str_field op ''path'')) params"
  let ?dl = "clk Begin + timeout"
  have log: "sends (fst (attempt_loop clk serve ?send ?dl [1,2,3,4,5])) \<le> length [1::nat,2,3,4,5] \<and>
    (\<forall>i. i + 1 < sends (fst (attempt_loop clk serve ?send ?dl [1,2,3,4,5])) \<longrightarrow>
      retryable_answer (serve ([1,2,3,4,5] ! i)))"
    by (rule attempt_loop_log) simp
  have "[1,2,3,4,5] ! i = i + 1" if "i < 5" for i :: nat
    using that by (auto simp: less_Suc_eq numeral_eq_Suc)
  with log show ?thesis
    by (auto simp: execute_def  split: sum.splits option.splits)
qed

interpretation exec: bounded_retry is_execute_log retryable_answer 5
proof unfold_locales
  fix xs assume "is_execute_log xs"
  then show "length xs \<le> 5" using execute_sends by (auto simp: is_execute_log_def execute_log_def)
next
  fix xs i assume "is_execute_log xs" "i + 1 < length xs"
  then obtain cs validate clk serve B base op params timeout where
    xs: "xs = map serve [1..<Suc (sends (fst (execute cs validate clk serve B base op params timeout)))]"
    by (auto simp: is_execute_log_def execute_log_def simp del: upt_Suc)
  moreover have "i + 1 < sends (fst (execute cs validate clk serve B base op params timeout))"
    using \<open>i + 1 < length xs\<close> by (simp add: xs del: upt_Suc)
  moreover from this have "xs ! i = serve (i + 1)" by (simp add: xs nth_append del: upt_Suc)
  ultimately show "retryable_answer (xs ! i)" using execute_sends by simp
qed

subsection \<open>The properties of a run\<close>

text \<open>
  Claim C6. \<open>execute\<close> never repeats an unknown outcome: it sends at most five requests, every
  answer before the last one is a rejection that is safe to retry, and at most one answer of
  the whole run is anything else.
\<close>

theorem execute_no_replay:
  "length (execute_log serve (execute cs validate clk serve B base op params timeout)) \<le> 5 \<and>
   list_all retryable_answer (butlast (execute_log serve (execute cs validate clk serve B base op params timeout))) \<and>
   length (filter (\<lambda>a. \<not> retryable_answer a)
     (execute_log serve (execute cs validate clk serve B base op params timeout))) \<le> 1"
proof -
  have "is_execute_log (execute_log serve (execute cs validate clk serve B base op params timeout))"
    unfolding is_execute_log_def by blast
  then show ?thesis
    using exec.log_bounded exec.butlast_retryable exec.one_decisive by blast
qed

text \<open>The abstract rule: the first answer that is not retryable decides, or else the last attempt.\<close>

fun decisive :: "(nat \<Rightarrow> response result) \<Rightarrow> nat list \<Rightarrow> nat" where
  "decisive serve [] = 0"
| "decisive serve [k] = k"
| "decisive serve (k # k' # ks) =
     (if retryable_answer (serve k) then decisive serve (k' # ks) else k)"

lemma attempt_loop_decisive:
  assumes send: "\<And>t. is_send (send t)" and "sorted_wrt (<) ks" "ks \<noteq> []" "last ks = 5"
  shows "snd (attempt_loop clk serve send dl ks) = outcome (serve (decisive serve ks)) \<or>
    (\<exists>m. snd (attempt_loop clk serve send dl ks) = Inl (TimeoutError m)) \<or>
    (\<exists>k r e. serve k = Inr r \<and> retry_seconds r = Inl e \<and> snd (attempt_loop clk serve send dl ks) = Inl e)"
  using assms(2-)
proof (induction ks)
  case (Cons k ks)
  have k: "k < 5 \<longleftrightarrow> ks \<noteq> []"
    using Cons.prems by (cases ks rule: rev_cases) auto
  have d: "decisive serve (k # ks) = (if ks \<noteq> [] \<and> retryable_answer (serve k) then decisive serve ks else k)"
    by (cases ks) auto
  show ?case
  proof (cases rule: attempt_loop_Cons [of clk serve send dl k ks])
    case late
    then show ?thesis by blast
  next
    case last
    then show ?thesis using k d by auto
  next
    case (again r s)
    then have ks: "ks \<noteq> []" and "retryable_answer (serve k)" using k by (auto simp: retryable_answer_def)
    then have "decisive serve (k # ks) = decisive serve ks" using d by simp
    then show ?thesis using Cons again(8) ks by simp
  qed
qed simp


definition ok_response :: response where
  "ok_response = \<lparr>status_code = 200, resp_json = Some (JInt 7), retry_after = None\<rparr>"

definition busy_response :: response where
  "busy_response = \<lparr>status_code = 429, resp_json = None, retry_after = Some ''2''\<rparr>"

definition sample_serve :: "nat \<Rightarrow> response result" where
  "sample_serve k = (if k = 1 then Inr busy_response else Inr ok_response)"

fun sample_clock :: "moment \<Rightarrow> rat" where
  "sample_clock Begin = 0"
| "sample_clock (Before k) = 2 * of_nat k"
| "sample_clock (After k) = 2 * of_nat k"
| "sample_clock (Backoff k) = 2 * of_nat k"


text \<open>What a returned value says about the run.\<close>

lemma attempt_loop_value:
  assumes send: "\<And>t. is_send (send t)" and "sorted_wrt (<) ks" "ks \<noteq> []" "last ks = 5"
    and "snd (attempt_loop clk serve send dl ks) = Inr w"
  shows "\<exists>r v. 0 < sends (fst (attempt_loop clk serve send dl ks)) \<and>
    sends (fst (attempt_loop clk serve send dl ks)) \<le> length ks \<and>
    serve (ks ! (sends (fst (attempt_loop clk serve send dl ks)) - 1)) = Inr r \<and> is_success r \<and>
    resp_json r = Some v \<and> w = Some v \<and>
    clk (After (ks ! (sends (fst (attempt_loop clk serve send dl ks)) - 1))) < dl"
  using assms(2-)
proof (induction ks)
  case (Cons k ks)
  have k: "k < 5 \<longleftrightarrow> ks \<noteq> []"
    using Cons.prems by (cases ks rule: rev_cases) auto
  show ?case
  proof (cases rule: attempt_loop_Cons [of clk serve send dl k ks])
    case late
    with Cons.prems show ?thesis by simp
  next
    case last
    with Cons.prems(4) have o: "outcome (serve k) = Inr w" "clk (After k) < dl \<or> (\<exists>e. serve k = Inl e)"
      by auto
    then obtain v r where "serve k = Inr r" "is_success r" "resp_json r = Some v" "w = Some v"
      using outcome_not_None [of "serve k"] outcome_Some [of "serve k"] by (cases w) auto
    with o last(1) send show ?thesis by simp
  next
    case (again r s)
    with Cons.prems have "ks \<noteq> []" "snd (attempt_loop clk serve send dl ks) = Inr w" using k by auto
    with Cons obtain r' v where
      "0 < sends (fst (attempt_loop clk serve send dl ks))"
      "sends (fst (attempt_loop clk serve send dl ks)) \<le> length ks"
      "serve (ks ! (sends (fst (attempt_loop clk serve send dl ks)) - 1)) = Inr r'" "is_success r'"
      "resp_json r' = Some v" "w = Some v"
      "clk (After (ks ! (sends (fst (attempt_loop clk serve send dl ks)) - 1))) < dl" by auto
    then show ?thesis using send by (auto simp: again(8) nth_Cons split: nat.splits)
  qed
qed simp

text \<open>
  A value is returned only for a timely success: \<open>execute\<close> never falls off the end of
  its loop, and when it returns \<open>v\<close>, the last of its one to five requests was answered, before
  the deadline, with a 2xx response whose JSON body is \<open>v\<close>.
\<close>

theorem execute_timely_success:
  assumes "snd (execute cs validate clk serve B base op params timeout) = Inr w"
  shows "\<exists>k r v. w = Some v \<and> 1 \<le> k \<and> k \<le> 5 \<and>
    k = sends (fst (execute cs validate clk serve B base op params timeout)) \<and>
    serve k = Inr r \<and> is_success r \<and> resp_json r = Some v \<and> clk (After k) < clk Begin + timeout"
proof -
  let ?send = "Send (str_field op ''method'') (url_for B base (str_field op ''path'')) params"
  let ?loop = "attempt_loop clk serve ?send (clk Begin + timeout) [1, 2, 3, 4, 5]"
  have e: "execute cs validate clk serve B base op params timeout = ?loop"
    using assms by (auto simp: execute_def  split: sum.splits option.splits)
  have nth: "[1, 2, 3, 4, 5] ! (n - 1) = n" if "0 < n" "n \<le> 5" for n :: nat
    using that by (auto simp: le_Suc_eq numeral_eq_Suc)
  from assms show ?thesis unfolding e
    using attempt_loop_value [of ?send "[1, 2, 3, 4, 5]" clk serve "clk Begin + timeout" w]
      nth [of "sends (fst ?loop)"]
    by (auto  simp: Suc_le_eq)
qed

theorem execute_timely_success_witness:
  "\<exists>k r. 1 \<le> k \<and> k \<le> 5 \<and> sample_serve k = Inr r \<and> is_success r \<and> resp_json r = Some (JInt 7)"
proof -
  have "snd (execute (\<lambda>_. None) (\<lambda>_ _. None) sample_clock sample_serve [] None sample_operation JNull 120) =
      Inr (Some (JInt 7))" by code_simp
  from execute_timely_success [OF this] show ?thesis by auto
qed

lemma attempt_loop_sends:
  assumes send: "\<And>t. is_send (send t)"
  shows "a \<in> set (fst (attempt_loop clk serve send dl ks)) \<Longrightarrow> is_send a \<Longrightarrow>
    \<exists>t. a = send t \<and> 0 < t \<and> t \<le> 30"
proof (induction ks)
  case (Cons k ks)
  show ?case
  proof (cases rule: attempt_loop_Cons [of clk serve send dl k ks])
    case late
    with Cons.prems show ?thesis by simp
  next
    case last
    with Cons.prems show ?thesis by (auto intro!: exI [where x = "min 30 (dl - clk (Before k))"])
  next
    case (again r s)
    with Cons.prems consider "a = send (min 30 (dl - clk (Before k)))"
      | "a \<in> set (fst (attempt_loop clk serve send dl ks))" by auto
    then show ?thesis
    proof cases
      case 1
      with again(5) show ?thesis by (auto intro!: exI [where x = "min 30 (dl - clk (Before k))"])
    next
      case 2
      with Cons show ?thesis by blast
    qed
  qed
qed simp

text \<open>
  Every request \<open>execute\<close> sends on an accepted origin is a POST with the caller's
  parameters and a positive I/O timeout of at most thirty seconds, and its URL keeps the scheme
  and the network location of that origin.
\<close>

theorem execute_requests:
  assumes ok: "validate_origin bk raw = Inr b" and u: "urlsplit bk raw = Inr u"
    and send: "Send m url p t \<in> set (fst (execute cs validate clk serve B (Some b) op params timeout))"
  shows "m = ''POST'' \<and> p = params \<and> 0 < t \<and> t \<le> 30 \<and>
    (\<exists>u'. urlsplit bk url = Inr u' \<and> scheme u' = scheme u \<and> netloc u' = netloc u)"
proof -
  have v: "validate_operation cs op = Inr ()"
    using send by (cases "validate_operation cs op") (auto simp: execute_def)
  have "str_field op ''method'' = ''POST''"
    using v by (auto simp: validate_operation_Inr_iff str_field_def field_def)
  moreover have "\<exists>t'. Send m url p t = Send (str_field op ''method'')
      (url_for B (Some b) (str_field op ''path'')) params t' \<and> 0 < t' \<and> t' \<le> 30"
    using send by (intro attempt_loop_sends)
      (auto simp: execute_def split: sum.splits option.splits)
  ultimately show ?thesis using operation_on_origin [OF v ok u] by auto
qed

theorem execute_requests_witness:
  "\<exists>u'. urlsplit (\<lambda>_. True) ''http://h:3000/product'' = Inr u' \<and> netloc u' = ''h:3000''"
proof -
  let ?u = "\<lparr>scheme = ''http'', netloc = ''h:3000'', upath = ''/'', uquery = [], ufragment = []\<rparr>"
  have b: "validate_origin (\<lambda>_. True) ''http://h:3000/'' = Inr ''http://h:3000''" by code_simp
  have c: "urlsplit (\<lambda>_. True) ''http://h:3000/'' = Inr ?u" by code_simp
  have s: "Send ''POST'' ''http://h:3000/product'' JNull 30 \<in> set (fst (execute (\<lambda>_. None) (\<lambda>_ _. None)
      sample_clock sample_serve [] (Some ''http://h:3000'') sample_operation JNull 120))" by code_simp
  show ?thesis using execute_requests [OF b c s] by auto
qed

subsection \<open>Waiting\<close>

lemma retry_seconds_nonneg: "retry_seconds r = Inr s \<Longrightarrow> 0 \<le> s"
  by (auto simp: retry_seconds_def Let_def py_int_digits_def split: if_splits)

text \<open>
  Claim C39. The backoff is a non-negative whole number of seconds: the decimal value of a
  stripped \<^verbatim>\<open>Retry-After\<close> header of ASCII digits, and one second when the header is missing or
  malformed. The one exception: a header of more than 4300 digits makes the conversion raise
  \<^verbatim>\<open>ValueError\<close>, which neither client catches.
\<close>

theorem retry_seconds_spec:
  "let raw = py_strip (case retry_after r of Some h \<Rightarrow> h | None \<Rightarrow> ''1'');
       digits = (raw \<noteq> [] \<and> (\<forall>c \<in> set raw. is_digit c))
   in (digits \<and> length raw \<le> 4300 \<longrightarrow> retry_seconds r = Inr (int (digits_val raw))) \<and>
      (\<not> digits \<longrightarrow> retry_seconds r = Inr 1) \<and>
      (digits \<and> 4300 < length raw \<longrightarrow> (\<exists>m. retry_seconds r = Inl (ValueError m)))"
proof -
  have "(of_char c :: nat) < 128 \<and> (is_digit c \<or> (of_char c :: nat) \<in> {178, 179, 185}) \<longleftrightarrow> is_digit c" for c
    by (auto simp: char_in_def)
  then have "py_isascii raw \<and> py_isdigit raw \<longleftrightarrow> raw \<noteq> [] \<and> (\<forall>c \<in> set raw. is_digit c)" for raw
    unfolding py_isascii_def py_isdigit_def list_all_iff by blast
  then show ?thesis
    by (simp add: retry_seconds_def py_int_digits_def int_max_str_digits_def Let_def)
qed

theorem retry_seconds_spec_witness:
  "retry_seconds busy_response = Inr 2 \<and> retry_seconds ok_response = Inr 1"
proof -
  have "py_strip ''2'' = ''2''" "py_strip ''1'' = ''1''" "digits_val ''2'' = 2" "digits_val ''1'' = 1" by code_simp+
  moreover have "is_digit CHR ''2''" "is_digit CHR ''1''" by code_simp+
  ultimately show ?thesis
    using retry_seconds_spec [of busy_response] retry_seconds_spec [of ok_response]
    by (simp add: busy_response_def ok_response_def Let_def)
qed

text \<open>
  The clock of a run: readings do not go backwards, and after a sleep of \<open>s\<close> seconds the next
  reading is at least \<open>s\<close> later.
\<close>

definition clock_ok :: "(moment \<Rightarrow> rat) \<Rightarrow> (nat \<Rightarrow> response result) \<Rightarrow> bool" where
  "clock_ok clk serve \<longleftrightarrow> clk Begin \<le> clk (Before 1) \<and>
     (\<forall>k. clk (Before k) \<le> clk (After k) \<and> clk (After k) \<le> clk (Backoff k)) \<and>
     (\<forall>k r s. serve k = Inr r \<longrightarrow> retry_seconds r = Inr s \<longrightarrow>
        clk (Backoff k) + of_int s \<le> clk (Before (Suc k)))"

definition total_sleep :: "action list \<Rightarrow> int" where
  "total_sleep acts = sum_list (map slept acts)"

lemma attempt_loop_sleep:
  assumes clk: "clock_ok clk serve" and send: "\<And>t. is_send (send t)"
  shows "of_int (total_sleep (fst (attempt_loop clk serve send dl [k..<n]))) \<le> max 0 (dl - clk (Before k))"
proof (induction "n - k" arbitrary: k)
  case 0
  then show ?case by (simp add: total_sleep_def)
next
  case (Suc m)
  then have kn: "[k..<n] = k # [Suc k..<n]" by (simp add: upt_rec)
  have s0: "slept (send t) = 0" for t using send [of t] by (cases "send t") auto
  show ?case
    unfolding kn
  proof (cases rule: attempt_loop_Cons [of clk serve send dl k "[Suc k..<n]"])
    case (again r s)
    have "m = n - Suc k" using Suc.hyps(2) by simp
    note IH = Suc.hyps(1) [OF this]
    have "clk (Before k) \<le> clk (Backoff k)" "clk (Backoff k) + of_int s \<le> clk (Before (Suc k))"
      using clk again(1,4) unfolding clock_ok_def by (blast intro: order_trans)+
    with IH again(7) retry_seconds_nonneg [OF again(4)]
    show "of_int (total_sleep (fst (attempt_loop clk serve send dl (k # [Suc k..<n])))) \<le> max 0 (dl - clk (Before k))"
      unfolding again(8) by (auto simp: total_sleep_def s0 max_def split: if_splits)
  qed (auto simp: total_sleep_def s0 )
qed

text \<open>
  The sleeps of one run never add up to more than the task timeout, whatever the
  service asks for.
\<close>

theorem execute_sleep_bound:
  assumes "clock_ok clk serve" and "0 \<le> timeout"
  shows "of_int (total_sleep (fst (execute cs validate clk serve B base op params timeout))) \<le> timeout"
proof -
  have five: "[1, 2, 3, 4, 5] = [1..<6::nat]" by (simp add: upt_rec)
  have "clk Begin \<le> clk (Before 1)" using assms(1) by (simp add: clock_ok_def)
  then have "of_int (total_sleep (fst (attempt_loop clk serve
      (Send (str_field op ''method'') (url_for B base (str_field op ''path'')) params)
      (clk Begin + timeout) [1, 2, 3, 4, 5]))) \<le> timeout"
    unfolding five
    using attempt_loop_sleep [OF assms(1), of "Send (str_field op ''method'')
        (url_for B base (str_field op ''path'')) params" "clk Begin + timeout" 1 6] assms(2)
    by (auto simp: max_def  upt_rec_numeral split: if_splits)
  with assms(2) show ?thesis
    by (auto simp: execute_def total_sleep_def  split: sum.splits option.splits)
qed

theorem execute_sleep_bound_witness:
  "total_sleep (fst (execute (\<lambda>_. None) (\<lambda>_ _. None) sample_clock sample_serve [] None sample_operation JNull 120)) = 2 \<and>
   of_int (total_sleep (fst (execute (\<lambda>_. None) (\<lambda>_ _. None) sample_clock sample_serve [] None
     sample_operation JNull 120))) \<le> (120 :: rat)"
proof -
  have r: "retry_seconds busy_response = Inr 2" "retry_seconds ok_response = Inr 1" by code_simp+
  have t: "total_sleep (fst (execute (\<lambda>_. None) (\<lambda>_ _. None) sample_clock sample_serve [] None sample_operation JNull 120)) = 2"
    by code_simp
  have "clock_ok sample_clock sample_serve"
    using r by (auto simp: clock_ok_def sample_serve_def split: if_splits)
  from execute_sleep_bound [OF this, of 120] t show ?thesis by simp
qed

end
