(* ===== verification/Policy.thy ===== *)
theory Policy
  imports Protocol
begin

text \<open>
  \<open>validate_policy\<close> of \<^verbatim>\<open>python/ai_protocol/client.py\<close>: the contract of the adaptive version 3
  policy, and its continuity with the policy the client already holds. A policy is the dict
  the gateway sent; the copy the client keeps is that value.
\<close>

type_synonym policy = "(string, json) dict"

definition int_where :: "(int \<Rightarrow> bool) \<Rightarrow> json \<Rightarrow> bool" where
  "int_where ok v = (case as_int v of Some n \<Rightarrow> ok n | None \<Rightarrow> False)"

lemma int_where_iff: "int_where ok v \<longleftrightarrow> (\<exists>n. v = JInt n \<and> ok n)"
  by (cases v) (auto simp: int_where_def)

text \<open>The guard of \<open>validate_policy\<close>: whether the policy is refused before its operations are read.\<close>

definition policy_refused :: "policy \<Rightarrow> bool" where
  "policy_refused policy \<longleftrightarrow>
     as_int (get policy ''version'') \<noteq> Some 3
     \<or> \<not> nonempty_str (get policy ''principal_id'')
     \<or> \<not> (py_eq (get policy ''client_class'') (JStr ''agent'')
          \<or> py_eq (get policy ''client_class'') (JStr ''interactive''))
     \<or> (case as_dict (get_or policy ''limits'' (JDict [])) of
          None \<Rightarrow> True
        | Some limits \<Rightarrow> \<not> py_eq (get limits ''scope'') (JStr ''principal'')
            \<or> \<not> int_where (\<lambda>n. 1 \<le> n \<and> n \<le> 1000) (get limits ''max_outstanding''))
     \<or> \<not> int_where (\<lambda>n. 1 \<le> n) (get policy ''policy_revision'')
     \<or> \<not> int_where (\<lambda>n. 100 \<le> n \<and> n \<le> 60000) (get policy ''refresh_after_ms'')
     \<or> \<not> int_where (\<lambda>n. 0 \<le> n) (get policy ''outstanding'')
     \<or> as_list (get policy ''operations'') = None
     \<or> (case dget policy ''service_id'' of None \<Rightarrow> False | Some v \<Rightarrow> \<not> nonempty_str v)"

fun scan_descriptors :: "schema_check \<Rightarrow> string list \<Rightarrow> json list \<Rightarrow> unit result" where
  "scan_descriptors check_schema names [] = Inr ()"
| "scan_descriptors check_schema names (operation # ops) =
     (case validate_operation check_schema operation of
        Inl e \<Rightarrow> if is_value_error e \<or> e = SchemaError
                 then Inl (ProtocolError ''Invalid operation descriptor'') else Inl e
      | Inr _ \<Rightarrow>
          if str_field operation ''name'' \<in> set names
          then Inl (ProtocolError ''Duplicate operation name'')
          else scan_descriptors check_schema (str_field operation ''name'' # names) ops)"

definition operations_of :: "policy \<Rightarrow> json list" where
  "operations_of policy = (case as_list (get policy ''operations'') of Some ops \<Rightarrow> ops | None \<Rightarrow> [])"

definition int_of :: "json \<Rightarrow> int" where
  "int_of v = (case as_int v of Some n \<Rightarrow> n | None \<Rightarrow> 0)"

definition limit_of :: "policy \<Rightarrow> int" where
  "limit_of policy = int_of (field (get policy ''limits'') ''max_outstanding'')"

definition revision_of :: "policy \<Rightarrow> int" where
  "revision_of policy = int_of (get policy ''policy_revision'')"

definition refresh_ms :: "policy \<Rightarrow> int" where
  "refresh_ms policy = int_of (get policy ''refresh_after_ms'')"

definition discontinuous :: "policy \<Rightarrow> policy \<Rightarrow> bool" where
  "discontinuous previous policy \<longleftrightarrow>
     list_ex (\<lambda>key. \<not> py_eq (get policy key) (get previous key)) [''principal_id'', ''client_class'', ''service_id'']
     \<or> revision_of policy < revision_of previous
     \<or> revision_of policy = revision_of previous \<and> limit_of policy \<noteq> limit_of previous"

definition validate_policy :: "schema_check \<Rightarrow> json \<Rightarrow> policy option \<Rightarrow> policy result" where
  "validate_policy check_schema policy previous =
     (case as_dict policy of
        None \<Rightarrow> Inl (ProtocolError ''Invalid policy object'')
      | Some p \<Rightarrow>
          if policy_refused p then Inl (ProtocolError ''Invalid or unsupported adaptive policy'')
          else rbind (scan_descriptors check_schema [] (operations_of p)) (\<lambda>_.
            if (case previous of None \<Rightarrow> False | Some q \<Rightarrow> q \<noteq> [] \<and> discontinuous q p)
            then Inl (ProtocolError ''Policy identity or revision changed inconsistently'')
            else Inr p))"

subsection \<open>The contract\<close>

text \<open>What an accepted policy is.\<close>

definition adaptive_policy :: "schema_check \<Rightarrow> policy \<Rightarrow> bool" where
  "adaptive_policy check_schema p \<longleftrightarrow>
     get p ''version'' = JInt 3 \<and>
     (\<exists>s. s \<noteq> [] \<and> get p ''principal_id'' = JStr s) \<and>
     (get p ''client_class'' = JStr ''agent'' \<or> get p ''client_class'' = JStr ''interactive'') \<and>
     (\<exists>l n. get p ''limits'' = JDict l \<and> get l ''scope'' = JStr ''principal'' \<and>
        get l ''max_outstanding'' = JInt n \<and> 1 \<le> n \<and> n \<le> 1000) \<and>
     (\<exists>n. get p ''policy_revision'' = JInt n \<and> 1 \<le> n) \<and>
     (\<exists>n. get p ''refresh_after_ms'' = JInt n \<and> 100 \<le> n \<and> n \<le> 60000) \<and>
     (\<exists>n. get p ''outstanding'' = JInt n \<and> 0 \<le> n) \<and>
     (\<exists>ops. get p ''operations'' = JList ops \<and> (\<forall>v \<in> set ops. valid_operation check_schema v) \<and>
        distinct (map (\<lambda>v. str_field v ''name'') ops)) \<and>
     (dget p ''service_id'' = None \<or> (\<exists>s. s \<noteq> [] \<and> dget p ''service_id'' = Some (JStr s)))"

text \<open>The identity of the gateway a policy speaks for.\<close>

definition identity_of :: "policy \<Rightarrow> json list" where
  "identity_of p = map (get p) [''principal_id'', ''client_class'', ''service_id'']"

definition continues :: "policy \<Rightarrow> policy \<Rightarrow> bool" where
  "continues q p \<longleftrightarrow> identity_of p = identity_of q \<and> revision_of q \<le> revision_of p \<and>
     (revision_of p = revision_of q \<longrightarrow> limit_of p = limit_of q)"

lemma scan_descriptors_Inr_iff:
  "scan_descriptors check_schema names ops = Inr () \<longleftrightarrow> scan_operations check_schema names ops = Inr ()"
  by (induction names ops rule: scan_descriptors.induct [of _ check_schema])
     (auto simp: result_simps split: sum.splits)

lemma scan_descriptors_error:
  "scan_descriptors check_schema names ops = Inl e \<Longrightarrow>
     (\<exists>m. e = ProtocolError m) \<or> (\<exists>s. check_schema s = Some e)"
  by (induction names ops rule: scan_descriptors.induct [of _ check_schema])
     (auto dest: validate_operation_error split: sum.splits if_splits)

lemma limits_default:
  "as_dict (get_or p ''limits'' (JDict [])) = Some l \<and> get l ''scope'' = JStr ''principal'' \<longleftrightarrow>
     get p ''limits'' = JDict l \<and> get l ''scope'' = JStr ''principal''"
  by (auto simp: get_or_def get_def split: option.splits)

lemma limits_ok_iff:
  "\<not> (case as_dict (get_or p ''limits'' (JDict [])) of
          None \<Rightarrow> True
        | Some l \<Rightarrow> \<not> py_eq (get l ''scope'') (JStr ''principal'') \<or> \<not> int_where ok (get l ''max_outstanding''))
   \<longleftrightarrow> (\<exists>l n. get p ''limits'' = JDict l \<and> get l ''scope'' = JStr ''principal'' \<and>
        get l ''max_outstanding'' = JInt n \<and> ok n)"
proof -
  have w: "\<not> (case as_dict w of None \<Rightarrow> True
        | Some l \<Rightarrow> \<not> py_eq (get l ''scope'') (JStr ''principal'') \<or> \<not> int_where ok (get l ''max_outstanding''))
    \<longleftrightarrow> (\<exists>l. (as_dict w = Some l \<and> get l ''scope'' = JStr ''principal'') \<and>
           int_where ok (get l ''max_outstanding''))" for w
    by (auto split: option.splits)
  show ?thesis unfolding w unfolding limits_default int_where_iff by simp
qed

lemma service_ok_iff:
  "\<not> (case dget p ''service_id'' of None \<Rightarrow> False | Some v \<Rightarrow> \<not> nonempty_str v) \<longleftrightarrow>
     dget p ''service_id'' = None \<or> (\<exists>s. s \<noteq> [] \<and> dget p ''service_id'' = Some (JStr s))"
  by (auto simp: nonempty_str_iff split: option.splits)

lemma accepted_iff:
  "\<not> policy_refused p \<and> scan_descriptors check_schema [] (operations_of p) = Inr () \<longleftrightarrow>
     adaptive_policy check_schema p"
proof -
  have "\<not> policy_refused p \<longleftrightarrow>
     get p ''version'' = JInt 3 \<and> (\<exists>s. s \<noteq> [] \<and> get p ''principal_id'' = JStr s) \<and>
     (get p ''client_class'' = JStr ''agent'' \<or> get p ''client_class'' = JStr ''interactive'') \<and>
     (\<exists>l n. get p ''limits'' = JDict l \<and> get l ''scope'' = JStr ''principal'' \<and>
        get l ''max_outstanding'' = JInt n \<and> 1 \<le> n \<and> n \<le> 1000) \<and>
     (\<exists>n. get p ''policy_revision'' = JInt n \<and> 1 \<le> n) \<and>
     (\<exists>n. get p ''refresh_after_ms'' = JInt n \<and> 100 \<le> n \<and> n \<le> 60000) \<and>
     (\<exists>n. get p ''outstanding'' = JInt n \<and> 0 \<le> n) \<and>
     (\<exists>ops. get p ''operations'' = JList ops) \<and>
     (dget p ''service_id'' = None \<or> (\<exists>s. s \<noteq> [] \<and> dget p ''service_id'' = Some (JStr s)))"
    unfolding policy_refused_def de_Morgan_disj limits_ok_iff service_ok_iff not_not
    by (simp add: nonempty_str_iff int_where_iff conj_commute)
  moreover have "scan_descriptors check_schema [] (operations_of p) = Inr () \<longleftrightarrow>
      (\<forall>v \<in> set ops. valid_operation check_schema v) \<and> distinct (map (\<lambda>v. str_field v ''name'') ops)"
    if "get p ''operations'' = JList ops" for ops
    using that by (simp add: operations_of_def scan_descriptors_Inr_iff scan_operations_Inr_iff list_all_iff)
  ultimately show ?thesis unfolding adaptive_policy_def by auto
qed

lemma adaptive_identity_eq:
  assumes "adaptive_policy cs p"
  shows "list_ex (\<lambda>key. \<not> py_eq (get p key) (get q key)) [''principal_id'', ''client_class'', ''service_id''] \<longleftrightarrow>
     identity_of p \<noteq> identity_of q"
proof -
  have str: "py_eq (JStr s) w \<longleftrightarrow> JStr s = w" and nul: "py_eq JNull w \<longleftrightarrow> JNull = w" for s w by auto
  obtain s where s: "get p ''principal_id'' = JStr s" using assms by (auto simp: adaptive_policy_def)
  obtain c where c: "get p ''client_class'' = JStr c" using assms by (auto simp: adaptive_policy_def)
  have v: "get p ''service_id'' = JNull \<or> (\<exists>t. get p ''service_id'' = JStr t)"
    using assms by (auto simp: adaptive_policy_def get_def)
  then have "py_eq (get p ''service_id'') w \<longleftrightarrow> get p ''service_id'' = w" for w
    by (elim disjE exE) (simp_all only: str nul)
  moreover have "py_eq (get p ''principal_id'') w \<longleftrightarrow> get p ''principal_id'' = w" for w by (simp only: s str)
  moreover have "py_eq (get p ''client_class'') w \<longleftrightarrow> get p ''client_class'' = w" for w by (simp only: c str)
  ultimately show ?thesis by (simp add: identity_of_def)
qed

lemma validate_policy_Inr_iff:
  "validate_policy check_schema v previous = Inr p \<longleftrightarrow>
     v = JDict p \<and> adaptive_policy check_schema p \<and>
     (case previous of None \<Rightarrow> True | Some q \<Rightarrow> q = [] \<or> continues q p)"
proof -
  have "validate_policy check_schema v previous = Inr p \<longleftrightarrow>
     v = JDict p \<and> (\<not> policy_refused p \<and> scan_descriptors check_schema [] (operations_of p) = Inr ()) \<and>
     (case previous of None \<Rightarrow> True | Some q \<Rightarrow> q = [] \<or> \<not> discontinuous q p)"
    by (auto simp: validate_policy_def result_simps split: option.splits)
  moreover have "\<not> discontinuous q p \<longleftrightarrow> continues q p" if "adaptive_policy check_schema p" for q
    unfolding discontinuous_def continues_def adaptive_identity_eq [OF that] by auto
  ultimately show ?thesis unfolding accepted_iff by (auto split: option.splits)
qed


definition sample_policy :: "int \<Rightarrow> int \<Rightarrow> policy" where
  "sample_policy revision limit =
     [(''version'', JInt 3), (''principal_id'', JStr ''agent-1''), (''client_class'', JStr ''agent''),
      (''limits'', JDict [(''scope'', JStr ''principal''), (''max_outstanding'', JInt limit)]),
      (''policy_revision'', JInt revision), (''refresh_after_ms'', JInt 1000), (''outstanding'', JInt 0),
      (''operations'', JList [sample_operation])]"


subsection \<open>Histories of accepted policies\<close>

text \<open>Policies accepted one after the other, each against the one before.\<close>

fun policy_chain :: "schema_check \<Rightarrow> policy list \<Rightarrow> bool" where
  "policy_chain check_schema [] = True"
| "policy_chain check_schema [p] = (validate_policy check_schema (JDict p) None = Inr p)"
| "policy_chain check_schema (p # q # ps) =
     (validate_policy check_schema (JDict p) (Some q) = Inr p \<and> policy_chain check_schema (q # ps))"

text \<open>\<open>policy_chain\<close> lists the newest policy first, as a client log grows.\<close>

lemma adaptive_nonempty: "adaptive_policy cs p \<Longrightarrow> p \<noteq> []"
  by (auto simp: adaptive_policy_def get_def)

lemma continues_trans: "continues a b \<Longrightarrow> continues b c \<Longrightarrow> continues a c"
  by (auto simp: continues_def)

lemma policy_chain_adaptive: "policy_chain cs ps \<Longrightarrow> p \<in> set ps \<Longrightarrow> adaptive_policy cs p"
  by (induction cs ps rule: policy_chain.induct) (auto simp: validate_policy_Inr_iff)

lemma policy_chain_continues: "policy_chain cs (p # ps) \<Longrightarrow> q \<in> set ps \<Longrightarrow> continues q p"
proof (induction ps arbitrary: p)
  case (Cons r ps)
  then have "continues r p"
    using policy_chain_adaptive [of cs "r # ps" r] adaptive_nonempty [of cs r]
    by (auto simp: validate_policy_Inr_iff)
  with Cons show ?case by (auto intro: continues_trans)
qed simp

lemma policy_chain_tl: "policy_chain cs (p # ps) \<Longrightarrow> policy_chain cs ps"
  by (cases ps) auto

lemma policy_chain_pair:
  "policy_chain cs (newer @ p # mid @ q # older) \<Longrightarrow> continues q p"
  by (induction newer) (auto dest: policy_chain_tl policy_chain_continues)

text \<open>
  Over any number of refreshes a client talks to one gateway: of two policies of an
  accepted history the later one has the identity of the earlier, no older revision, and, under
  the same revision, the same limit; so within the history the limit is a function of the
  revision even when other revisions lie between.
\<close>

theorem policy_history_coherent:
  assumes "policy_chain cs (newer @ p # mid @ q # older)"
  shows "identity_of p = identity_of q \<and> revision_of q \<le> revision_of p \<and>
    (revision_of p = revision_of q \<longrightarrow> limit_of p = limit_of q) \<and>
    1 \<le> limit_of q \<and> limit_of q \<le> 1000 \<and> 1 \<le> revision_of q \<and> 100 \<le> refresh_ms q \<and> refresh_ms q \<le> 60000"
proof -
  have "adaptive_policy cs q" using policy_chain_adaptive [OF assms] by simp
  then have "1 \<le> limit_of q \<and> limit_of q \<le> 1000 \<and> 1 \<le> revision_of q \<and> 100 \<le> refresh_ms q \<and> refresh_ms q \<le> 60000"
    by (auto simp: adaptive_policy_def limit_of_def revision_of_def refresh_ms_def int_of_def field_def)
  with policy_chain_pair [OF assms] show ?thesis by (simp add: continues_def)
qed

theorem policy_history_coherent_witness:
  "identity_of (sample_policy 6 5) = identity_of (sample_policy 4 2)"
proof -
  have "policy_chain (\<lambda>_. None) ([] @ sample_policy 6 5 # [sample_policy 5 3] @ sample_policy 4 2 # [])"
    by code_simp
  from policy_history_coherent [OF this] show ?thesis by blast
qed

text \<open>
  The two clients agree: a policy the adaptive client accepts, served with a success
  status, is discovered by the synchronous helper, which returns the very same operations.
\<close>

theorem adaptive_policy_discoverable:
  assumes "validate_policy cs v previous = Inr p" and "is_success r" and "resp_json r = Some v"
  shows "discover cs (Inr r) = Inr (operations_of p)"
proof -
  have v: "v = JDict p" and a: "adaptive_policy cs p" using assms(1) by (simp_all add: validate_policy_Inr_iff)
  from a obtain s l n ops where f: "get p ''version'' = JInt 3" "s \<noteq> []" "get p ''principal_id'' = JStr s"
    "get p ''client_class'' = JStr ''agent'' \<or> get p ''client_class'' = JStr ''interactive''"
    "get p ''limits'' = JDict l" "get l ''scope'' = JStr ''principal''" "get l ''max_outstanding'' = JInt n" "1 \<le> n"
    "get p ''operations'' = JList ops" "\<forall>v \<in> set ops. valid_operation cs v"
    "distinct (map (\<lambda>v. str_field v ''name'') ops)"
    by (auto simp: adaptive_policy_def)
  have "check_discovery cs (JDict p) = Inr ops"
    using f by (auto simp: check_discovery_def field_def nonempty_str_iff scan_operations_Inr_iff
        list_all_iff result_simps)
  with f assms(2,3) v show ?thesis
    by (simp add: discover_def raise_for_status_def response_json_def operations_of_def)
qed

theorem adaptive_policy_discoverable_witness:
  "discover (\<lambda>_. None) (Inr \<lparr>status_code = 200, resp_json = Some (JDict (sample_policy 4 2)), retry_after = None\<rparr>) =
     Inr [sample_operation]"
proof -
  have a: "validate_policy (\<lambda>_. None) (JDict (sample_policy 4 2)) None = Inr (sample_policy 4 2)" by code_simp
  have "operations_of (sample_policy 4 2) = [sample_operation]" by code_simp
  then show ?thesis
    using adaptive_policy_discoverable [OF a, of "\<lparr>status_code = 200, resp_json = Some (JDict (sample_policy 4 2)), retry_after = None\<rparr>"]
    by (simp add: is_success_def)
qed

end
