(* ===== verification/Dispatcher.thy ===== *)
theory Dispatcher
  imports Protocol
begin

text \<open>
  \<^verbatim>\<open>python/ai_protocol/dispatcher.py\<close>: the connector of one agent to the local dispatcher.
  \<open>dispatch_call\<close> makes at most one submission over a Unix socket and turns everything that can
  happen into a reply envelope.

  Parameters: \<open>clk\<close> the readings of \<^verbatim>\<open>time.time()\<close>, \<open>uid\<close> the random identifier, \<open>frepr\<close> the
  decimal rendering of finite floats, \<open>loads\<close> the run of \<^verbatim>\<open>json.loads\<close> on the reply line, and
  \<open>peer\<close> what the socket does. A timeout of \<^verbatim>\<open>asyncio.wait_for\<close> is an exception of \<open>peer\<close>.
  Times are exact rationals (or infinities or NaN).
\<close>

definition MAX_FRAME :: int where
  "MAX_FRAME = 64 * 1024"

definition opname_rx :: rx where
  "opname_rx = Seq (Plus (Cls name_class)) (Star (Seq (lit ''/'') (Plus (Cls name_class))))"

text \<open>\<^verbatim>\<open>DispatcherClient.__init__\<close>: an empty argument counts as missing, a missing variable is a
  \<^verbatim>\<open>KeyError\<close>. The result is the socket path and the token.\<close>

definition or_environ :: "(string, string) dict \<Rightarrow> string option \<Rightarrow> string \<Rightarrow> string result" where
  "or_environ environ given name =
     (case given of
        Some (c # s) \<Rightarrow> Inr (c # s)
      | _ \<Rightarrow> (case dget environ name of Some v \<Rightarrow> Inr v | None \<Rightarrow> Inl (KeyError name)))"

definition dispatcher_client ::
  "(string, string) dict \<Rightarrow> string option \<Rightarrow> string option \<Rightarrow> (string \<times> string) result" where
  "dispatcher_client environ socket_path token =
     rbind (or_environ environ socket_path ''DISPATCH_SOCKET'') (\<lambda>path.
       rbind (or_environ environ token ''AGENT_TOKEN_1'') (\<lambda>tok. Inr (path, tok)))"

subsection \<open>Numbers\<close>

text \<open>\<^verbatim>\<open>deadline / 1000\<close>, in seconds: division raises \<^verbatim>\<open>TypeError\<close> on what is not a number.\<close>

fun in_seconds :: "pyfloat \<Rightarrow> pyfloat" where
  "in_seconds (Fin ms) = Fin (ms / 1000)"
| "in_seconds f = f"

definition deadline_seconds :: "json \<Rightarrow> pyfloat result" where
  "deadline_seconds deadline =
     (case num_of deadline of None \<Rightarrow> Inl TypeError | Some f \<Rightarrow> Inr (in_seconds f))"

subsection \<open>Envelopes\<close>

definition error_reply :: "string \<Rightarrow> string \<Rightarrow> json" where
  "error_reply code execution =
     JDict [(''ok'', JBool False), (''code'', JStr code), (''execution'', JStr execution),
            (''attempts'', if execution = ''unknown'' then JNull else JInt 0),
            (''status'', JNull), (''body'', JNull)]"

definition known_execution :: "json \<Rightarrow> bool" where
  "known_execution v \<longleftrightarrow> py_eq v (JStr ''completed'') \<or> py_eq v (JStr ''not_started'') \<or> py_eq v (JStr ''unknown'')"

fun as_bool :: "json \<Rightarrow> bool option" where
  "as_bool (JBool b) = Some b"
| "as_bool _ = None"

definition well_typed_reply :: "json \<Rightarrow> bool" where
  "well_typed_reply reply \<longleftrightarrow>
     as_dict reply \<noteq> None \<and> as_bool (field reply ''ok'') \<noteq> None \<and> is_str (field reply ''code'') \<and>
     known_execution (field reply ''execution'')"

definition inconsistent_reply :: "json \<Rightarrow> bool" where
  "inconsistent_reply reply \<longleftrightarrow>
     (field reply ''attempts'' \<noteq> JNull \<and>
        (case as_int (field reply ''attempts'') of None \<Rightarrow> True | Some n \<Rightarrow> n < 0)) \<or>
     (truthy (field reply ''ok'') \<and>
        (\<not> py_eq (field reply ''execution'') (JStr ''completed'') \<or>
         (case as_dict reply of None \<Rightarrow> True | Some d \<Rightarrow> dget d ''body'' = None) \<or>
         \<not> (case as_int (field reply ''status'') of None \<Rightarrow> False | Some n \<Rightarrow> 200 \<le> n \<and> n < 300))) \<or>
     (\<not> truthy (field reply ''ok'') \<and> py_eq (field reply ''execution'') (JStr ''completed''))"

definition parse_reply :: "(string \<Rightarrow> json result) \<Rightarrow> string \<Rightarrow> json result" where
  "parse_reply loads raw =
     (if MAX_FRAME < int (length raw) \<or> \<not> endswith raw [CHR 0x0A]
      then Inl (ValueError ''Incomplete dispatcher reply'')
      else rbind (loads raw) (\<lambda>reply.
        if \<not> well_typed_reply reply then Inl (ValueError ''Invalid dispatcher reply'')
        else if inconsistent_reply reply then Inl (ValueError ''Inconsistent dispatcher reply'')
        else Inr reply))"

subsection \<open>The socket\<close>

text \<open>What the peer does: the connection fails, sending fails after it was made, reading fails,
  or a line (possibly cut short by end of file) arrives.\<close>

datatype peer = Refuses exn | SendFails exn | ReadFails exn | Replies string

datatype io = Opened | Wrote string | Closed

definition exchange :: "(string \<Rightarrow> json result) \<Rightarrow> peer \<Rightarrow> string \<Rightarrow> io list \<times> bool \<times> json result" where
  "exchange loads peer payload =
     (case peer of
        Refuses e \<Rightarrow> ([], False, Inl e)
      | SendFails e \<Rightarrow> ([Opened, Wrote payload], True, Inl e)
      | ReadFails e \<Rightarrow> ([Opened, Wrote payload], True, Inl e)
      | Replies raw \<Rightarrow> ([Opened, Wrote payload], True, parse_reply loads raw))"

definition submit :: "(string \<Rightarrow> json result) \<Rightarrow> peer \<Rightarrow> string \<Rightarrow> io list \<times> json result" where
  "submit loads peer payload =
     (case exchange loads peer payload of (ios, conn, r) \<Rightarrow>
        (ios @ (if conn then [Closed] else []),
         case r of
           Inr reply \<Rightarrow> Inr reply
         | Inl e \<Rightarrow>
             if is_os_error e \<or> is_value_error e \<or> is_timeout e
             then Inr (error_reply
                    (if conn then ''dispatcher_response_lost'' else ''dispatcher_unavailable'')
                    (if conn then ''unknown'' else ''not_started''))
             else Inl e))"

subsection \<open>The call\<close>

datatype wall = Arrival | Check | Submit

definition request_doc :: "string \<Rightarrow> string \<Rightarrow> string \<Rightarrow> json \<Rightarrow> json \<Rightarrow> json" where
  "request_doc uid token operation params deadline =
     JDict [(''id'', JStr uid), (''token'', JStr token), (''operation'', JStr operation),
            (''params'', params), (''deadline_unix_ms'', deadline)]"

text \<open>The operation name: a descriptor is validated with the parameters first. \<open>Inr None\<close> is an
  exception the call turns into \<^verbatim>\<open>invalid_dispatch_request\<close>.\<close>

definition dispatch_name :: "schema_check \<Rightarrow> schema_validate \<Rightarrow> json \<Rightarrow> json \<Rightarrow> json option result" where
  "dispatch_name check_schema validate operation params =
     (case as_dict operation of
        None \<Rightarrow> Inr (Some operation)
      | Some d \<Rightarrow>
          (case rbind (validate_operation check_schema operation)
                  (\<lambda>_. raised (validate (get d ''input_schema'') params)) of
             Inr _ \<Rightarrow> Inr (Some (get d ''name''))
           | Inl e \<Rightarrow> if is_value_error e \<or> e = ValidationError \<or> e = SchemaError then Inr None else Inl e))"

definition frame ::
  "(rat \<Rightarrow> string) \<Rightarrow> string \<Rightarrow> string \<Rightarrow> string \<Rightarrow> json \<Rightarrow> json \<Rightarrow> string result" where
  "frame frepr uid token operation params deadline =
     rbind (dumps frepr (request_doc uid token operation params deadline)) (\<lambda>text. Inr (text @ [CHR 0x0A]))"

definition dispatch_call ::
  "schema_check \<Rightarrow> schema_validate \<Rightarrow> (rat \<Rightarrow> string) \<Rightarrow> (string \<Rightarrow> json result) \<Rightarrow> (wall \<Rightarrow> rat) \<Rightarrow>
   string \<Rightarrow> peer \<Rightarrow> string \<Rightarrow> json \<Rightarrow> json \<Rightarrow> rat \<Rightarrow> json \<Rightarrow> io list \<times> json result" where
  "dispatch_call check_schema validate frepr loads clk uid peer token operation params timeout_s deadline_unix_ms =
     (let deadline = (if deadline_unix_ms = JNull then JFloat (Fin ((clk Arrival + timeout_s) * 1000))
                      else deadline_unix_ms);
          refuse = (\<lambda>code. ([], Inr (error_reply code ''not_started'')))
      in case deadline_seconds deadline of
           Inl e \<Rightarrow> ([], Inl e)
         | Inr (Fin due) \<Rightarrow>
             if due - clk Check \<le> 0 then refuse ''task_deadline''
             else (case dispatch_name check_schema validate operation params of
                 Inl e \<Rightarrow> ([], Inl e)
               | Inr None \<Rightarrow> refuse ''invalid_dispatch_request''
               | Inr (Some named) \<Rightarrow>
                   if 3600 < due - clk Check \<or>
                      \<not> (case as_str named of Some n \<Rightarrow> fullmatch opname_rx n | None \<Rightarrow> False)
                   then refuse ''invalid_dispatch_request''
                   else (case frame frepr uid token (the (as_str named)) params deadline of
                       Inl e \<Rightarrow> if e = TypeError \<or> is_value_error e then refuse ''invalid_dispatch_request''
                                else ([], Inl e)
                     | Inr payload \<Rightarrow>
                         if MAX_FRAME < int (length payload) then refuse ''invalid_dispatch_request''
                         else if due - clk Submit \<le> 0 then refuse ''task_deadline''
                         else submit loads peer payload))
         | Inr _ \<Rightarrow> refuse ''invalid_dispatch_request'')"

subsection \<open>Every way a call ends\<close>

lemma dispatch_call_cases:
  obtains (raises) e where
      "dispatch_call check_schema validate frepr loads clk uid peer token operation params timeout_s dl = ([], Inl e)"
  | (late) "dispatch_call check_schema validate frepr loads clk uid peer token operation params timeout_s dl =
         ([], Inr (error_reply ''task_deadline'' ''not_started''))"
  | (invalid) "dispatch_call check_schema validate frepr loads clk uid peer token operation params timeout_s dl =
         ([], Inr (error_reply ''invalid_dispatch_request'' ''not_started''))"
  | (submitted) payload n due deadline where
      "dispatch_call check_schema validate frepr loads clk uid peer token operation params timeout_s dl =
         submit loads peer payload"
      "frame frepr uid token n params deadline = Inr payload" "int (length payload) \<le> MAX_FRAME"
      "deadline = (if dl = JNull then JFloat (Fin ((clk Arrival + timeout_s) * 1000)) else dl)"
      "deadline_seconds deadline = Inr (Fin due)" "fullmatch opname_rx n"
      "0 < due - clk Check" "due - clk Check \<le> 3600" "0 < due - clk Submit"
proof -
  let ?call = "dispatch_call check_schema validate frepr loads clk uid peer token operation params timeout_s dl"
  define deadline where
    "deadline = (if dl = JNull then JFloat (Fin ((clk Arrival + timeout_s) * 1000)) else dl)"
  note body = dispatch_call_def [of check_schema validate frepr loads clk uid peer token operation params timeout_s dl,
      unfolded Let_def, folded deadline_def]
  show thesis
  proof (cases "deadline_seconds deadline")
    case (Inl e)
    then show thesis by (intro raises [of e]) (simp add: body)
  next
    case (Inr f)
    show thesis
    proof (cases "\<exists>due. f = Fin due \<and> 0 < due - clk Check")
      case False
      then consider r where "f = Fin r" "r - clk Check \<le> 0" | "f = PInf \<or> f = NInf \<or> f = NaN"
        by (cases f) (auto simp: not_less)
      then show thesis
      proof cases
        case 1
        with Inr show thesis by (intro late) (simp add: body)
      next
        case 2
        with Inr show thesis by (intro invalid) (elim disjE; simp add: body)
      qed
    next
      case True
      then obtain due where f: "f = Fin due" and pos: "0 < due - clk Check" by blast
      show thesis
      proof (cases "dispatch_name check_schema validate operation params")
        case (Inl e)
        with Inr f pos show thesis by (intro raises [of e]) (simp add: body)
      next
        case named: (Inr v)
        show thesis
        proof (cases "\<exists>n. v = Some (JStr n) \<and> due - clk Check \<le> 3600 \<and> fullmatch opname_rx n")
          case False
          then have "v = None \<or> (\<exists>w. v = Some w \<and> (3600 < due - clk Check \<or>
              \<not> (case as_str w of Some n \<Rightarrow> fullmatch opname_rx n | None \<Rightarrow> False)))"
            by (cases v) (auto simp: not_le split: option.splits)
          with Inr f pos named show thesis
            by (intro invalid) (elim disjE exE conjE; simp add: body del: if_cancel)
        next
          case True
          then obtain n where v: "v = Some (JStr n)" and n: "due - clk Check \<le> 3600" "fullmatch opname_rx n"
            by blast
          show thesis
          proof (cases "frame frepr uid token n params deadline")
            case (Inl e)
            with \<open>deadline_seconds deadline = Inr f\<close> f pos named v n show thesis
              by (cases "e = TypeError \<or> is_value_error e")
                 ((intro invalid, simp add: body), (intro raises [of e], simp add: body))
          next
            case (Inr payload)
            note ev = body \<open>deadline_seconds deadline = Inr f\<close> f pos named v n Inr
            consider "MAX_FRAME < int (length payload)" | "int (length payload) \<le> MAX_FRAME" "due - clk Submit \<le> 0"
              | "int (length payload) \<le> MAX_FRAME" "0 < due - clk Submit" by linarith
            then show thesis
            proof cases
              case 1
              with ev show thesis by (intro invalid) simp_all
            next
              case 2
              with ev show thesis by (intro late) simp_all
            next
              case 3
              show thesis
              proof (rule submitted [OF _ Inr 3(1) deadline_def _ n(2) pos n(1) 3(2)])
                show "?call = submit loads peer payload" using ev 3 by simp
                show "deadline_seconds deadline = Inr (Fin due)" using ev by simp
              qed
            qed
          qed
        qed
      qed
    qed
  qed
qed

subsection \<open>Replies\<close>

text \<open>A coherent envelope: the execution verdict is one of three, success is a completed 2xx
  answer with a body, and a failure never claims completion.\<close>

definition coherent :: "json \<Rightarrow> bool" where
  "coherent reply \<longleftrightarrow> (\<exists>d ok code ex. reply = JDict d \<and> get d ''ok'' = JBool ok \<and> get d ''code'' = JStr code \<and>
     get d ''execution'' = JStr ex \<and> ex \<in> {''completed'', ''not_started'', ''unknown''} \<and>
     (get d ''attempts'' = JNull \<or> (\<exists>n. get d ''attempts'' = JInt n \<and> 0 \<le> n)) \<and>
     (if ok then ex = ''completed'' \<and> dget d ''body'' \<noteq> None \<and>
                 (\<exists>s. get d ''status'' = JInt s \<and> 200 \<le> s \<and> s < 300)
      else ex \<noteq> ''completed''))"

lemma parse_reply_coherent: "parse_reply loads raw = Inr reply \<Longrightarrow> coherent reply"
proof -
  assume "parse_reply loads raw = Inr reply"
  then have w: "well_typed_reply reply" and i: "\<not> inconsistent_reply reply"
    by (auto simp: parse_reply_def result_simps split: if_splits)
  from w obtain d ok code ex where d: "reply = JDict d" and ok: "get d ''ok'' = JBool ok"
    and code: "get d ''code'' = JStr code" and ex: "get d ''execution'' = JStr ex"
    and three: "ex = ''completed'' \<or> ex = ''not_started'' \<or> ex = ''unknown''"
    by (auto simp: well_typed_reply_def field_def is_str_iff known_execution_def elim!: as_bool.elims)
  from i have at: "get d ''attempts'' = JNull \<or> (\<exists>n. get d ''attempts'' = JInt n \<and> 0 \<le> n)"
    unfolding inconsistent_reply_def d by (auto simp: field_def split: option.splits)
  have st: "ok \<Longrightarrow> ex = ''completed'' \<and> dget d ''body'' \<noteq> None \<and> (\<exists>s. get d ''status'' = JInt s \<and> 200 \<le> s \<and> s < 300)"
    using i ok ex unfolding inconsistent_reply_def d
    by (auto simp: field_def split: option.splits)
  have nf: "\<not> ok \<Longrightarrow> ex \<noteq> ''completed''"
    using i ok ex unfolding inconsistent_reply_def d by (simp add: field_def)
  show ?thesis
    unfolding coherent_def using d ok code ex three at st nf
    by (intro exI [where x = d] exI [where x = ok] exI [where x = code] exI [where x = ex]) simp
qed

lemma error_reply_coherent: "ex = ''not_started'' \<or> ex = ''unknown'' \<Longrightarrow> coherent (error_reply code ex)"
  by (elim disjE) (simp_all add: coherent_def error_reply_def get_def exI [of _ False])

lemma error_reply_fields:
  "field (error_reply code ex) ''ok'' = JBool False" "field (error_reply code ex) ''code'' = JStr code"
  "field (error_reply code ex) ''execution'' = JStr ex"
  "field (error_reply code ex) ''attempts'' = (if ex = ''unknown'' then JNull else JInt 0)"
  by (simp_all add: error_reply_def field_def get_def)

lemma submit_cases:
  obtains (parsed) raw reply where "peer = Replies raw" "parse_reply loads raw = Inr reply"
      "submit loads peer payload = ([Opened, Wrote payload, Closed], Inr reply)"
  | (lost) "submit loads peer payload =
      ([Opened, Wrote payload, Closed], Inr (error_reply ''dispatcher_response_lost'' ''unknown''))"
  | (unreachable) e where "peer = Refuses e"
      "submit loads peer payload = ([], Inr (error_reply ''dispatcher_unavailable'' ''not_started''))"
  | (raises) ios e where "submit loads peer payload = (ios, Inl e)" "\<not> is_os_error e" "\<not> is_value_error e"
      "ios = [] \<or> ios = [Opened, Wrote payload, Closed]"
proof -
  have caught: thesis if "exchange loads peer payload = ([Opened, Wrote payload], True, Inl e)" for e
    using that lost raises [of "[Opened, Wrote payload, Closed]" e]
    by (cases "is_os_error e \<or> is_value_error e \<or> is_timeout e") (simp_all add: submit_def)
  show thesis
  proof (cases peer)
    case (Refuses e)
    then show thesis
      using unreachable [of e] raises [of "[]" e]
      by (cases "is_os_error e \<or> is_value_error e \<or> is_timeout e") (simp_all add: submit_def exchange_def)
  next
    case (SendFails e)
    then show thesis by (intro caught [of e]) (simp add: exchange_def)
  next
    case (ReadFails e)
    then show thesis by (intro caught [of e]) (simp add: exchange_def)
  next
    case (Replies raw)
    show thesis
    proof (cases "parse_reply loads raw")
      case (Inl e)
      with Replies show thesis by (intro caught [of e]) (simp add: exchange_def)
    next
      case (Inr reply)
      with Replies show thesis by (intro parsed [of raw reply]) (simp_all add: submit_def exchange_def)
    qed
  qed
qed

lemma reply_coherent:
  assumes "snd (dispatch_call cs validate frepr loads clk uid peer token operation params timeout_s dl) = Inr reply"
  shows "coherent reply"
proof (cases rule: dispatch_call_cases [of cs validate frepr loads clk uid peer token operation params timeout_s dl])
  case (submitted payload)
  then show ?thesis using assms
    by (cases rule: submit_cases [of peer loads payload]) (auto intro: parse_reply_coherent error_reply_coherent)
qed (use assms in \<open>auto intro: error_reply_coherent\<close>)

text \<open>
  Claim C37. Whatever the dispatcher sends, an envelope the connector returns is coherent: its
  verdict is completed, not started or unknown, a success is a completed call with an integer
  2xx status and a body, a failure never claims completion, and attempts is a non-negative
  integer or null.
\<close>

theorem dispatch_reply_coherent:
  assumes "snd (dispatch_call cs validate frepr loads clk uid peer token operation params timeout_s dl) = Inr reply"
  shows "coherent reply"
  using assms by (rule reply_coherent)

definition sample_wall :: "wall \<Rightarrow> rat" where
  "sample_wall w = 0"

theorem dispatch_reply_coherent_witness:
  "coherent (error_reply ''dispatcher_response_lost'' ''unknown'')"
proof -
  have "snd (dispatch_call (\<lambda>_. None) (\<lambda>_ _. None) (\<lambda>_. ''1.0'') (\<lambda>_. Inr JNull) sample_wall ''u'' (ReadFails OSError)
      ''t'' (JStr ''ns/op'') JNull 10 JNull) = Inr (error_reply ''dispatcher_response_lost'' ''unknown'')"
    by code_simp
  then show ?thesis by (rule dispatch_reply_coherent)
qed

subsection \<open>One submission\<close>

fun is_wrote :: "io \<Rightarrow> bool" where
  "is_wrote (Wrote p) = True"
| "is_wrote _ = False"

lemma single_submission:
  "dispatch_call cs validate frepr loads clk uid peer token operation params timeout_s dl = (ios, r) \<Longrightarrow>
     length (filter is_wrote ios) \<le> 1 \<and>
     (filter is_wrote ios = [] \<longrightarrow> (\<forall>reply. r = Inr reply \<longrightarrow>
        field reply ''ok'' = JBool False \<and> field reply ''execution'' = JStr ''not_started'' \<and>
        field reply ''attempts'' = JInt 0)) \<and>
     (filter is_wrote ios \<noteq> [] \<longrightarrow> (\<forall>reply. r = Inr reply \<longrightarrow>
        (\<exists>raw. peer = Replies raw \<and> parse_reply loads raw = Inr reply) \<or>
        (field reply ''ok'' = JBool False \<and> field reply ''execution'' = JStr ''unknown'' \<and>
         field reply ''attempts'' = JNull))) \<and>
     (Opened \<in> set ios \<longrightarrow> last ios = Closed)"
proof -
  assume c: "dispatch_call cs validate frepr loads clk uid peer token operation params timeout_s dl = (ios, r)"
  show ?thesis
  proof (cases rule: dispatch_call_cases [of cs validate frepr loads clk uid peer token operation params timeout_s dl])
    case (submitted payload)
    then show ?thesis using c
      by (cases rule: submit_cases [of peer loads payload]) (auto simp: error_reply_fields)
  qed (use c in \<open>auto simp: error_reply_fields\<close>)
qed

text \<open>
  Claim C9. A call submits at most once and reports the truth about it: without a submission
  every returned envelope says not started with zero attempts; after one, the envelope is the
  dispatcher's own reply or says unknown, with no attempt count, so that a lost reply is never
  reported as safe to repeat. A connection that was opened is closed last.
\<close>

theorem dispatch_single_submission:
  "dispatch_call cs validate frepr loads clk uid peer token operation params timeout_s dl = (ios, r) \<Longrightarrow>
     length (filter is_wrote ios) \<le> 1 \<and>
     (filter is_wrote ios = [] \<longrightarrow> (\<forall>reply. r = Inr reply \<longrightarrow>
        field reply ''ok'' = JBool False \<and> field reply ''execution'' = JStr ''not_started'' \<and>
        field reply ''attempts'' = JInt 0)) \<and>
     (filter is_wrote ios \<noteq> [] \<longrightarrow> (\<forall>reply. r = Inr reply \<longrightarrow>
        (\<exists>raw. peer = Replies raw \<and> parse_reply loads raw = Inr reply) \<or>
        (field reply ''ok'' = JBool False \<and> field reply ''execution'' = JStr ''unknown'' \<and>
         field reply ''attempts'' = JNull))) \<and>
     (Opened \<in> set ios \<longrightarrow> last ios = Closed)"
  by (rule single_submission)

theorem dispatch_single_submission_witness:
  "fst (dispatch_call (\<lambda>_. None) (\<lambda>_ _. None) (\<lambda>_. ''1.0'') (\<lambda>_. Inr JNull) sample_wall ''u'' (Refuses OSError)
      ''t'' (JStr ''ns/op'') JNull 10 JNull) = [] \<and>
   field (error_reply ''dispatcher_unavailable'' ''not_started'') ''execution'' = JStr ''not_started''"
proof -
  have c: "dispatch_call (\<lambda>_. None) (\<lambda>_ _. None) (\<lambda>_. ''1.0'') (\<lambda>_. Inr JNull) sample_wall ''u'' (Refuses OSError)
      ''t'' (JStr ''ns/op'') JNull 10 JNull = ([], Inr (error_reply ''dispatcher_unavailable'' ''not_started''))"
    by code_simp
  from dispatch_single_submission [OF c] c show ?thesis by simp
qed

lemma frame_shape:
  assumes "\<And>q. printable (frepr q)" and "frame frepr uid token n params deadline = Inr payload"
  shows "\<exists>line. payload = line @ [CHR 0x0A] \<and> printable line"
  using assms dumps_printable(1) [of frepr] by (auto simp: frame_def result_simps)

text \<open>
  What is written to the socket is one protocol frame: a line of printable ASCII
  closed by its only newline, at most 64 KiB long, and it is only written while the deadline is
  ahead and at most an hour away.
\<close>

theorem dispatch_frame:
  assumes "\<And>q. printable (frepr q)"
    and "Wrote p \<in> set (fst (dispatch_call cs validate frepr loads clk uid peer token operation params timeout_s dl))"
  shows "\<exists>line due. p = line @ [CHR 0x0A] \<and> printable line \<and> CHR 0x0A \<notin> set line \<and> length p \<le> 65536 \<and>
    deadline_seconds (if dl = JNull then JFloat (Fin ((clk Arrival + timeout_s) * 1000)) else dl) = Inr (Fin due) \<and>
    0 < due - clk Check \<and> due - clk Check \<le> 3600 \<and> 0 < due - clk Submit"
proof (cases rule: dispatch_call_cases [of cs validate frepr loads clk uid peer token operation params timeout_s dl])
  case (submitted payload n due deadline)
  have p: "p = payload"
    using assms(2) unfolding submitted(1)
    by (cases rule: submit_cases [of peer loads payload]) auto
  obtain line where t: "payload = line @ [CHR 0x0A]" "printable line"
    using frame_shape [OF assms(1) submitted(2)] by blast
  have "CHR 0x0A \<notin> set line" using t(2) by (auto simp: printable_def)
  with p t submitted show ?thesis
    by (intro exI [where x = line] exI [where x = due]) (simp add: MAX_FRAME_def)
qed (use assms in simp_all)

theorem dispatch_frame_witness:
  "\<exists>line. printable line \<and> (line @ [CHR 0x0A] \<in> (\<lambda>a. case a of Wrote p \<Rightarrow> p | _ \<Rightarrow> []) `
     set (fst (dispatch_call (\<lambda>_. None) (\<lambda>_ _. None) (\<lambda>_. ''1.0'') (\<lambda>_. Inr JNull) sample_wall ''u''
       (ReadFails OSError) ''t'' (JStr ''ns/op'') JNull 10 JNull)))"
proof -
  let ?r = "dispatch_call (\<lambda>_. None) (\<lambda>_ _. None) (\<lambda>_. ''1.0'') (\<lambda>_. Inr JNull) sample_wall ''u''
    (ReadFails OSError) ''t'' (JStr ''ns/op'') JNull 10 JNull"
  have "list_ex is_wrote (fst ?r)" by code_simp
  then obtain p where p: "Wrote p \<in> set (fst ?r)" by (auto simp: list_ex_iff elim!: is_wrote.elims)
  have "printable ''1.0''" by (simp add: printable_def)
  from dispatch_frame [OF this p] obtain line where "p = line @ [CHR 0x0A]" "printable line" by blast
  with p show ?thesis by (intro exI [where x = line]) force
qed

end
