(* ===== verification/Client.thy ===== *)
theory Client
  imports Policy Dispatcher
begin

text \<open>
  The operations of \<open>AsyncClient\<close> in \<^verbatim>\<open>python/ai_protocol/client.py\<close>, one definition per stretch
  of code that runs without suspension.

  The client is a single-threaded \<^verbatim>\<open>asyncio\<close> object. Its condition lock is only held across
  code that never suspends (\<^verbatim>\<open>Condition.wait\<close> gives it up before it suspends), so taking it never
  waits, and every \<^verbatim>\<open>async with self._condition\<close> block is one atomic step. A call suspends in
  four places only: waiting on the condition, in \<^verbatim>\<open>_request\<close>, in \<^verbatim>\<open>DispatcherClient.call\<close> and in
  \<^verbatim>\<open>asyncio.sleep\<close>. The theory Client_Run interleaves these stretches.
\<close>

subsection \<open>Failures and outcomes of a call\<close>

record failure =
  fcode :: string
  fexecution :: string
  fstatus :: json
  fattempts :: json

datatype outcome = Returned json | Failed failure | Deadline failure | Escaped exn

definition error_code_rx :: rx where
  "error_code_rx = Seq (Cls [(CHR ''a'', CHR ''z'')])
     (upto_rep 63 (Cls [(CHR ''a'', CHR ''z''), (CHR ''0'', CHR ''9''), (CHR ''_'', CHR ''_'')]))"

definition clean_code :: "json \<Rightarrow> string" where
  "clean_code code =
     (case as_str code of
        Some s \<Rightarrow> if fullmatch error_code_rx s then s else ''http_error''
      | None \<Rightarrow> ''http_error'')"

text \<open>\<^verbatim>\<open>OperationError.__init__\<close>.\<close>

definition operation_error :: "json \<Rightarrow> string \<Rightarrow> json \<Rightarrow> json \<Rightarrow> failure" where
  "operation_error code execution status attempts =
     \<lparr>fcode = clean_code code, fexecution = execution, fstatus = status, fattempts = attempts\<rparr>"

subsection \<open>The client object\<close>

record config =
  origin :: string
  bearer :: string
  dispatched :: bool
  maximum_body :: int

record client =
  held_policy :: "policy option"
  active :: int
  ready :: bool
  closed :: bool
  polling :: bool

definition protocol_error :: "exn \<Rightarrow> exn" where
  "protocol_error e = (case e of ValueError m \<Rightarrow> ProtocolError m | _ \<Rightarrow> e)"

text \<open>\<^verbatim>\<open>AsyncClient.__init__\<close>; \<open>dispatcher_socket\<close> is used when it is a non-empty text.\<close>

definition new_client ::
  "(string \<Rightarrow> bool) \<Rightarrow> string \<Rightarrow> json \<Rightarrow> string option \<Rightarrow> json \<Rightarrow> (config \<times> client) result" where
  "new_client bracket_ok raw_origin token dispatcher_socket max_response_bytes =
     (case validate_origin bracket_ok raw_origin of
        Inl e \<Rightarrow> Inl (if is_value_error e then protocol_error e else e)
      | Inr base \<Rightarrow>
          if \<not> (case as_str token of Some t \<Rightarrow> fullmatch token_rx t | None \<Rightarrow> False)
          then Inl (ProtocolError ''Invalid bearer credential'')
          else if \<not> int_where (\<lambda>n. 1 \<le> n) max_response_bytes
          then Inl (ProtocolError ''max_response_bytes must be a positive integer'')
          else Inr (\<lparr>origin = rstrip_of (\<lambda>c. c = CHR ''/'') base, bearer = the (as_str token),
                     dispatched = (case dispatcher_socket of Some s \<Rightarrow> s \<noteq> [] | None \<Rightarrow> False),
                     maximum_body = int_of max_response_bytes\<rparr>,
                    \<lparr>held_policy = None, active = 0, ready = False, closed = False, polling = False\<rparr>))"

text \<open>The \<^verbatim>\<open>ready\<close> property.\<close>

definition is_ready :: "'a client_scheme \<Rightarrow> bool" where
  "is_ready c \<longleftrightarrow> ready c \<and> \<not> closed c"

subsection \<open>Reading a response\<close>

text \<open>The loop of \<^verbatim>\<open>_request\<close> over the chunks of the body: the limit is checked before each
  chunk is stored. \<open>None\<close> or zero for \<open>maximum\<close> selects the client's own limit.\<close>

fun collect_body :: "int \<Rightarrow> string \<Rightarrow> string list \<Rightarrow> string result" where
  "collect_body limit body [] = Inr body"
| "collect_body limit body (chunk # chunks) =
     (if limit < int (length body) + int (length chunk)
      then Inl (ProtocolError ''Response exceeds the configured size limit'')
      else collect_body limit (body @ chunk) chunks)"

record http_answer =
  answer_status :: int
  answer_headers :: "(string, string) dict"
  answer_body :: string

definition request ::
  "config \<Rightarrow> int option \<Rightarrow> int \<Rightarrow> (string, string) dict \<Rightarrow> string list \<Rightarrow> http_answer result" where
  "request cfg maximum status headers chunks =
     (let limit = (case maximum of Some m \<Rightarrow> if m = 0 then maximum_body cfg else m
                   | None \<Rightarrow> maximum_body cfg)
      in rbind (collect_body limit [] chunks) (\<lambda>body.
           Inr \<lparr>answer_status = status,
                answer_headers = dpop (dpop headers ''content-encoding'') ''content-length'',
                answer_body = body\<rparr>))"

text \<open>The URL \<^verbatim>\<open>_request\<close> opens.\<close>

definition request_url :: "config \<Rightarrow> string \<Rightarrow> string" where
  "request_url cfg path = origin cfg @ path"

subsection \<open>Policy refresh\<close>

text \<open>\<open>refresh\<close>: \<open>answer\<close> is what \<^verbatim>\<open>_request\<close> yields, \<open>Inl\<close> including the two-second timeout and
  cancellation. The Boolean says whether the waiters were notified.\<close>

definition refresh_open :: "'a client_scheme \<Rightarrow> unit result" where
  "refresh_open c = (if closed c then Inl (ProtocolError ''Client is closed'') else Inr ())"

definition fetched_policy :: "schema_check \<Rightarrow> response result \<Rightarrow> policy option \<Rightarrow> policy result" where
  "fetched_policy check_schema answer previous =
     rbind answer (\<lambda>r. rbind (raise_for_status r) (\<lambda>_.
       rbind (response_json r) (\<lambda>v. validate_policy check_schema v previous)))"

definition refresh_caught :: "exn \<Rightarrow> bool" where
  "refresh_caught e \<longleftrightarrow> is_http_error e \<or> is_value_error e \<or> is_timeout e \<or> e = CancelledError"

definition refresh ::
  "schema_check \<Rightarrow> response result \<Rightarrow> 'a client_scheme \<Rightarrow> 'a client_scheme \<times> bool \<times> policy option result" where
  "refresh check_schema answer c =
     (case fetched_policy check_schema answer (held_policy c) of
        Inr validated \<Rightarrow>
          if closed c then (c, False, Inr (held_policy c))
          else (c\<lparr>held_policy := Some validated, ready := True\<rparr>, True, Inr (Some validated))
      | Inl e \<Rightarrow>
          if refresh_caught e
          then (c\<lparr>ready := False\<rparr>, True,
                Inl (if e = CancelledError then e else ProtocolError ''Policy refresh failed''))
          else (c, False, Inl e))"

text \<open>One turn of \<open>_poll\<close>: the delay before it, and whether the poller survives it.\<close>

definition poll_delay :: "'a client_scheme \<Rightarrow> rat" where
  "poll_delay c =
     (if ready c then of_int (case held_policy c of Some p \<Rightarrow> refresh_ms p | None \<Rightarrow> 0) / 1000 else 1)"

definition poll_survives :: "policy option result \<Rightarrow> bool" where
  "poll_survives r = (case r of Inr _ \<Rightarrow> True | Inl (ProtocolError _) \<Rightarrow> True | Inl _ \<Rightarrow> False)"

text \<open>\<open>aclose\<close>: the first block, then the end of the owned poller.\<close>

definition aclose :: "'a client_scheme \<Rightarrow> 'a client_scheme" where
  "aclose c = c\<lparr>closed := True, ready := False, polling := False\<rparr>"

text \<open>\<^verbatim>\<open>__aenter__\<close>.\<close>

definition aenter ::
  "schema_check \<Rightarrow> response result \<Rightarrow> 'a client_scheme \<Rightarrow> 'a client_scheme \<times> unit result" where
  "aenter check_schema answer c =
     (if closed c \<or> polling c then (c, Inl (ProtocolError ''Client cannot be reopened or entered twice''))
      else case refresh check_schema answer c of
             (c', _, Inl e) \<Rightarrow> (aclose c', Inl e)
           | (c', _, Inr _) \<Rightarrow> (c'\<lparr>polling := True\<rparr>, Inr ()))"

subsection \<open>The attempt gate\<close>

datatype 'c admission = Blocked | Refused failure | Crashed exn | Granted json 'c

definition open_for :: "config \<Rightarrow> 'a client_scheme \<Rightarrow> policy \<Rightarrow> bool" where
  "open_for cfg c policy \<longleftrightarrow> dispatched cfg \<or> active c < limit_of policy"

text \<open>One turn of the loop of \<open>_acquire\<close>; \<open>Blocked\<close> goes on to wait. Reading the limit without a
  policy would be a \<^verbatim>\<open>TypeError\<close>.\<close>

definition acquire :: "config \<Rightarrow> 'a client_scheme \<Rightarrow> string \<Rightarrow> 'a client_scheme admission" where
  "acquire cfg c name =
     (if closed c then Refused (operation_error (JStr ''client_closed'') ''not_started'' JNull (JInt 0))
      else if \<not> ready c then Blocked
      else case held_policy c of
             None \<Rightarrow> Crashed TypeError
           | Some policy \<Rightarrow>
               if \<not> open_for cfg c policy then Blocked
               else case find (\<lambda>op. py_eq (field op ''name'') (JStr name)) (operations_of policy) of
                      None \<Rightarrow> Refused (operation_error (JStr ''operation_not_permitted'') ''not_started'' JNull (JInt 0))
                    | Some operation \<Rightarrow>
                        Granted operation (if dispatched cfg then c else c\<lparr>active := active c + 1\<rparr>))"

definition release :: "config \<Rightarrow> 'a client_scheme \<Rightarrow> 'a client_scheme" where
  "release cfg c = (if dispatched cfg then c else c\<lparr>active := active c - 1\<rparr>)"

subsection \<open>A call before its first attempt\<close>

fun plain_number :: "json \<Rightarrow> pyfloat option" where
  "plain_number (JInt i) = Some (Fin (of_int i))"
| "plain_number (JFloat f) = Some f"
| "plain_number _ = None"

fun minus_now :: "pyfloat \<Rightarrow> rat \<Rightarrow> pyfloat" where
  "minus_now (Fin s) now = Fin (s - now)"
| "minus_now f now = f"

definition call_duration :: "rat \<Rightarrow> json \<Rightarrow> json \<Rightarrow> pyfloat option" where
  "call_duration now timeout deadline_unix_ms =
     (if deadline_unix_ms = JNull then plain_number timeout
      else case plain_number deadline_unix_ms of
             None \<Rightarrow> None
           | Some f \<Rightarrow> Some (minus_now (in_seconds f) now))"

text \<open>The checks of \<open>call\<close> on its deadline; \<open>now\<close> and \<open>later\<close> are the two readings of
  \<^verbatim>\<open>time.time()\<close>. The result is the duration in seconds and the absolute deadline.\<close>

definition call_setup ::
  "'a client_scheme \<Rightarrow> rat \<Rightarrow> rat \<Rightarrow> json \<Rightarrow> json \<Rightarrow> outcome + (rat \<times> json)" where
  "call_setup c now later timeout deadline_unix_ms =
     (if held_policy c = None \<and> \<not> polling c
      then Inl (Escaped (ProtocolError ''Enter the client with async with before calling operations''))
      else case call_duration now timeout deadline_unix_ms of
             Some (Fin duration) \<Rightarrow>
               if 3600 < duration then Inl (Escaped (ProtocolError ''Invalid task deadline''))
               else if duration \<le> 0
               then Inl (Deadline (operation_error (JStr ''task_deadline'') ''not_started'' JNull (JInt 0)))
               else Inr (duration,
                 if deadline_unix_ms = JNull then JFloat (Fin ((later + duration) * 1000))
                 else deadline_unix_ms)
           | _ \<Rightarrow> Inl (Escaped (ProtocolError ''Invalid task deadline'')))"

subsection \<open>Parameters\<close>

definition check_params ::
  "schema_validate \<Rightarrow> (rat \<Rightarrow> string) \<Rightarrow> json \<Rightarrow> json \<Rightarrow> nat \<Rightarrow> outcome option" where
  "check_params validate frepr descriptor params attempts =
     (case rbind (raised (validate (field descriptor ''input_schema'') params)) (\<lambda>_. dumps frepr params) of
        Inr _ \<Rightarrow> None
      | Inl e \<Rightarrow>
          if e = TypeError \<or> is_value_error e \<or> e = ValidationError \<or> e = SchemaError
          then Some (Failed (operation_error (JStr ''invalid_parameters'') ''not_started'' JNull (JInt (int attempts))))
          else Some (Escaped e))"

subsection \<open>What an answer means\<close>

text \<open>\<^verbatim>\<open>response.json().get("error", {})\<close>, with \<^verbatim>\<open>{}\<close> for what is not JSON or not an object.\<close>

definition error_of :: "response \<Rightarrow> json" where
  "error_of r =
     (case resp_json r of
        Some (JDict d) \<Rightarrow> get_or d ''error'' (JDict [])
      | _ \<Rightarrow> JDict [])"

definition known_rejection :: "response \<Rightarrow> bool" where
  "known_rejection r \<longleftrightarrow>
     status_code r \<in> {400, 401, 403, 404, 405, 413, 415, 422, 429} \<or>
     status_code r = 503 \<and>
       (case as_dict (error_of r) of
          None \<Rightarrow> False
        | Some d \<Rightarrow> (py_eq (get d ''code'') (JStr ''queue_timeout'') \<or> py_eq (get d ''code'') (JStr ''gateway_closed''))
                    \<and> py_eq (get d ''execution'') (JStr ''not_started''))"

definition error_code :: "response \<Rightarrow> json" where
  "error_code r =
     (case as_dict (error_of r) of
        Some d \<Rightarrow> JStr (clean_code (get_or d ''code'' (JStr ''http_error'')))
      | None \<Rightarrow> JStr ''http_error'')"

datatype verdict = Conclude outcome | Pause int

text \<open>From \<^verbatim>\<open>if response.is_success\<close> to the end of the loop body: whether the task may have
  executed, and what happens next. \<open>left\<close> is the time to the deadline.\<close>

definition settle :: "nat \<Rightarrow> nat \<Rightarrow> rat \<Rightarrow> response \<Rightarrow> bool \<times> verdict" where
  "settle number attempts left r =
     (if is_success r
      then (True, Conclude (case resp_json r of
              Some v \<Rightarrow> Returned v
            | None \<Rightarrow> Failed (operation_error (JStr ''invalid_response'') ''unknown'' JNull (JInt (int attempts)))))
      else let may_have_executed = \<not> known_rejection r
           in (may_have_executed,
               if \<not> safe_to_retry r \<or> number = 5
               then Conclude (Failed (operation_error (error_code r)
                      (if may_have_executed then ''unknown'' else ''not_started'')
                      (JInt (status_code r)) (JInt (int attempts))))
               else case retry_seconds r of
                      Inl e \<Rightarrow> Conclude (Escaped e)
                    | Inr seconds \<Rightarrow>
                        if left \<le> of_int seconds
                        then Conclude (Deadline (operation_error (JStr ''task_deadline'') ''not_started''
                               JNull (JInt (int attempts))))
                        else Pause seconds))"

text \<open>The reply of the dispatcher, and the exceptions its connector lets through.\<close>

definition dispatcher_outcome :: "json result \<Rightarrow> nat \<Rightarrow> outcome" where
  "dispatcher_outcome r attempts =
     (case r of
        Inr reply \<Rightarrow>
          if truthy (field reply ''ok'') then Returned (field reply ''body'')
          else Failed (operation_error (field reply ''code'') (str_field reply ''execution'')
                 (field reply ''status'') (field reply ''attempts''))
      | Inl e \<Rightarrow>
          if is_timeout e
          then Deadline (operation_error (JStr ''task_deadline'') ''unknown'' JNull (JInt (int attempts)))
          else Escaped e)"

end
