(* ===== verification/Client_Run.thy ===== *)
theory Client_Run
  imports Client Retry_Contract
begin

text \<open>
  Concurrent calls of one \<open>AsyncClient\<close>: the tasks of \<^verbatim>\<open>call\<close> (\<^verbatim>\<open>python/ai_protocol/client.py\<close>),
  the policy refresher and \<^verbatim>\<open>aclose\<close>, interleaved at their suspension points. \<open>pc\<close> is where a task
  is suspended, or its outcome. \<open>step\<close> lets any enabled stretch run next, so its reachable states
  include every schedule of the event loop, every answer, timeout and cancellation.

  Ghost state: \<open>answers\<close>, one entry per HTTP attempt whose reply was lost (\<open>None\<close>) or received;
  \<open>submits\<close>, the number of submissions to the dispatcher; \<open>accepted\<close>, the policies applied so far,
  newest first.
\<close>

subsection \<open>Tasks and the system\<close>

datatype pc = Asleep | Woken | InFlight json | InDispatcher json | Pausing int | Finished outcome

record task =
  wanted :: string
  params :: json
  due :: rat
  due_ms :: json
  number :: nat
  attempts :: nat
  may_have_executed :: bool
  pc :: pc
  answers :: "response option list"
  submits :: nat

record system = client +
  tasks :: "task list"
  accepted :: "policy list"

definition new_task :: "string \<Rightarrow> json \<Rightarrow> rat \<Rightarrow> json \<Rightarrow> task" where
  "new_task name ps d ms =
     \<lparr>wanted = name, params = ps, due = d, due_ms = ms, number = 1, attempts = 0,
      may_have_executed = False, pc = Woken, answers = [], submits = 0\<rparr>"

definition wake :: "task \<Rightarrow> task" where
  "wake t = (if pc t = Asleep then t\<lparr>pc := Woken\<rparr> else t)"

text \<open>\<^verbatim>\<open>self._condition.notify_all()\<close>.\<close>

definition notify_all :: "system \<Rightarrow> system" where
  "notify_all s = s\<lparr>tasks := map wake (tasks s)\<rparr>"

definition put :: "nat \<Rightarrow> task \<Rightarrow> system \<Rightarrow> system" where
  "put i t s = s\<lparr>tasks := (tasks s)[i := t]\<rparr>"

text \<open>The \<^verbatim>\<open>finally\<close> block of an attempt.\<close>

definition give_back :: "config \<Rightarrow> system \<Rightarrow> system" where
  "give_back cfg s = (if dispatched cfg then s else notify_all (release cfg s))"

text \<open>From the top of the loop body to the next suspension.\<close>

definition attempt ::
  "config \<Rightarrow> schema_validate \<Rightarrow> (rat \<Rightarrow> string) \<Rightarrow> nat \<Rightarrow> task \<Rightarrow> system \<Rightarrow> system" where
  "attempt cfg validate frepr i t s =
     (case acquire cfg s (wanted t) of
        Blocked \<Rightarrow> put i (t\<lparr>pc := Asleep\<rparr>) s
      | Crashed e \<Rightarrow> put i (t\<lparr>pc := Finished (Escaped e)\<rparr>) s
      | Refused f \<Rightarrow> put i (t\<lparr>pc := Finished (Failed f)\<rparr>) s
      | Granted descriptor s1 \<Rightarrow>
          (case check_params validate frepr descriptor (params t) (attempts t) of
             Some out \<Rightarrow> put i (t\<lparr>pc := Finished out\<rparr>) (give_back cfg s1)
           | None \<Rightarrow>
               if dispatched cfg
               then put i (t\<lparr>may_have_executed := True, pc := InDispatcher descriptor,
                             submits := submits t + 1\<rparr>) s1
               else put i (t\<lparr>attempts := number t, may_have_executed := True,
                             pc := InFlight descriptor\<rparr>) s1))"

definition task_deadline :: "task \<Rightarrow> outcome" where
  "task_deadline t =
     Deadline (operation_error (JStr ''task_deadline'')
       (if may_have_executed t then ''unknown'' else ''not_started'') JNull (JInt (int (attempts t))))"

definition is_protocol_error :: "exn \<Rightarrow> bool" where
  "is_protocol_error e = (case e of ProtocolError _ \<Rightarrow> True | _ \<Rightarrow> False)"

text \<open>From the end of \<^verbatim>\<open>_request\<close> to the next suspension; \<open>now\<close> is the clock before the backoff. A
  cancellation or the expiry of \<^verbatim>\<open>asyncio.timeout\<close> in flight is an \<open>Inl\<close>.\<close>

definition respond :: "config \<Rightarrow> rat \<Rightarrow> response result \<Rightarrow> nat \<Rightarrow> task \<Rightarrow> system \<Rightarrow> system" where
  "respond cfg now answer i t s =
     (case answer of
        Inl e \<Rightarrow>
          put i (t\<lparr>answers := answers t @ [None], pc := Finished
            (if is_http_error e \<or> is_protocol_error e
             then Failed (operation_error (JStr ''transport_error'') ''unknown'' JNull (JInt (int (attempts t))))
             else if is_timeout e then task_deadline t else Escaped e)\<rparr>) (give_back cfg s)
      | Inr r \<Rightarrow>
          (case settle (number t) (attempts t) (due t - now) r of
             (may, v) \<Rightarrow>
               put i (t\<lparr>answers := answers t @ [Some r], may_have_executed := may,
                        pc := (case v of Conclude out \<Rightarrow> Finished out | Pause n \<Rightarrow> Pausing n)\<rparr>)
                 (give_back cfg s)))"

text \<open>A timeout or a cancellation at a suspension point that holds no permit.\<close>

definition interrupt :: "exn \<Rightarrow> nat \<Rightarrow> task \<Rightarrow> system \<Rightarrow> system" where
  "interrupt e i t s =
     put i (t\<lparr>pc := Finished (if is_timeout e then task_deadline t else Escaped e)\<rparr>) s"

definition apply_refresh :: "schema_check \<Rightarrow> response result \<Rightarrow> system \<Rightarrow> system \<times> policy option result" where
  "apply_refresh cs answer s =
     (case refresh cs answer s of
        (s1, notified, r) \<Rightarrow>
          let s2 = s1\<lparr>accepted := (case r of Inr (Some p) \<Rightarrow> if notified then p # accepted s else accepted s
                                          | _ \<Rightarrow> accepted s)\<rparr>
          in (if notified then notify_all s2 else s2, r))"

definition initial :: system where
  "initial = \<lparr>held_policy = None, active = 0, ready = False, closed = False, polling = False,
              tasks = [], accepted = []\<rparr>"

definition interruption :: "exn \<Rightarrow> bool" where
  "interruption e \<longleftrightarrow> is_timeout e \<or> e = CancelledError"

inductive step ::
  "config \<Rightarrow> schema_check \<Rightarrow> schema_validate \<Rightarrow> (rat \<Rightarrow> string) \<Rightarrow> system \<Rightarrow> system \<Rightarrow> bool"
  for cfg cs validate frepr where
  start: "call_setup s now later timeout dl = Inr (duration, ms) \<Longrightarrow> deadline_seconds ms = Inr (Fin d) \<Longrightarrow>
    step cfg cs validate frepr s (s\<lparr>tasks := tasks s @ [new_task name ps d ms]\<rparr>)"
| resume: "i < length (tasks s) \<Longrightarrow> t = tasks s ! i \<Longrightarrow> pc t = Woken \<Longrightarrow>
    step cfg cs validate frepr s (attempt cfg validate frepr i t s)"
| slept: "i < length (tasks s) \<Longrightarrow> t = tasks s ! i \<Longrightarrow> pc t = Pausing n \<Longrightarrow>
    step cfg cs validate frepr s (attempt cfg validate frepr i (t\<lparr>number := number t + 1\<rparr>) s)"
| answered: "i < length (tasks s) \<Longrightarrow> t = tasks s ! i \<Longrightarrow> pc t = InFlight descriptor \<Longrightarrow>
    step cfg cs validate frepr s (respond cfg now answer i t s)"
| dispatched: "i < length (tasks s) \<Longrightarrow> t = tasks s ! i \<Longrightarrow> pc t = InDispatcher descriptor \<Longrightarrow>
    r = snd (dispatch_call cs validate frepr loads clk uid peer (bearer cfg) descriptor (params t) 10 (due_ms t)) \<Longrightarrow>
    step cfg cs validate frepr s (put i (t\<lparr>pc := Finished (dispatcher_outcome r (attempts t))\<rparr>) s)"
| interrupted: "i < length (tasks s) \<Longrightarrow> t = tasks s ! i \<Longrightarrow>
    pc t \<in> {Asleep, Woken} \<or> (\<exists>n. pc t = Pausing n) \<or> (\<exists>d. pc t = InDispatcher d) \<Longrightarrow> interruption e \<Longrightarrow>
    step cfg cs validate frepr s (interrupt e i t s)"
| refreshed: "step cfg cs validate frepr s (fst (apply_refresh cs answer s))"
| entered: "apply_refresh cs answer s = (s', Inr v) \<Longrightarrow>
    step cfg cs validate frepr s (s'\<lparr>polling := True\<rparr>)"
| not_entered: "apply_refresh cs answer s = (s', Inl e) \<Longrightarrow>
    step cfg cs validate frepr s (notify_all (aclose s'))"
| close: "step cfg cs validate frepr s (notify_all (aclose s))"

inductive reachable ::
  "config \<Rightarrow> schema_check \<Rightarrow> schema_validate \<Rightarrow> (rat \<Rightarrow> string) \<Rightarrow> system \<Rightarrow> bool"
  for cfg cs validate frepr where
  init: "reachable cfg cs validate frepr initial"
| advance: "reachable cfg cs validate frepr s \<Longrightarrow> step cfg cs validate frepr s s' \<Longrightarrow>
    reachable cfg cs validate frepr s'"

subsection \<open>Invariants\<close>

definition in_flight :: "task \<Rightarrow> bool" where
  "in_flight t = (case pc t of InFlight _ \<Rightarrow> True | _ \<Rightarrow> False)"

definition holders :: "task list \<Rightarrow> int" where
  "holders ts = int (length (filter in_flight ts))"

definition weight :: "task \<Rightarrow> int" where
  "weight t = (if in_flight t then 1 else 0)"

lemma holders_simps [simp]: "holders [] = 0" "holders (t # ts) = weight t + holders ts"
  "holders (ts @ us) = holders ts + holders us"
  by (simp_all add: holders_def weight_def)

lemma holders_update: "i < length ts \<Longrightarrow> holders (ts[i := t]) = holders ts - weight (ts ! i) + weight t"
  by (induction ts arbitrary: i) (auto split: nat.splits)

lemma weight_wake [simp]: "weight (wake t) = weight t"
  by (simp add: weight_def in_flight_def wake_def)

lemma holders_wake [simp]: "holders (map wake ts) = holders ts"
  by (induction ts) auto

lemma holders_nonneg: "0 \<le> holders ts"
  by (simp add: holders_def)

definition shut :: "config \<Rightarrow> 'a client_scheme \<Rightarrow> bool" where
  "shut cfg c \<longleftrightarrow> \<not> closed c \<and>
     \<not> (ready c \<and> (case held_policy c of None \<Rightarrow> True | Some p \<Rightarrow> open_for cfg c p))"

lemma acquire_Blocked: "acquire cfg c name = Blocked \<longleftrightarrow> shut cfg c"
  by (auto simp: acquire_def shut_def split: option.splits)

lemma acquire_Granted: "acquire cfg c name = Granted d c1 \<Longrightarrow>
   \<not> closed c \<and> ready c \<and> \<not> shut cfg c \<and>
   (\<exists>p. held_policy c = Some p \<and> open_for cfg c p \<and> d \<in> set (operations_of p) \<and> field d ''name'' = JStr name) \<and>
   c1 = (if dispatched cfg then c else c\<lparr>active := active c + 1\<rparr>)"
  by (auto simp: acquire_def shut_def dest!: find_SomeD split: option.splits if_splits)

fun newest :: "'a list \<Rightarrow> 'a option" where
  "newest [] = None"
| "newest (x # _) = Some x"

definition gate_inv :: "config \<Rightarrow> schema_check \<Rightarrow> system \<Rightarrow> bool" where
  "gate_inv cfg cs s \<longleftrightarrow>
     active s = (if dispatched cfg then 0 else holders (tasks s)) \<and>
     (ready s \<longrightarrow> \<not> closed s \<and> accepted s \<noteq> []) \<and>
     policy_chain cs (accepted s) \<and>
     held_policy s = newest (accepted s)"

definition sleep_inv :: "config \<Rightarrow> system \<Rightarrow> bool" where
  "sleep_inv cfg s \<longleftrightarrow> (\<forall>t \<in> set (tasks s). pc t = Asleep \<longrightarrow> shut cfg s)"

definition retry_ok :: "response option \<Rightarrow> bool" where
  "retry_ok a = (case a of Some r \<Rightarrow> safe_to_retry r | None \<Rightarrow> False)"

definition rejected :: "response option \<Rightarrow> bool" where
  "rejected a = (case a of Some r \<Rightarrow> known_rejection r | None \<Rightarrow> False)"

text \<open>What the answers of a direct task say about its execution.\<close>

definition verdict_of :: "response option list \<Rightarrow> string" where
  "verdict_of as = (if list_all rejected as then ''not_started'' else ''unknown'')"

definition outcome_ok :: "response option list \<Rightarrow> outcome \<Rightarrow> bool" where
  "outcome_ok as out =
     (case out of
        Returned v \<Rightarrow> (\<exists>r. as \<noteq> [] \<and> last as = Some r \<and> is_success r \<and> resp_json r = Some v)
      | Failed f \<Rightarrow> fexecution f = verdict_of as \<and>
          (fattempts f = JInt (int (length as)) \<or>
           fattempts f = JInt 0 \<and> (fcode f = ''client_closed'' \<or> fcode f = ''operation_not_permitted''))
      | Deadline f \<Rightarrow> fexecution f = verdict_of as \<and> fattempts f = JInt (int (length as))
      | Escaped e \<Rightarrow> True)"

definition before :: "config \<Rightarrow> task \<Rightarrow> bool" where
  "before cfg t \<longleftrightarrow> \<not> may_have_executed t \<and> 1 \<le> number t \<and> number t \<le> 5 \<and>
     length (answers t) = number t - 1 \<and> attempts t = number t - 1 \<and> list_all retry_ok (answers t) \<and>
     submits t = 0 \<and> (dispatched cfg \<longrightarrow> number t = 1)"

definition task_inv :: "config \<Rightarrow> task \<Rightarrow> bool" where
  "task_inv cfg t =
     (case pc t of
        Asleep \<Rightarrow> before cfg t
      | Woken \<Rightarrow> before cfg t
      | InFlight d \<Rightarrow> \<not> dispatched cfg \<and> may_have_executed t \<and> 1 \<le> number t \<and> number t \<le> 5 \<and>
          length (answers t) = number t - 1 \<and> attempts t = number t \<and> list_all retry_ok (answers t) \<and> submits t = 0
      | InDispatcher d \<Rightarrow> dispatched cfg \<and> may_have_executed t \<and> answers t = [] \<and> attempts t = 0 \<and> submits t = 1
      | Pausing n \<Rightarrow> \<not> dispatched cfg \<and> \<not> may_have_executed t \<and> 1 \<le> number t \<and> number t < 5 \<and>
          length (answers t) = number t \<and> attempts t = number t \<and> list_all retry_ok (answers t) \<and> submits t = 0
      | Finished out \<Rightarrow> length (answers t) \<le> 5 \<and> list_all retry_ok (butlast (answers t)) \<and> submits t \<le> 1 \<and>
          (dispatched cfg \<longrightarrow> answers t = []) \<and> (\<not> dispatched cfg \<longrightarrow> submits t = 0 \<and> outcome_ok (answers t) out))"

lemma safe_is_known: "safe_to_retry r \<Longrightarrow> known_rejection r"
  by (auto simp: safe_to_retry_def known_rejection_def error_of_def field_def get_or_def get_def
      split: if_splits option.splits json.splits)

lemma retry_ok_rejected: "retry_ok a \<Longrightarrow> rejected a"
  by (auto simp: retry_ok_def rejected_def safe_is_known split: option.splits)

lemma verdict_of_retried: "list_all retry_ok as \<Longrightarrow> verdict_of as = ''not_started''"
  by (auto simp: verdict_of_def list_all_iff retry_ok_rejected)

lemma verdict_of_snoc:
  "list_all retry_ok as \<Longrightarrow> verdict_of (as @ [a]) = (if rejected a then ''not_started'' else ''unknown'')"
  by (auto simp: verdict_of_def list_all_iff retry_ok_rejected)

lemma success_not_rejected: "is_success r \<Longrightarrow> \<not> known_rejection r"
  by (auto simp: is_success_def known_rejection_def)

lemma settle_ok:
  assumes "settle n k left r = (may, v)" and "k = n" and "n \<le> 5"
    and "list_all retry_ok as" and "length as = n - 1" and "1 \<le> n"
  shows "case v of
      Conclude out \<Rightarrow> outcome_ok (as @ [Some r]) out
    | Pause q \<Rightarrow> \<not> may \<and> n < 5 \<and> safe_to_retry r"
proof (cases "is_success r")
  case True
  with assms show ?thesis
    by (auto simp: settle_def outcome_ok_def operation_error_def verdict_of_snoc rejected_def
        success_not_rejected split: option.splits)
next
  case False
  have k: "safe_to_retry r \<Longrightarrow> known_rejection r" by (rule safe_is_known)
  show ?thesis
  proof (cases "safe_to_retry r \<and> n \<noteq> 5")
    case True
    with assms False k show ?thesis
      by (auto simp: settle_def outcome_ok_def operation_error_def verdict_of_snoc rejected_def
          split: sum.splits if_splits)
  next
    case False
    with assms \<open>\<not> is_success r\<close> show ?thesis
      by (auto simp: settle_def Let_def outcome_ok_def operation_error_def verdict_of_snoc rejected_def)
  qed
qed

lemma refusal_codes:
  "acquire cfg c name = Refused f \<Longrightarrow>
     fexecution f = ''not_started'' \<and> fattempts f = JInt 0 \<and>
     (fcode f = ''client_closed'' \<or> fcode f = ''operation_not_permitted'')"
proof -
  have "clean_code (JStr ''client_closed'') = ''client_closed''"
    "clean_code (JStr ''operation_not_permitted'') = ''operation_not_permitted''" by code_simp+
  then show "acquire cfg c name = Refused f \<Longrightarrow> ?thesis"
    by (auto simp: acquire_def operation_error_def split: option.splits if_splits)
qed

lemma check_params_outcome:
  "check_params validate frepr d ps n = Some out \<Longrightarrow>
     (\<exists>f. out = Failed f \<and> fexecution f = ''not_started'' \<and> fattempts f = JInt (int n)) \<or> (\<exists>e. out = Escaped e)"
  by (auto simp: check_params_def operation_error_def split: sum.splits if_splits)

lemma refused_ok: "acquire cfg c name = Refused f \<Longrightarrow> verdict_of as = ''not_started'' \<Longrightarrow> outcome_ok as (Failed f)"
  using refusal_codes [of cfg c name f] by (simp add: outcome_ok_def)

lemma check_params_ok:
  "check_params validate frepr d ps n = Some out \<Longrightarrow> verdict_of as = ''not_started'' \<Longrightarrow> n = length as \<Longrightarrow>
     outcome_ok as out"
  by (elim disjE exE conjE check_params_outcome [elim_format]) (simp_all add: outcome_ok_def)

subsection \<open>Every task keeps its invariant\<close>

lemma task_inv_wake: "task_inv cfg (wake t) = task_inv cfg t"
  by (simp add: wake_def task_inv_def before_def)

lemma before_pc [simp]: "before cfg (t\<lparr>pc := q\<rparr>) = before cfg t"
  by (simp add: before_def)

lemma before_finished:
  assumes "before cfg t" and "outcome_ok (answers t) out"
  shows "task_inv cfg (t\<lparr>pc := Finished out\<rparr>)"
  using assms by (auto simp: task_inv_def before_def list_all_iff dest: in_set_butlastD)

lemma before_outcome: "before cfg t \<Longrightarrow> verdict_of (answers t) = ''not_started'' \<and> attempts t = length (answers t)"
  by (simp add: before_def verdict_of_retried)

lemma all_update: "\<forall>u \<in> set ts. P u \<Longrightarrow> P t \<Longrightarrow> \<forall>u \<in> set (ts[i := t]). P u"
  using set_update_subset_insert [of ts i t] by blast

lemma give_back_task_inv:
  "\<forall>u \<in> set (tasks s). task_inv cfg u \<Longrightarrow> \<forall>u \<in> set (tasks (give_back cfg s)). task_inv cfg u"
  by (auto simp: give_back_def notify_all_def release_def task_inv_wake)

lemma attempt_task_inv:
  assumes "\<forall>u \<in> set (tasks s). task_inv cfg u" and "before cfg t"
  shows "\<forall>u \<in> set (tasks (attempt cfg validate frepr i t s)). task_inv cfg u"
proof -
  note o = before_outcome [OF assms(2)]
  show ?thesis
  proof (cases "acquire cfg s (wanted t)")
    case Blocked
    have "task_inv cfg (t\<lparr>pc := Asleep\<rparr>)" using assms(2) by (simp add: task_inv_def)
    from Blocked all_update [OF assms(1) this] show ?thesis by (simp add: attempt_def put_def)
  next
    case (Refused f)
    then have "task_inv cfg (t\<lparr>pc := Finished (Failed f)\<rparr>)"
      using o by (intro before_finished assms refused_ok) simp_all
    from Refused all_update [OF assms(1) this] show ?thesis by (simp add: attempt_def put_def)
  next
    case (Crashed e)
    then have "task_inv cfg (t\<lparr>pc := Finished (Escaped e)\<rparr>)"
      by (intro before_finished assms) (simp add: outcome_ok_def)
    from Crashed all_update [OF assms(1) this] show ?thesis by (simp add: attempt_def put_def)
  next
    case (Granted d s1)
    then have s1: "tasks s1 = tasks s" by (auto dest!: acquire_Granted)
    show ?thesis
    proof (cases "check_params validate frepr d (params t) (attempts t)")
      case (Some out)
      then have "task_inv cfg (t\<lparr>pc := Finished out\<rparr>)"
        using o by (intro before_finished assms check_params_ok) simp_all
      have "\<forall>u \<in> set (tasks (give_back cfg s1)). task_inv cfg u"
        using assms(1) s1 by (intro give_back_task_inv) simp
      from all_update [OF this \<open>task_inv cfg (t\<lparr>pc := Finished out\<rparr>)\<close>] Granted Some
      show ?thesis by (simp add: attempt_def put_def)
    next
      case None
      let ?d = "t\<lparr>may_have_executed := True, pc := InDispatcher d, submits := submits t + 1\<rparr>"
      let ?f = "t\<lparr>attempts := number t, may_have_executed := True, pc := InFlight d\<rparr>"
      show ?thesis
      proof (cases "dispatched cfg")
        case True
        then have "task_inv cfg ?d" using assms(2) unfolding before_def by (auto simp: task_inv_def)
        from all_update [OF assms(1) this] True Granted None s1 show ?thesis by (simp add: attempt_def put_def)
      next
        case False
        then have "task_inv cfg ?f" using assms(2) unfolding before_def by (auto simp: task_inv_def)
        from all_update [OF assms(1) this] False Granted None s1 show ?thesis by (simp add: attempt_def put_def)
      qed
    qed
  qed
qed

lemma flight_ok:
  assumes "task_inv cfg t" and "pc t = InFlight d"
  shows "\<not> dispatched cfg" "may_have_executed t" "1 \<le> number t" "number t \<le> 5"
    "length (answers t) = number t - 1" "attempts t = number t" "list_all retry_ok (answers t)" "submits t = 0"
  using assms by (simp_all add: task_inv_def)

lemma respond_task_inv:
  assumes "\<forall>u \<in> set (tasks s). task_inv cfg u" and "task_inv cfg t" and "pc t = InFlight d"
  shows "\<forall>u \<in> set (tasks (respond cfg now answer i t s)). task_inv cfg u"
proof -
  note F = flight_ok [OF assms(2,3)]
  note S = all_update [OF give_back_task_inv [OF assms(1)]]
  have bl: "list_all retry_ok (butlast (answers t @ [a]))" "length (answers t @ [a]) \<le> 5"
    "length (answers t @ [a]) = attempts t" for a using F by auto
  show ?thesis
  proof (cases answer)
    case (Inl e)
    let ?out = "if is_http_error e \<or> is_protocol_error e
             then Failed (operation_error (JStr ''transport_error'') ''unknown'' JNull (JInt (int (attempts t))))
             else if is_timeout e then task_deadline t else Escaped e"
    have "verdict_of (answers t @ [None]) = ''unknown''"
      using F(7) by (simp add: verdict_of_snoc rejected_def)
    then have "outcome_ok (answers t @ [None]) ?out"
      using F(2) bl(3) [of None] by (simp add: outcome_ok_def operation_error_def task_deadline_def)
    then have "task_inv cfg (t\<lparr>answers := answers t @ [None], pc := Finished ?out\<rparr>)"
      using F(1,8) bl(1,2) [of None] by (simp add: task_inv_def)
    from S [OF this] Inl show ?thesis by (simp add: respond_def put_def)
  next
    case (Inr r)
    obtain may v where mv: "settle (number t) (attempts t) (due t - now) r = (may, v)" by fastforce
    note ok = settle_ok [OF mv F(6,4,7,5,3)]
    let ?t = "t\<lparr>answers := answers t @ [Some r], may_have_executed := may,
                 pc := (case v of Conclude out \<Rightarrow> Finished out | Pause n \<Rightarrow> Pausing n)\<rparr>"
    have "task_inv cfg ?t"
    proof (cases v)
      case (Conclude out)
      then show ?thesis using ok F(1,8) bl(1,2) [of "Some r"] by (simp add: task_inv_def)
    next
      case (Pause n)
      then have "\<not> may" "number t < 5" "safe_to_retry r" using ok by simp_all
      then show ?thesis using Pause F bl(3) [of "Some r"] by (simp add: task_inv_def retry_ok_def)
    qed
    from S [OF this] Inr mv show ?thesis by (simp add: respond_def put_def)
  qed
qed

lemma interrupt_task_inv:
  assumes "\<forall>u \<in> set (tasks s). task_inv cfg u" and "task_inv cfg t"
    and "pc t \<in> {Asleep, Woken} \<or> (\<exists>n. pc t = Pausing n) \<or> (\<exists>d. pc t = InDispatcher d)"
  shows "\<forall>u \<in> set (tasks (interrupt e i t s)). task_inv cfg u"
proof -
  have "task_inv cfg (t\<lparr>pc := Finished (if is_timeout e then task_deadline t else Escaped e)\<rparr>)"
    using assms(3)
  proof (elim disjE exE)
    fix d assume "pc t = InDispatcher d"
    with assms(2) show ?thesis by (simp add: task_inv_def)
  next
    fix n assume "pc t = Pausing n"
    with assms(2) show ?thesis
      by (auto simp: task_inv_def outcome_ok_def task_deadline_def operation_error_def
          verdict_of_retried list_all_iff dest: in_set_butlastD)
  next
    assume "pc t \<in> {Asleep, Woken}"
    then have b: "before cfg t" using assms(2) by (auto simp: task_inv_def)
    then have "\<not> may_have_executed t" by (simp add: before_def)
    with before_outcome [OF b] show ?thesis
      by (intro before_finished b) (simp add: outcome_ok_def task_deadline_def operation_error_def)
  qed
  from all_update [OF assms(1) this] show ?thesis by (simp add: interrupt_def put_def)
qed

lemma apply_refresh_cases:
  obtains (applied) p where "fetched_policy cs answer (held_policy s) = Inr p" "\<not> closed s"
      "apply_refresh cs answer s =
         (notify_all (s\<lparr>held_policy := Some p, ready := True, accepted := p # accepted s\<rparr>), Inr (Some p))"
  | (ignored) "closed s" "apply_refresh cs answer s = (s, Inr (held_policy s))"
  | (paused) e where "fetched_policy cs answer (held_policy s) = Inl e" "refresh_caught e"
      "apply_refresh cs answer s = (notify_all (s\<lparr>ready := False\<rparr>),
         Inl (if e = CancelledError then e else ProtocolError ''Policy refresh failed''))"
  | (escaped) e where "fetched_policy cs answer (held_policy s) = Inl e" "\<not> refresh_caught e"
      "apply_refresh cs answer s = (s, Inl e)"
proof (cases "fetched_policy cs answer (held_policy s)")
  case (Inl e)
  then show thesis using paused [of e] escaped [of e]
    by (cases "refresh_caught e") (simp_all add: apply_refresh_def refresh_def notify_all_def)
next
  case (Inr p)
  show thesis
  proof (cases "closed s")
    case True
    with Inr show thesis
      by (intro ignored) (auto simp: apply_refresh_def refresh_def notify_all_def split: option.splits)
  next
    case False
    with Inr show thesis
      by (intro applied [of p]) (simp_all add: apply_refresh_def refresh_def notify_all_def)
  qed
qed

lemma apply_refresh_tasks:
  "apply_refresh cs answer s = (s', r) \<Longrightarrow> tasks s' = tasks s \<or> tasks s' = map wake (tasks s)"
  by (cases rule: apply_refresh_cases [of cs answer s]) (auto simp: notify_all_def)

lemma apply_refresh_task_inv:
  assumes "\<forall>u \<in> set (tasks s). task_inv cfg u" and "apply_refresh cs answer s = (s', r)"
  shows "\<forall>u \<in> set (tasks s'). task_inv cfg u"
  using apply_refresh_tasks [OF assms(2)] assms(1) by (auto simp: task_inv_wake)

lemma step_task_inv:
  assumes "step cfg cs validate frepr s s'" and inv: "\<forall>u \<in> set (tasks s). task_inv cfg u"
  shows "\<forall>u \<in> set (tasks s'). task_inv cfg u"
  using assms(1)
proof cases
  case (start now later timeout dl duration ms d name ps)
  have "task_inv cfg (new_task name ps d ms)" by (simp add: task_inv_def new_task_def before_def)
  with start(1) inv show ?thesis by simp
next
  case (resume i t)
  have "task_inv cfg t" using inv resume(2,3) by simp
  with resume(4) have "before cfg t" by (simp add: task_inv_def)
  then show ?thesis unfolding resume(1) by (rule attempt_task_inv [OF inv])
next
  case (slept i t n)
  have "task_inv cfg t" using inv slept(2,3) by simp
  with slept(4) have "before cfg (t\<lparr>number := number t + 1\<rparr>)" by (simp add: task_inv_def before_def)
  then show ?thesis unfolding slept(1) by (rule attempt_task_inv [OF inv])
next
  case (answered i t d now answer)
  have "task_inv cfg t" using inv answered(2,3) by simp
  then show ?thesis unfolding answered(1) by (rule respond_task_inv [OF inv _ answered(4)])
next
  case (dispatched i t d r loads clk uid peer)
  have "task_inv cfg t" using inv dispatched(2,3) by simp
  with dispatched(4) have "task_inv cfg (t\<lparr>pc := Finished (dispatcher_outcome r (attempts t))\<rparr>)"
    by (simp add: task_inv_def)
  from all_update [OF inv this] dispatched(1) show ?thesis by (simp add: put_def)
next
  case (interrupted i t e)
  have "task_inv cfg t" using inv interrupted(2,3) by simp
  then show ?thesis unfolding interrupted(1) by (rule interrupt_task_inv [OF inv _ interrupted(4)])
next
  case (refreshed answer)
  show ?thesis
    unfolding refreshed by (rule apply_refresh_task_inv [OF inv, of cs answer _ "snd (apply_refresh cs answer s)"]) simp
next
  case (entered answer s1 v)
  with apply_refresh_task_inv [OF inv] show ?thesis by simp
next
  case (not_entered answer s1 e)
  with apply_refresh_task_inv [OF inv] show ?thesis by (auto simp: notify_all_def aclose_def task_inv_wake)
next
  case close
  with inv show ?thesis by (auto simp: notify_all_def aclose_def task_inv_wake)
qed

lemma reachable_task_inv: "reachable cfg cs validate frepr s \<Longrightarrow> \<forall>u \<in> set (tasks s). task_inv cfg u"
proof (induction rule: reachable.induct)
  case init
  show ?case by (simp add: initial_def)
next
  case (advance s s')
  show ?case by (rule step_task_inv [OF advance.hyps(2) advance.IH])
qed

end
