(* ===== verification/Client_Safety.thy ===== *)
theory Client_Safety
  imports Client_Run
begin

text \<open>
  What every reachable state of a client guarantees: the permit count, the readiness flag, the
  policy history and the sleepers (\<open>gate_inv\<close>, \<open>sleep_inv\<close>), the retry contract of a call, and the
  properties read off these invariants.
\<close>

subsection \<open>The gate\<close>

lemma weight_pc [simp]:
  "weight (t\<lparr>pc := Asleep\<rparr>) = 0" "weight (t\<lparr>pc := Finished out\<rparr>) = 0" "weight (t\<lparr>pc := Pausing n\<rparr>) = 0"
  "weight (t\<lparr>pc := InDispatcher d\<rparr>) = 0" "weight (t\<lparr>pc := InFlight d\<rparr>) = 1"
  by (simp_all add: weight_def in_flight_def)

lemma weight_other [simp]:
  "weight (t\<lparr>submits := k\<rparr>) = weight t" "weight (t\<lparr>attempts := k\<rparr>) = weight t"
  "weight (t\<lparr>may_have_executed := b\<rparr>) = weight t" "weight (t\<lparr>answers := as\<rparr>) = weight t"
  "weight (t\<lparr>number := k\<rparr>) = weight t"
  by (simp_all add: weight_def in_flight_def)

lemma weight_ghost [simp]:
  "weight (t\<lparr>pc := InDispatcher d, submits := k\<rparr>) = 0"
  by (simp add: weight_def in_flight_def)

definition same_gate :: "system \<Rightarrow> system \<Rightarrow> bool" where
  "same_gate s s' \<longleftrightarrow> held_policy s' = held_policy s \<and> ready s' = ready s \<and> closed s' = closed s \<and>
     accepted s' = accepted s"

lemma same_gateD:
  "same_gate s s' \<Longrightarrow> gate_inv cfg cs s \<Longrightarrow>
   active s' = (if dispatched cfg then 0 else holders (tasks s')) \<Longrightarrow> gate_inv cfg cs s'"
  unfolding same_gate_def gate_inv_def by simp

lemma give_back_gate:
  "same_gate s (give_back cfg s)" "length (tasks (give_back cfg s)) = length (tasks s)"
  "active (give_back cfg s) = (if dispatched cfg then active s else active s - 1)"
  "holders (tasks (give_back cfg s)) = holders (tasks s)"
  "i < length (tasks s) \<Longrightarrow> weight (tasks (give_back cfg s) ! i) = weight (tasks s ! i)"
  by (simp_all add: same_gate_def give_back_def notify_all_def release_def)

lemma put_gate [simp]:
  "same_gate s (put i t s') = same_gate s s'" "active (put i t s) = active s"
  "tasks (put i t s) = (tasks s)[i := t]"
  by (simp_all add: same_gate_def put_def)

lemma same_gate_refl [simp]: "same_gate s s"
  by (simp add: same_gate_def)

text \<open>One attempt: the gate fields stay, and the permit count follows the tasks.\<close>

lemma attempt_gate:
  assumes "i < length (tasks s)" and "weight (tasks s ! i) = 0"
    and "active s = (if dispatched cfg then 0 else holders (tasks s))"
  shows "same_gate s (attempt cfg validate frepr i t s) \<and>
    active (attempt cfg validate frepr i t s) =
      (if dispatched cfg then 0 else holders (tasks (attempt cfg validate frepr i t s)))"
proof (cases "acquire cfg s (wanted t)")
  case (Granted d s1)
  then have s1: "s1 = (if dispatched cfg then s else s\<lparr>active := active s + 1\<rparr>)"
    by (auto dest!: acquire_Granted)
  then have g: "same_gate s s1" "tasks s1 = tasks s" by (simp_all add: same_gate_def)
  show ?thesis
  proof (cases "check_params validate frepr d (params t) (attempts t)")
    case None
    with Granted g s1 assms show ?thesis
      by (cases "dispatched cfg") (simp_all add: attempt_def holders_update)
  next
    case (Some out)
    have "same_gate s (give_back cfg s1)" using g give_back_gate(1) [of s1 cfg] by (simp add: same_gate_def)
    with Granted Some g s1 assms show ?thesis
      by (simp add: attempt_def holders_update give_back_gate)
  qed
qed (use assms in \<open>simp_all add: attempt_def holders_update\<close>)

lemma respond_gate:
  assumes "i < length (tasks s)" and "weight (tasks s ! i) = 1" and "\<not> dispatched cfg"
    and "active s = holders (tasks s)"
  shows "same_gate s (respond cfg now answer i t s) \<and>
    active (respond cfg now answer i t s) = holders (tasks (respond cfg now answer i t s))"
  using assms give_back_gate(1) [of s cfg]
  by (auto simp: respond_def holders_update give_back_gate split: sum.splits prod.splits verdict.splits)

lemma interrupt_gate:
  assumes "i < length (tasks s)" and "weight (tasks s ! i) = 0"
  shows "same_gate s (interrupt e i t s) \<and> active (interrupt e i t s) = active s \<and>
    holders (tasks (interrupt e i t s)) = holders (tasks s)"
  using assms by (simp add: interrupt_def holders_update)

lemma notify_gate [simp]:
  "held_policy (notify_all s) = held_policy s" "ready (notify_all s) = ready s" "closed (notify_all s) = closed s"
  "active (notify_all s) = active s" "accepted (notify_all s) = accepted s" "polling (notify_all s) = polling s"
  "tasks (notify_all s) = map wake (tasks s)"
  by (simp_all add: notify_all_def)

lemma fetched_policyD:
  "fetched_policy cs answer previous = Inr p \<Longrightarrow> validate_policy cs (JDict p) previous = Inr p"
  by (auto simp: fetched_policy_def result_simps validate_policy_Inr_iff)

lemma newest_chain:
  "policy_chain cs ps \<Longrightarrow> validate_policy cs (JDict p) (newest ps) = Inr p \<Longrightarrow> policy_chain cs (p # ps)"
  by (cases ps) auto

lemma refresh_gate_inv:
  assumes "gate_inv cfg cs s" and "apply_refresh cs answer s = (s', r)"
  shows "gate_inv cfg cs s'"
proof (cases rule: apply_refresh_cases [of cs answer s])
  case (applied p)
  then have "policy_chain cs (p # accepted s)"
    using assms(1) by (intro newest_chain) (auto simp: gate_inv_def dest: fetched_policyD)
  with applied assms show ?thesis by (auto simp: gate_inv_def)
qed (use assms in \<open>auto simp: gate_inv_def\<close>)

lemma close_gate_inv: "gate_inv cfg cs s \<Longrightarrow> gate_inv cfg cs (notify_all (aclose s))"
  by (simp add: gate_inv_def aclose_def)

lemma step_gate_inv:
  assumes "step cfg cs validate frepr s s'" and inv: "gate_inv cfg cs s"
    and ti: "\<forall>u \<in> set (tasks s). task_inv cfg u"
  shows "gate_inv cfg cs s'"
proof -
  have act: "active s = (if dispatched cfg then 0 else holders (tasks s))" using inv by (simp add: gate_inv_def)
  from assms(1) show ?thesis
  proof cases
    case (start now later timeout dl duration ms d name ps)
    with inv show ?thesis by (intro same_gateD [OF _ inv]) (simp_all add: act same_gate_def new_task_def weight_def in_flight_def)
  next
    case (resume i t)
    then have "weight (tasks s ! i) = 0" by (simp add: weight_def in_flight_def)
    with attempt_gate [OF resume(2) _ act] show ?thesis unfolding resume(1) by (intro same_gateD [OF _ inv]) blast+
  next
    case (slept i t n)
    then have "weight (tasks s ! i) = 0" by (simp add: weight_def in_flight_def)
    with attempt_gate [OF slept(2) _ act] show ?thesis unfolding slept(1) by (intro same_gateD [OF _ inv]) blast+
  next
    case (answered i t d now answer)
    then have "\<not> dispatched cfg" using ti by (intro flight_ok(1) [of cfg t d]) simp_all
    moreover have "weight (tasks s ! i) = 1" using answered by (simp add: weight_def in_flight_def)
    ultimately have "same_gate s s' \<and> active s' = holders (tasks s')"
      unfolding answered(1) using act by (intro respond_gate answered(2)) simp_all
    with \<open>\<not> dispatched cfg\<close> show ?thesis by (intro same_gateD [OF _ inv]) simp_all
  next
    case (dispatched i t d r loads clk uid peer)
    then have "weight (tasks s ! i) = 0" by (simp add: weight_def in_flight_def)
    with dispatched act show ?thesis by (intro same_gateD [OF _ inv]) (simp_all add: holders_update)
  next
    case (interrupted i t e)
    then have "weight (tasks s ! i) = 0" by (auto simp: weight_def in_flight_def)
    with interrupt_gate [OF interrupted(2), of e t] act show ?thesis
      unfolding interrupted(1) by (intro same_gateD [OF _ inv]) simp_all
  next
    case (refreshed answer)
    show ?thesis unfolding refreshed
      by (rule refresh_gate_inv [OF inv, of answer _ "snd (apply_refresh cs answer s)"]) simp
  next
    case (entered answer s1 v)
    with refresh_gate_inv [OF inv entered(2)] show ?thesis by (simp add: gate_inv_def)
  next
    case (not_entered answer s1 e)
    with refresh_gate_inv [OF inv not_entered(2)] show ?thesis by (simp add: close_gate_inv)
  next
    case close
    with inv show ?thesis by (simp add: close_gate_inv)
  qed
qed

lemma reachable_gate_inv: "reachable cfg cs validate frepr s \<Longrightarrow> gate_inv cfg cs s"
proof (induction rule: reachable.induct)
  case init
  show ?case by (simp add: initial_def gate_inv_def)
next
  case (advance s s')
  show ?case
    by (rule step_gate_inv [OF advance.hyps(2) advance.IH reachable_task_inv [OF advance.hyps(1)]])
qed

subsection \<open>The sleepers\<close>

lemma shut_same: "same_gate s s' \<Longrightarrow> active s' = active s \<Longrightarrow> shut cfg s' = shut cfg s"
  by (simp add: shut_def same_gate_def open_for_def split: option.splits)

definition none_asleep :: "task list \<Rightarrow> bool" where
  "none_asleep ts \<longleftrightarrow> (\<forall>t \<in> set ts. pc t \<noteq> Asleep)"

lemma none_asleep_wake [simp]: "none_asleep (map wake ts)"
  by (auto simp: none_asleep_def wake_def)

lemma none_asleep_update: "none_asleep ts \<Longrightarrow> pc t \<noteq> Asleep \<Longrightarrow> none_asleep (ts[i := t])"
  unfolding none_asleep_def by (rule all_update)

lemma none_asleep_inv: "none_asleep (tasks s) \<Longrightarrow> sleep_inv cfg s"
  by (simp add: none_asleep_def sleep_inv_def)

lemma sleep_inv_shut: "shut cfg s \<Longrightarrow> sleep_inv cfg s"
  by (simp add: sleep_inv_def)

lemma sleep_inv_cases: "sleep_inv cfg s \<longleftrightarrow> shut cfg s \<or> none_asleep (tasks s)"
  by (auto simp: sleep_inv_def none_asleep_def)

lemma put_sleep_inv: "sleep_inv cfg s \<Longrightarrow> pc t \<noteq> Asleep \<or> shut cfg s \<Longrightarrow> sleep_inv cfg (put i t s)"
  using shut_same [of s "put i t s" cfg] none_asleep_update [of "tasks s" t i]
  by (auto simp: sleep_inv_cases)

lemma give_back_sleep_inv: "sleep_inv cfg s \<or> \<not> dispatched cfg \<Longrightarrow> sleep_inv cfg (give_back cfg s)"
  by (auto simp: give_back_def intro: none_asleep_inv)

lemma attempt_sleep_inv:
  assumes "sleep_inv cfg s"
  shows "sleep_inv cfg (attempt cfg validate frepr i t s)"
proof (cases "acquire cfg s (wanted t)")
  case Blocked
  then have "shut cfg s" by (simp add: acquire_Blocked)
  with Blocked show ?thesis using assms by (simp add: attempt_def put_sleep_inv)
next
  case (Granted d s1)
  then have s1: "s1 = (if dispatched cfg then s else s\<lparr>active := active s + 1\<rparr>)" "\<not> shut cfg s"
    by (auto dest!: acquire_Granted)
  then have "none_asleep (tasks s1)" using assms by (simp add: sleep_inv_cases)
  then have "sleep_inv cfg s1" by (rule none_asleep_inv)
  then show ?thesis using Granted
    by (auto simp: attempt_def intro!: put_sleep_inv give_back_sleep_inv split: option.splits)
qed (use assms in \<open>simp_all add: attempt_def put_sleep_inv\<close>)

lemma refresh_sleep_inv:
  assumes "sleep_inv cfg s" and "apply_refresh cs answer s = (s', r)"
  shows "sleep_inv cfg s'"
proof -
  have "none_asleep (tasks s') \<or> s' = s"
    using assms(2) by (cases rule: apply_refresh_cases [of cs answer s]) auto
  with assms(1) show ?thesis by (auto intro: none_asleep_inv)
qed

lemma step_sleep_inv:
  assumes "step cfg cs validate frepr s s'" and inv: "sleep_inv cfg s"
  shows "sleep_inv cfg s'"
  using assms(1)
proof cases
  case (start now later timeout dl duration ms d name ps)
  have "shut cfg s' = shut cfg s" unfolding start(1) by (simp add: shut_def open_for_def split: option.splits)
  with start(1) inv show ?thesis by (auto simp: sleep_inv_def new_task_def)
next
  case (resume i t)
  with inv show ?thesis by (simp add: attempt_sleep_inv)
next
  case (slept i t n)
  with inv show ?thesis by (simp add: attempt_sleep_inv)
next
  case (answered i t d now answer)
  show ?thesis unfolding answered(1) respond_def
    using give_back_sleep_inv [of cfg s] inv
    by (auto intro!: put_sleep_inv split: sum.splits prod.splits verdict.splits)
next
  case (dispatched i t d r loads clk uid peer)
  with inv show ?thesis by (simp add: put_sleep_inv)
next
  case (interrupted i t e)
  with inv show ?thesis by (simp add: interrupt_def put_sleep_inv)
next
  case (refreshed answer)
  show ?thesis unfolding refreshed
    by (rule refresh_sleep_inv [OF inv, of cs answer _ "snd (apply_refresh cs answer s)"]) simp
next
  case (entered answer s1 v)
  have "shut cfg s' = shut cfg s1" unfolding entered(1) by (simp add: shut_def open_for_def split: option.splits)
  with refresh_sleep_inv [OF inv entered(2)] show ?thesis by (simp add: sleep_inv_def entered(1))
next
  case (not_entered answer s1 e)
  then show ?thesis by (intro none_asleep_inv) simp
next
  case close
  then show ?thesis by (intro none_asleep_inv) simp
qed

lemma reachable_sleep_inv: "reachable cfg cs validate frepr s \<Longrightarrow> sleep_inv cfg s"
proof (induction rule: reachable.induct)
  case init
  show ?case by (simp add: initial_def sleep_inv_def)
next
  case (advance s s')
  show ?case by (rule step_sleep_inv [OF advance.hyps(2) advance.IH])
qed

subsection \<open>Admission\<close>

lemma attempt_active:
  assumes "active (attempt cfg validate frepr i t s) \<noteq> active s"
  shows "ready s \<and> \<not> closed s \<and> \<not> dispatched cfg \<and> active (attempt cfg validate frepr i t s) = active s + 1 \<and>
    (\<exists>p. held_policy s = Some p \<and> active s < limit_of p)"
proof (cases "acquire cfg s (wanted t)")
  case (Granted d s1)
  from acquire_Granted [OF this] have g: "ready s" "\<not> closed s"
    and s1: "s1 = (if dispatched cfg then s else s\<lparr>active := active s + 1\<rparr>)"
    and p: "\<exists>p. held_policy s = Some p \<and> open_for cfg s p" by blast+
  have a: "active s1 = (if dispatched cfg then active s else active s + 1)" using s1 by simp
  show ?thesis
  proof (cases "check_params validate frepr d (params t) (attempts t)")
    case None
    with assms Granted a have "\<not> dispatched cfg" by (auto simp: attempt_def split: if_splits)
    with g p a Granted None show ?thesis by (auto simp: attempt_def open_for_def)
  next
    case (Some out)
    with assms Granted a show ?thesis by (simp add: attempt_def give_back_gate split: if_splits)
  qed
qed (use assms in \<open>simp_all add: attempt_def\<close>)

lemma step_admission:
  assumes "step cfg cs validate frepr s s'" and "active s < active s'"
  shows "ready s \<and> \<not> closed s \<and> active s' = active s + 1 \<and>
    (\<exists>p. held_policy s = Some p \<and> active s' \<le> limit_of p)"
  using assms(1)
proof cases
  case (resume i t)
  with assms(2) attempt_active [of cfg validate frepr i t s] show ?thesis by auto
next
  case (slept i t n)
  with assms(2) attempt_active [of cfg validate frepr i "t\<lparr>number := number t + 1\<rparr>" s] show ?thesis by auto
next
  case (answered i t d now answer)
  have "active s' \<le> active s" unfolding answered(1) respond_def
    by (auto simp: give_back_gate split: sum.splits prod.splits)
  with assms(2) show ?thesis by simp
next
  case (refreshed answer)
  then have "active s' = active s" by (cases rule: apply_refresh_cases [of cs answer s]) auto
  with assms(2) show ?thesis by simp
next
  case (entered answer s1 v)
  then have "active s' = active s" by (cases rule: apply_refresh_cases [of cs answer s]) auto
  with assms(2) show ?thesis by simp
next
  case (not_entered answer s1 e)
  then have "active s' = active s" by (cases rule: apply_refresh_cases [of cs answer s]) (auto simp: aclose_def)
  with assms(2) show ?thesis by simp
qed (use assms(2) in \<open>simp_all add: interrupt_def aclose_def\<close>)

subsection \<open>A sample run\<close>

text \<open>Discovery with a limit of one, two calls, the first of which is answered. The witnesses below
  evaluate these states.\<close>

definition direct_config :: config where
  "direct_config = \<lparr>origin = ''http://h'', bearer = ''t'', dispatched = False, maximum_body = 1000\<rparr>"

definition policy_answer :: response where
  "policy_answer = \<lparr>status_code = 200, resp_json = Some (JDict (sample_policy 4 1)), retry_after = None\<rparr>"

definition seven_answer :: response where
  "seven_answer = \<lparr>status_code = 200, resp_json = Some (JInt 7), retry_after = None\<rparr>"

definition missing_answer :: response where
  "missing_answer = \<lparr>status_code = 404, resp_json = None, retry_after = None\<rparr>"

abbreviation no_check :: schema_check where "no_check \<equiv> \<lambda>_. None"
abbreviation no_validate :: schema_validate where "no_validate \<equiv> \<lambda>_ _. None"
abbreviation no_floats :: "rat \<Rightarrow> string" where "no_floats \<equiv> \<lambda>_. ''0.5''"

definition sample_task :: task where
  "sample_task = new_task ''get_product'' JNull 120 (JFloat (Fin 120000))"

definition sample_discovered :: system where
  "sample_discovered = fst (apply_refresh no_check (Inr policy_answer) initial)"

definition sample_started :: system where
  "sample_started = sample_discovered\<lparr>tasks := [sample_task, sample_task]\<rparr>"

definition sample_sent :: system where
  "sample_sent = attempt direct_config no_validate no_floats 0 (tasks sample_started ! 0) sample_started"

definition sample_waiting :: system where
  "sample_waiting = attempt direct_config no_validate no_floats 1 (tasks sample_sent ! 1) sample_sent"

definition sample_finished :: "response \<Rightarrow> system" where
  "sample_finished r = respond direct_config 0 (Inr r) 0 (tasks sample_waiting ! 0) sample_waiting"

abbreviation sample_reachable :: "system \<Rightarrow> bool" where
  "sample_reachable \<equiv> reachable direct_config no_check no_validate no_floats"

lemma sample_started_reachable: "sample_reachable sample_started"
proof -
  have a: "sample_reachable sample_discovered"
    unfolding sample_discovered_def by (rule reachable.advance [OF reachable.init step.refreshed])
  let ?s = "sample_discovered\<lparr>tasks := tasks sample_discovered @ [sample_task]\<rparr>"
  have d: "deadline_seconds (JFloat (Fin 120000)) = Inr (Fin 120)" by code_simp
  have c1: "call_setup sample_discovered 0 0 (JInt 120) JNull = Inr (120, JFloat (Fin 120000))" by code_simp
  have b: "sample_reachable ?s"
    unfolding sample_task_def by (rule reachable.advance [OF a step.start [OF c1 d]])
  have c2: "call_setup ?s 0 0 (JInt 120) JNull = Inr (120, JFloat (Fin 120000))"
    using c1 by (simp add: call_setup_def)
  have "sample_reachable (?s\<lparr>tasks := tasks ?s @ [sample_task]\<rparr>)"
    unfolding sample_task_def by (rule reachable.advance [OF b [unfolded sample_task_def] step.start [OF c2 [unfolded sample_task_def] d]])
  moreover have "tasks sample_discovered = []"
    by (cases rule: apply_refresh_cases [of no_check "Inr policy_answer" initial])
      (simp_all add: sample_discovered_def initial_def)
  ultimately show ?thesis by (simp add: sample_started_def)
qed

lemma sample_pcs:
  "length (tasks sample_started) = 2" "pc (tasks sample_started ! 0) = Woken"
  "length (tasks sample_sent) = 2" "pc (tasks sample_sent ! 0) = InFlight sample_operation" "pc (tasks sample_sent ! Suc 0) = Woken"
  "length (tasks sample_waiting) = 2" "pc (tasks sample_waiting ! 0) = InFlight sample_operation"
  "pc (tasks sample_waiting ! Suc 0) = Asleep"
  by code_simp+

lemma sample_sent_step: "step direct_config no_check no_validate no_floats sample_started sample_sent"
  unfolding sample_sent_def by (rule step.resume) (simp_all add: sample_pcs)

lemma sample_waiting_reachable: "sample_reachable sample_waiting"
proof -
  have "sample_reachable sample_sent" by (rule reachable.advance [OF sample_started_reachable sample_sent_step])
  moreover have "step direct_config no_check no_validate no_floats sample_sent sample_waiting"
    unfolding sample_waiting_def by (rule step.resume) (simp_all add: sample_pcs)
  ultimately show ?thesis by (rule reachable.advance)
qed

lemma sample_finished_reachable: "sample_reachable (sample_finished r)"
  unfolding sample_finished_def
  by (rule reachable.advance [OF sample_waiting_reachable step.answered]) (simp_all add: sample_pcs)

subsection \<open>Properties of the gate\<close>

text \<open>
  A permit is only taken through an open gate: whenever a step of the system raises
  the number of active attempts, it raises it by one, the client is ready and not closed, and the
  new count is within the limit of the policy currently held.
\<close>

theorem client_admission:
  assumes "step cfg cs validate frepr s s'" and "active s < active s'"
  shows "ready s \<and> \<not> closed s \<and> active s' = active s + 1 \<and>
    (\<exists>p. held_policy s = Some p \<and> active s' \<le> limit_of p)"
  using assms by (rule step_admission)

theorem client_admission_witness:
  "active sample_sent = 1 \<and> (\<exists>p. held_policy sample_started = Some p \<and> active sample_sent \<le> limit_of p)"
proof -
  have a: "active sample_started = 0" "active sample_sent = 1" by code_simp+
  then have "active sample_started < active sample_sent" by simp
  from client_admission [OF sample_sent_step this] a show ?thesis by simp
qed

lemma attempt_same: "same_gate s (attempt cfg validate frepr i t s)"
proof (cases "acquire cfg s (wanted t)")
  case (Granted d s1)
  then have "s1 = (if dispatched cfg then s else s\<lparr>active := active s + 1\<rparr>)" by (auto dest!: acquire_Granted)
  then have "same_gate s s1" by (simp add: same_gate_def)
  moreover from this have "same_gate s (give_back cfg s1)"
    using give_back_gate(1) [of s1 cfg] by (simp add: same_gate_def)
  ultimately show ?thesis using Granted by (auto simp: attempt_def split: option.splits)
qed (simp_all add: attempt_def)

lemma respond_same: "same_gate s (respond cfg now answer i t s)"
  using give_back_gate(1) [of s cfg] by (auto simp: respond_def split: sum.splits prod.splits)

lemma interrupt_same: "same_gate s (interrupt e i t s)"
  by (simp add: interrupt_def)

text \<open>Only a refresh changes the policy, and only \<open>aclose\<close> closes.\<close>

lemma step_accepted:
  assumes "step cfg cs validate frepr s s'"
  shows "set (accepted s) \<subseteq> set (accepted s')" and "closed s \<Longrightarrow> closed s'"
proof -
  have "set (accepted s) \<subseteq> set (accepted s') \<and> (closed s \<longrightarrow> closed s')"
    using assms
  proof cases
    case (resume i t)
    with attempt_same [of s cfg validate frepr i t] show ?thesis by (simp add: same_gate_def)
  next
    case (slept i t n)
    with attempt_same [of s cfg validate frepr i] show ?thesis by (simp add: same_gate_def)
  next
    case (answered i t d now answer)
    with respond_same [of s cfg now answer i t] show ?thesis by (simp add: same_gate_def)
  next
    case (interrupted i t e)
    with interrupt_same [of s e i t] show ?thesis by (simp add: same_gate_def)
  next
    case (refreshed answer)
    then show ?thesis by (cases rule: apply_refresh_cases [of cs answer s]) auto
  next
    case (entered answer s1 v)
    then show ?thesis by (cases rule: apply_refresh_cases [of cs answer s]) auto
  next
    case (not_entered answer s1 e)
    then show ?thesis by (cases rule: apply_refresh_cases [of cs answer s]) (auto simp: aclose_def)
  qed (simp_all add: put_def aclose_def)
  then show "set (accepted s) \<subseteq> set (accepted s')" and "closed s \<Longrightarrow> closed s'" by blast+
qed

lemma active_limit:
  "reachable cfg cs validate frepr s \<Longrightarrow> active s = 0 \<or> (\<exists>p \<in> set (accepted s). active s \<le> limit_of p)"
proof (induction rule: reachable.induct)
  case init
  show ?case by (simp add: initial_def)
next
  case (advance s s')
  note mono = step_accepted(1) [OF advance.hyps(2)]
  show ?case
  proof (cases "active s < active s'")
    case True
    from step_admission [OF advance.hyps(2) this] obtain p where
      "held_policy s = Some p" "active s' \<le> limit_of p" by blast
    moreover have "held_policy s = newest (accepted s)"
      using reachable_gate_inv [OF advance.hyps(1)] by (simp add: gate_inv_def)
    ultimately have "p \<in> set (accepted s)" by (cases "accepted s") auto
    with mono \<open>active s' \<le> limit_of p\<close> show ?thesis by blast
  next
    case False
    have "reachable cfg cs validate frepr s'" by (rule reachable.advance [OF advance.hyps])
    from reachable_gate_inv [OF this] have "0 \<le> active s'" by (auto simp: gate_inv_def holders_nonneg)
    with False advance.IH mono show ?thesis by fastforce
  qed
qed

lemma accepted_adaptive: "gate_inv cfg cs s \<Longrightarrow> p \<in> set (accepted s) \<Longrightarrow> adaptive_policy cs p"
  unfolding gate_inv_def by (intro policy_chain_adaptive) blast+

lemma adaptive_limit: "adaptive_policy cs p \<Longrightarrow> 1 \<le> limit_of p \<and> limit_of p \<le> 1000"
  by (auto simp: adaptive_policy_def limit_of_def int_of_def field_def)

text \<open>
  Claim C3. Permits are exact and never leak: in every reachable state of a direct client the
  count of active attempts is the number of calls whose request is in flight (zero for a client
  of the dispatcher), whatever was answered, timed out or cancelled; it is never negative and
  never above the limit of some policy the service advertised, hence at most 1000.
\<close>

theorem client_permits_exact:
  assumes "reachable cfg cs validate frepr s"
  shows "active s = (if dispatched cfg then 0 else int (length (filter in_flight (tasks s)))) \<and>
    0 \<le> active s \<and> active s \<le> 1000 \<and> (0 < active s \<longrightarrow> (\<exists>p \<in> set (accepted s). active s \<le> limit_of p))"
proof -
  note g = reachable_gate_inv [OF assms]
  have "active s = (if dispatched cfg then 0 else int (length (filter in_flight (tasks s))))"
    using g by (simp add: gate_inv_def holders_def)
  moreover have "p \<in> set (accepted s) \<Longrightarrow> limit_of p \<le> 1000" for p
    using adaptive_limit [OF accepted_adaptive [OF g]] by blast
  ultimately show ?thesis using active_limit [OF assms] by fastforce
qed

theorem client_permits_exact_witness:
  "active sample_waiting = 1 \<and> length (filter in_flight (tasks sample_waiting)) = 1"
proof -
  have "active sample_waiting = 1" "dispatched direct_config = False" by code_simp+
  with client_permits_exact [OF sample_waiting_reachable] show ?thesis by simp
qed

text \<open>
  Claim C4. No wakeup is lost: in every reachable state a call that is still asleep on the
  condition has nothing to do, that is, the client is open and either paused or at the limit of
  the held policy; every change that could admit it (a release, a larger limit, a recovered
  policy, closing) has woken it.
\<close>

theorem client_no_lost_wakeup:
  assumes "reachable cfg cs validate frepr s" and "t \<in> set (tasks s)" and "pc t = Asleep"
  shows "\<not> closed s \<and>
    (ready s \<longrightarrow> \<not> dispatched cfg \<and> (\<exists>p. held_policy s = Some p \<and> limit_of p \<le> active s))"
proof -
  have "shut cfg s" using reachable_sleep_inv [OF assms(1)] assms(2,3) by (auto simp: sleep_inv_def)
  then show ?thesis by (auto simp: shut_def open_for_def not_less split: option.splits)
qed

theorem client_no_lost_wakeup_witness:
  "ready sample_waiting \<and> (\<exists>p. held_policy sample_waiting = Some p \<and> limit_of p \<le> 1) \<and>
   pc (tasks (sample_finished seven_answer) ! 1) = Woken"
proof -
  have m: "tasks sample_waiting ! Suc 0 \<in> set (tasks sample_waiting)" using sample_pcs(6) by simp
  have "ready sample_waiting" "active sample_waiting = 1" "pc (tasks (sample_finished seven_answer) ! 1) = Woken"
    by code_simp+
  with client_no_lost_wakeup [OF sample_waiting_reachable m sample_pcs(8)] show ?thesis by auto
qed

text \<open>
  Closing is final: after \<open>aclose\<close> every further step leaves the client closed and not
  ready, admits no attempt, keeps the policy, and every call that was waiting has been woken to
  fail.
\<close>

theorem client_close_final:
  assumes "reachable cfg cs validate frepr s" and "closed s" and "step cfg cs validate frepr s s'"
  shows "closed s' \<and> \<not> ready s' \<and> active s' \<le> active s \<and> \<not> is_ready s' \<and>
    (\<forall>t \<in> set (tasks s'). pc t \<noteq> Asleep)"
proof -
  have r': "reachable cfg cs validate frepr s'" by (rule reachable.advance [OF assms(1,3)])
  have c: "closed s'" by (rule step_accepted(2) [OF assms(3,2)])
  then have "\<not> ready s'" using reachable_gate_inv [OF r'] by (auto simp: gate_inv_def)
  moreover have "active s' \<le> active s" using step_admission [OF assms(3)] assms(2) by (meson not_less)
  moreover have "\<forall>t \<in> set (tasks s'). pc t \<noteq> Asleep"
    using reachable_sleep_inv [OF r'] c by (auto simp: sleep_inv_def shut_def)
  ultimately show ?thesis using c by (simp add: is_ready_def)
qed

theorem client_close_final_witness:
  "let s = notify_all (aclose sample_waiting)
   in \<not> ready (notify_all (aclose s)) \<and> (\<forall>t \<in> set (tasks (notify_all (aclose s))). pc t \<noteq> Asleep)"
proof -
  let ?s = "notify_all (aclose sample_waiting)"
  have r: "sample_reachable ?s" by (rule reachable.advance [OF sample_waiting_reachable step.close])
  have "closed ?s" by (simp add: aclose_def)
  from client_close_final [OF r this step.close] show ?thesis by (simp add: Let_def)
qed

text \<open>
  A client speaks to one gateway for life: any two policies it ever applied have the
  same principal, class and service, and the same limit where they have the same revision; the
  one it holds is the newest, its revision the highest.
\<close>

theorem client_one_gateway:
  assumes "reachable cfg cs validate frepr s" and "q \<in> set (accepted s)" and "held_policy s = Some p"
  shows "identity_of q = identity_of p \<and> revision_of q \<le> revision_of p \<and>
    (revision_of q = revision_of p \<longrightarrow> limit_of q = limit_of p)"
proof -
  have g: "policy_chain cs (accepted s)" "held_policy s = newest (accepted s)"
    using reachable_gate_inv [OF assms(1)] by (simp_all add: gate_inv_def)
  with assms(3) obtain ps where ps: "accepted s = p # ps" by (cases "accepted s") auto
  show ?thesis
  proof (cases "q \<in> set ps")
    case True
    then have "continues q p" using g(1) unfolding ps by (intro policy_chain_continues)
    then show ?thesis by (simp add: continues_def)
  next
    case False
    then show ?thesis using assms(2) ps by simp
  qed
qed

theorem client_one_gateway_witness:
  "\<exists>p. held_policy sample_waiting = Some p \<and> revision_of (sample_policy 4 1) \<le> revision_of p"
proof -
  have h: "held_policy sample_waiting = Some (sample_policy 4 1)" by code_simp
  have "accepted sample_waiting = [sample_policy 4 1]" by code_simp
  then have "sample_policy 4 1 \<in> set (accepted sample_waiting)" by simp
  from client_one_gateway [OF sample_waiting_reachable this h] h show ?thesis by blast
qed

end
