(* ===== verification/Client_Calls.thy ===== *)
theory Client_Calls
  imports Client_Safety
begin

text \<open>
  What a caller of \<open>AsyncClient\<close> may conclude: the retry contract (an interpretation of
  \<open>bounded_retry\<close>), the truth of the execution verdict, the requests that are sent, the checks
  before a call, and the parts of the client that need no interleaving (deadline checks, body
  limit, refresh, error codes).
\<close>

subsection \<open>The retry contract\<close>

lemma task_inv_answers: "task_inv cfg t \<Longrightarrow> length (answers t) \<le> 5 \<and> list_all retry_ok (butlast (answers t))"
  by (auto simp: task_inv_def before_def list_all_iff dest: in_set_butlastD split: pc.splits)

definition is_client_log :: "response option list \<Rightarrow> bool" where
  "is_client_log as \<longleftrightarrow> (\<exists>cfg cs validate frepr s t. reachable cfg cs validate frepr s \<and>
     t \<in> set (tasks s) \<and> as = answers t)"

lemma client_logD: "is_client_log as \<Longrightarrow> length as \<le> 5 \<and> list_all retry_ok (butlast as)"
  unfolding is_client_log_def using reachable_task_inv task_inv_answers by fastforce

interpretation adaptive: bounded_retry is_client_log retry_ok 5
proof unfold_locales
  fix as assume "is_client_log as"
  then show "length as \<le> 5" by (simp add: client_logD)
next
  fix as i assume "is_client_log as" "i + 1 < length as"
  then have "list_all retry_ok (butlast as)" "i < length (butlast as)" by (simp_all add: client_logD)
  then show "retry_ok (as ! i)" by (simp add: list_all_length nth_butlast)
qed

text \<open>
  Claim C2. No call replays an unknown outcome: in every schedule a call has received at most
  five answers, every one but the last is a rejection that is safe to retry, and at most one
  attempt of the call was answered otherwise or lost.
\<close>

theorem client_no_replay:
  assumes "reachable cfg cs validate frepr s" and "t \<in> set (tasks s)"
  shows "length (answers t) \<le> 5 \<and>
    (\<forall>a \<in> set (butlast (answers t)). \<exists>r. a = Some r \<and> safe_to_retry r) \<and>
    length (filter (\<lambda>a. \<not> retry_ok a) (answers t)) \<le> 1"
proof -
  have "is_client_log (answers t)" unfolding is_client_log_def using assms by blast
  moreover from this have "\<forall>a \<in> set (butlast (answers t)). retry_ok a"
    using adaptive.butlast_retryable by (simp add: list_all_iff)
  ultimately show ?thesis
    using adaptive.log_bounded adaptive.one_decisive by (auto simp: retry_ok_def split: option.splits)
qed

theorem client_no_replay_witness:
  "answers (tasks (sample_finished seven_answer) ! 0) = [Some seven_answer] \<and>
   length (filter (\<lambda>a. \<not> retry_ok a) (answers (tasks (sample_finished seven_answer) ! 0))) \<le> 1"
proof -
  have a: "answers (tasks (sample_finished seven_answer) ! 0) = [Some seven_answer]"
    "length (tasks (sample_finished seven_answer)) = 2" by code_simp+
  then have "tasks (sample_finished seven_answer) ! 0 \<in> set (tasks (sample_finished seven_answer))" by simp
  from client_no_replay [OF sample_finished_reachable this] a show ?thesis by blast
qed

subsection \<open>The verdict of a call\<close>

lemma verdict_of_all:
  "verdict_of as = (if \<forall>a \<in> set as. \<exists>r. a = Some r \<and> known_rejection r then ''not_started'' else ''unknown'')"
proof -
  have "rejected a \<longleftrightarrow> (\<exists>r. a = Some r \<and> known_rejection r)" for a
    by (cases a) (simp_all add: rejected_def)
  then show ?thesis by (simp add: verdict_of_def list_all_iff)
qed

lemma finished_ok:
  assumes "reachable cfg cs validate frepr s" and "\<not> dispatched cfg" and "t \<in> set (tasks s)"
    and "pc t = Finished out"
  shows "outcome_ok (answers t) out"
proof -
  have "task_inv cfg t" using reachable_task_inv [OF assms(1)] assms(3) by blast
  then show ?thesis using assms(2,4) by (simp add: task_inv_def)
qed

text \<open>
  Claim C1. The execution verdict is the truth: a failed or expired direct call reports
  \<^verbatim>\<open>not_started\<close> exactly when every attempt it made was answered by an authoritative rejection
  (none was lost, interrupted or answered otherwise), and \<^verbatim>\<open>unknown\<close> otherwise, under every
  interleaving, timeout and policy change.
\<close>

theorem client_verdict_truthful:
  assumes "reachable cfg cs validate frepr s" and "\<not> dispatched cfg" and "t \<in> set (tasks s)"
    and "pc t = Finished (Failed f) \<or> pc t = Finished (Deadline f)"
  shows "fexecution f = (if \<forall>a \<in> set (answers t). \<exists>r. a = Some r \<and> known_rejection r
                         then ''not_started'' else ''unknown'')"
proof -
  obtain out where out: "pc t = Finished out" "out = Failed f \<or> out = Deadline f" using assms(4) by blast
  have "outcome_ok (answers t) out" by (rule finished_ok [OF assms(1-3) out(1)])
  with out(2) have "fexecution f = verdict_of (answers t)" by (auto simp: outcome_ok_def)
  then show ?thesis by (simp only: verdict_of_all)
qed

theorem client_verdict_truthful_witness:
  "\<exists>f. pc (tasks (sample_finished missing_answer) ! 0) = Finished (Failed f) \<and> fexecution f = ''not_started'' \<and>
     known_rejection missing_answer"
proof -
  let ?t = "tasks (sample_finished missing_answer) ! 0"
  let ?f = "\<lparr>fcode = ''http_error'', fexecution = ''not_started'', fstatus = JInt 404, fattempts = JInt 1\<rparr>"
  have a: "answers ?t = [Some missing_answer]" "length (tasks (sample_finished missing_answer)) = 2"
    "pc ?t = Finished (Failed ?f)" "\<not> dispatched direct_config" "known_rejection missing_answer" by code_simp+
  then have "?t \<in> set (tasks (sample_finished missing_answer))" by simp
  from client_verdict_truthful [OF sample_finished_reachable a(4) this] a show ?thesis by auto
qed

text \<open>
  Claim C11. A value is returned only for a success: when a direct call returns \<open>v\<close>, its last
  answer is a 2xx response whose JSON body is \<open>v\<close>; the earlier ones (at most four) were
  rejections that are safe to retry.
\<close>

theorem client_value_genuine:
  assumes "reachable cfg cs validate frepr s" and "\<not> dispatched cfg" and "t \<in> set (tasks s)"
    and "pc t = Finished (Returned v)"
  shows "\<exists>as r. answers t = as @ [Some r] \<and> is_success r \<and> resp_json r = Some v \<and> length as \<le> 4 \<and>
    (\<forall>a \<in> set as. retry_ok a)"
proof -
  have "task_inv cfg t" using reachable_task_inv [OF assms(1)] assms(3) by blast
  note ti = task_inv_answers [OF this]
  from finished_ok [OF assms] obtain r where r: "answers t \<noteq> []" "last (answers t) = Some r" "is_success r"
    "resp_json r = Some v" by (auto simp: outcome_ok_def)
  then have a: "answers t = butlast (answers t) @ [Some r]" by (metis append_butlast_last_id)
  with ti have "length (butlast (answers t)) \<le> 4" "\<forall>a \<in> set (butlast (answers t)). retry_ok a"
    by (auto simp: list_all_iff)
  with a r show ?thesis by blast
qed

theorem client_value_genuine_witness:
  "\<exists>as r. answers (tasks (sample_finished seven_answer) ! 0) = as @ [Some r] \<and> resp_json r = Some (JInt 7)"
proof -
  let ?t = "tasks (sample_finished seven_answer) ! 0"
  have a: "length (tasks (sample_finished seven_answer)) = 2" "pc ?t = Finished (Returned (JInt 7))"
    "\<not> dispatched direct_config" by code_simp+
  then have "?t \<in> set (tasks (sample_finished seven_answer))" by simp
  from client_value_genuine [OF sample_finished_reachable a(3) this a(2)] show ?thesis by blast
qed

text \<open>
  The reported attempt count of a failed direct call is the number of requests it
  sent, except that a call refused at the gate (closed client, operation no longer permitted)
  reports zero even when earlier attempts were sent and rejected.
\<close>

theorem client_attempt_count:
  assumes "reachable cfg cs validate frepr s" and "\<not> dispatched cfg" and "t \<in> set (tasks s)"
    and "pc t = Finished (Failed f)"
  shows "fattempts f = JInt (int (length (answers t))) \<or>
    fattempts f = JInt 0 \<and> (fcode f = ''client_closed'' \<or> fcode f = ''operation_not_permitted'')"
  using finished_ok [OF assms] by (simp add: outcome_ok_def)

theorem client_attempt_count_witness:
  "\<exists>f. pc (tasks (sample_finished missing_answer) ! 0) = Finished (Failed f) \<and> fattempts f = JInt 1"
proof -
  let ?t = "tasks (sample_finished missing_answer) ! 0"
  let ?f = "\<lparr>fcode = ''http_error'', fexecution = ''not_started'', fstatus = JInt 404, fattempts = JInt 1\<rparr>"
  have a: "answers ?t = [Some missing_answer]" "length (tasks (sample_finished missing_answer)) = 2"
    "pc ?t = Finished (Failed ?f)" "\<not> dispatched direct_config" by code_simp+
  then have "?t \<in> set (tasks (sample_finished missing_answer))" by simp
  from client_attempt_count [OF sample_finished_reachable a(4) this a(3)] a show ?thesis by auto
qed

subsection \<open>What is sent\<close>

text \<open>The descriptor a request uses comes from an applied policy, and the parameters passed its
  schema and the serialiser.\<close>

definition permitted ::
  "schema_validate \<Rightarrow> (rat \<Rightarrow> string) \<Rightarrow> policy list \<Rightarrow> json \<Rightarrow> task \<Rightarrow> bool" where
  "permitted validate frepr ps d t \<longleftrightarrow>
     (\<exists>p \<in> set ps. d \<in> set (operations_of p)) \<and> field d ''name'' = JStr (wanted t) \<and>
     validate (field d ''input_schema'') (params t) = None \<and> (\<exists>b. dumps frepr (params t) = Inr b)"

definition sent_ok :: "schema_validate \<Rightarrow> (rat \<Rightarrow> string) \<Rightarrow> policy list \<Rightarrow> task \<Rightarrow> bool" where
  "sent_ok validate frepr ps t \<longleftrightarrow>
     (\<forall>d. pc t = InFlight d \<or> pc t = InDispatcher d \<longrightarrow> permitted validate frepr ps d t)"

lemma sent_ok_wake [simp]: "sent_ok validate frepr ps (wake t) = sent_ok validate frepr ps t"
  by (simp add: sent_ok_def wake_def permitted_def)

lemma sent_ok_idle [simp]:
  "sent_ok validate frepr ps (t\<lparr>pc := Asleep\<rparr>)" "sent_ok validate frepr ps (t\<lparr>pc := Finished out\<rparr>)"
  by (simp_all add: sent_ok_def)

lemma sent_ok_mono: "sent_ok validate frepr ps t \<Longrightarrow> set ps \<subseteq> set qs \<Longrightarrow> sent_ok validate frepr qs t"
  unfolding sent_ok_def permitted_def by blast

lemma check_params_None:
  "check_params validate frepr d ps n = None \<Longrightarrow>
     validate (field d ''input_schema'') ps = None \<and> (\<exists>b. dumps frepr ps = Inr b)"
  by (auto simp: check_params_def result_simps raised_def split: sum.splits if_splits option.splits)

lemma give_back_sent:
  "\<forall>u \<in> set (tasks s). sent_ok validate frepr ps u \<Longrightarrow>
   \<forall>u \<in> set (tasks (give_back cfg s)). sent_ok validate frepr ps u"
  by (simp add: give_back_def release_def)

lemma attempt_sent:
  assumes all: "\<forall>u \<in> set (tasks s). sent_ok validate frepr ps u"
    and held: "\<forall>p. held_policy s = Some p \<longrightarrow> p \<in> set ps"
  shows "\<forall>u \<in> set (tasks (attempt cfg validate frepr i t s)). sent_ok validate frepr ps u"
proof (cases "acquire cfg s (wanted t)")
  case (Granted d s1)
  then obtain p where p: "held_policy s = Some p" "d \<in> set (operations_of p)" "field d ''name'' = JStr (wanted t)"
    and s1: "s1 = (if dispatched cfg then s else s\<lparr>active := active s + 1\<rparr>)" by (auto dest!: acquire_Granted)
  have tk: "tasks s1 = tasks s" using s1 by simp
  show ?thesis
  proof (cases "check_params validate frepr d (params t) (attempts t)")
    case None
    have perm: "permitted validate frepr ps d t"
      using p held check_params_None [OF None] unfolding permitted_def by blast
    let ?d = "t\<lparr>may_have_executed := True, pc := InDispatcher d, submits := submits t + 1\<rparr>"
    let ?f = "t\<lparr>attempts := number t, may_have_executed := True, pc := InFlight d\<rparr>"
    have "sent_ok validate frepr ps ?d" "sent_ok validate frepr ps ?f"
      using perm by (simp_all add: sent_ok_def permitted_def)
    from all_update [OF all this(1)] all_update [OF all this(2)]
    show ?thesis using Granted None tk by (simp add: attempt_def)
  next
    case (Some out)
    have "\<forall>u \<in> set (tasks s1). sent_ok validate frepr ps u" unfolding tk by (rule all)
    from all_update [OF give_back_sent [OF this], of "t\<lparr>pc := Finished out\<rparr>"]
    show ?thesis using Granted Some by (simp add: attempt_def)
  qed
next
  case Blocked
  from all_update [OF all, of "t\<lparr>pc := Asleep\<rparr>"] Blocked show ?thesis by (simp add: attempt_def)
next
  case (Refused f)
  from all_update [OF all, of "t\<lparr>pc := Finished (Failed f)\<rparr>"] Refused show ?thesis by (simp add: attempt_def)
next
  case (Crashed e)
  from all_update [OF all, of "t\<lparr>pc := Finished (Escaped e)\<rparr>"] Crashed show ?thesis by (simp add: attempt_def)
qed

lemma step_sent:
  assumes st: "step cfg cs validate frepr s s'" and g: "gate_inv cfg cs s"
    and all: "\<forall>u \<in> set (tasks s). sent_ok validate frepr (accepted s) u"
  shows "\<forall>u \<in> set (tasks s'). sent_ok validate frepr (accepted s') u"
proof -
  have held: "\<forall>p. held_policy s = Some p \<longrightarrow> p \<in> set (accepted s)"
    using g by (cases "accepted s") (auto simp: gate_inv_def)
  have "\<forall>u \<in> set (tasks s'). sent_ok validate frepr (accepted s) u"
    using st
  proof cases
    case (start now later timeout dl duration ms d name ps)
    with all show ?thesis by (simp add: sent_ok_def new_task_def)
  next
    case (resume i t)
    show ?thesis unfolding resume(1) by (rule attempt_sent [OF all held])
  next
    case (slept i t n)
    show ?thesis unfolding slept(1) by (rule attempt_sent [OF all held])
  next
    case (answered i t d now answer)
    have "\<exists>t'. respond cfg now answer i t s = put i t' (give_back cfg s) \<and>
        (\<forall>d. pc t' \<noteq> InFlight d \<and> pc t' \<noteq> InDispatcher d)"
    proof (cases answer)
      case (Inl e)
      show ?thesis unfolding respond_def Inl sum.case by (rule exI, rule conjI, rule refl) simp
    next
      case (Inr r)
      obtain m v where mv: "settle (number t) (attempts t) (due t - now) r = (m, v)" by fastforce
      show ?thesis unfolding respond_def Inr sum.case mv prod.case
        by (rule exI, rule conjI, rule refl) (cases v; simp)
    qed
    then obtain t' where t': "respond cfg now answer i t s = put i t' (give_back cfg s)"
      "\<forall>d. pc t' \<noteq> InFlight d \<and> pc t' \<noteq> InDispatcher d" by blast
    from t'(2) have "sent_ok validate frepr (accepted s) t'" by (simp add: sent_ok_def)
    from all_update [OF give_back_sent [OF all] this] show ?thesis unfolding answered(1) t'(1) by simp
  next
    case (dispatched i t d r loads clk uid peer)
    from all_update [OF all, of "t\<lparr>pc := Finished (dispatcher_outcome r (attempts t))\<rparr>"] dispatched(1)
    show ?thesis by simp
  next
    case (interrupted i t e)
    from all_update [OF all, of "t\<lparr>pc := Finished (if is_timeout e then task_deadline t else Escaped e)\<rparr>"]
    show ?thesis unfolding interrupted(1) interrupt_def by simp
  next
    case (refreshed answer)
    then show ?thesis using all by (cases rule: apply_refresh_cases [of cs answer s]) auto
  next
    case (entered answer s1 v)
    then show ?thesis using all by (cases rule: apply_refresh_cases [of cs answer s]) auto
  next
    case (not_entered answer s1 e)
    then show ?thesis using all by (cases rule: apply_refresh_cases [of cs answer s]) (auto simp: aclose_def)
  next
    case close
    with all show ?thesis by (simp add: aclose_def)
  qed
  with step_accepted(1) [OF st] show ?thesis using sent_ok_mono by blast
qed

lemma reachable_sent:
  "reachable cfg cs validate frepr s \<Longrightarrow> \<forall>u \<in> set (tasks s). sent_ok validate frepr (accepted s) u"
proof (induction rule: reachable.induct)
  case init
  show ?case by (simp add: initial_def)
next
  case (advance s s')
  show ?case by (rule step_sent [OF advance.hyps(2) reachable_gate_inv [OF advance.hyps(1)] advance.IH])
qed

lemma new_client_origin:
  "new_client bk raw token socket cap = Inr (cfg, c) \<Longrightarrow>
     \<exists>b. validate_origin bk raw = Inr b \<and> origin cfg = rstrip_of (\<lambda>c. c = CHR ''/'') b"
  by (auto simp: new_client_def split: sum.splits if_splits)

text \<open>
  Claim C5. Every request a direct client has in flight is authorised and stays home: it is for
  the operation the caller named, as published in an applied policy and valid as a descriptor;
  its parameters passed the operation's schema and are serialisable; and its URL has the scheme
  and network location of the origin the client was configured with, so the bearer token goes
  nowhere else.
\<close>

theorem client_requests_permitted:
  assumes "reachable cfg cs validate frepr s" and "t \<in> set (tasks s)" and "pc t = InFlight d"
    and new: "new_client bk raw token socket cap = Inr (cfg, c)" and u: "urlsplit bk raw = Inr u"
  shows "(\<exists>p \<in> set (accepted s). d \<in> set (operations_of p)) \<and> valid_operation cs d \<and>
    field d ''name'' = JStr (wanted t) \<and> validate (field d ''input_schema'') (params t) = None \<and>
    (\<exists>body. dumps frepr (params t) = Inr body) \<and>
    (\<exists>u'. urlsplit bk (request_url cfg (str_field d ''path'')) = Inr u' \<and> scheme u' = scheme u \<and> netloc u' = netloc u)"
proof -
  have perm: "permitted validate frepr (accepted s) d t"
    using reachable_sent [OF assms(1)] assms(2,3) by (auto simp: sent_ok_def)
  then obtain p where p: "p \<in> set (accepted s)" "d \<in> set (operations_of p)" by (auto simp: permitted_def)
  have "adaptive_policy cs p" by (rule accepted_adaptive [OF reachable_gate_inv [OF assms(1)] p(1)])
  then have v: "valid_operation cs d"
    using p(2) by (auto simp: adaptive_policy_def operations_of_def)
  obtain b where b: "validate_origin bk raw = Inr b" "origin cfg = rstrip_of (\<lambda>c. c = CHR ''/'') b"
    using new_client_origin [OF new] by blast
  obtain x a n where "clean b = a @ CHR '':'' # ''//'' @ n"
    by (rule accepted_origin_shape [OF b(1) u])
  then have "b \<noteq> []" by (auto simp: clean_def)
  then have "request_url cfg (str_field d ''path'') = url_for [] (Some b) (str_field d ''path'')"
    by (simp add: request_url_def b(2) url_for_def)
  with operation_on_origin [OF v [unfolded valid_operation_def] b(1) u, of "[]"] perm p v show ?thesis
    by (auto simp: permitted_def)
qed

theorem client_requests_permitted_witness:
  "\<exists>u'. urlsplit (\<lambda>_. True) (request_url direct_config ''/product'') = Inr u' \<and> netloc u' = ''h''"
proof -
  let ?t = "tasks sample_waiting ! 0"
  let ?c = "\<lparr>held_policy = None, active = 0, ready = False, closed = False, polling = False\<rparr>"
  let ?u = "\<lparr>scheme = ''http'', netloc = ''h'', upath = ''/'', uquery = [], ufragment = []\<rparr>"
  have m: "?t \<in> set (tasks sample_waiting)" using sample_pcs(6) by simp
  have n: "new_client (\<lambda>_. True) ''http://h/'' (JStr ''t'') None (JInt 1000) = Inr (direct_config, ?c)" by code_simp
  have u: "urlsplit (\<lambda>_. True) ''http://h/'' = Inr ?u" by code_simp
  have p: "str_field sample_operation ''path'' = ''/product''" by code_simp
  show ?thesis
    using client_requests_permitted [OF sample_waiting_reachable m sample_pcs(7) n u] by (auto simp: p)
qed

subsection \<open>Through the dispatcher\<close>

text \<open>
  Claim C10. A client of the dispatcher sends nothing itself and submits once: in every reachable
  state no HTTP attempt is active and each call has been handed to the dispatcher at most once.
  A call that ends with a value got it from a completed 2xx reply; one that wrote nothing to the
  socket is never reported as possibly executed; and one that reports \<^verbatim>\<open>not_started\<close> after
  writing repeats the dispatcher's own verdict.
\<close>

theorem client_dispatcher_once:
  assumes "reachable cfg cs validate frepr s" and "dispatched cfg" and "t \<in> set (tasks s)"
    and call: "dispatch_call cs validate frepr loads clk uid peer (bearer cfg) d (params t) timeout_s dl = (ios, r)"
  shows "active s = 0 \<and> answers t = [] \<and> submits t \<le> 1 \<and>
    (\<forall>v. dispatcher_outcome r n = Returned v \<longrightarrow> (\<exists>raw reply k. peer = Replies raw \<and>
       parse_reply loads raw = Inr reply \<and> field reply ''body'' = v \<and>
       field reply ''execution'' = JStr ''completed'' \<and> field reply ''status'' = JInt k \<and> 200 \<le> k \<and> k < 300)) \<and>
    (\<forall>f. dispatcher_outcome r n = Failed f \<longrightarrow>
       (filter is_wrote ios = [] \<longrightarrow> fexecution f = ''not_started'') \<and>
       (filter is_wrote ios \<noteq> [] \<longrightarrow> fexecution f = ''not_started'' \<longrightarrow>
          (\<exists>raw reply. peer = Replies raw \<and> parse_reply loads raw = Inr reply \<and>
             field reply ''execution'' = JStr ''not_started'')))"
proof -
  have "task_inv cfg t" using reachable_task_inv [OF assms(1)] assms(3) by blast
  then have "answers t = [] \<and> submits t \<le> 1"
    using assms(2) by (auto simp: task_inv_def before_def split: pc.splits)
  moreover have "active s = 0" using reachable_gate_inv [OF assms(1)] assms(2) by (simp add: gate_inv_def)
  moreover note single = single_submission [OF call]
  have coh: "coherent reply" if "r = Inr reply" for reply
  proof -
    have "snd (dispatch_call cs validate frepr loads clk uid peer (bearer cfg) d (params t) timeout_s dl) = Inr reply"
      using call that by simp
    then show ?thesis by (rule reply_coherent)
  qed
  have "\<exists>raw reply k. peer = Replies raw \<and> parse_reply loads raw = Inr reply \<and> field reply ''body'' = v \<and>
       field reply ''execution'' = JStr ''completed'' \<and> field reply ''status'' = JInt k \<and> 200 \<le> k \<and> k < 300"
    if v: "dispatcher_outcome r n = Returned v" for v
  proof -
    obtain reply where reply: "r = Inr reply" "truthy (field reply ''ok'')" "field reply ''body'' = v"
      using v by (auto simp: dispatcher_outcome_def split: sum.splits if_splits)
    from coh [OF reply(1)] reply(2) have "field reply ''execution'' = JStr ''completed''"
      "\<exists>k. field reply ''status'' = JInt k \<and> 200 \<le> k \<and> k < 300"
      by (auto simp: coherent_def field_def split: if_splits)
    moreover have "field reply ''ok'' \<noteq> JBool False" using reply(2) by auto
    with single reply(1) have "\<exists>raw. peer = Replies raw \<and> parse_reply loads raw = Inr reply"
      by (cases "filter is_wrote ios = []") auto
    ultimately show ?thesis using reply(3) by blast
  qed
  moreover have "(filter is_wrote ios = [] \<longrightarrow> fexecution f = ''not_started'') \<and>
       (filter is_wrote ios \<noteq> [] \<longrightarrow> fexecution f = ''not_started'' \<longrightarrow>
          (\<exists>raw reply. peer = Replies raw \<and> parse_reply loads raw = Inr reply \<and>
             field reply ''execution'' = JStr ''not_started''))"
    if f: "dispatcher_outcome r n = Failed f" for f
  proof -
    obtain reply where reply: "r = Inr reply" "fexecution f = str_field reply ''execution''"
      using f by (auto simp: dispatcher_outcome_def operation_error_def split: sum.splits if_splits)
    have ex: "field reply ''execution'' = JStr (fexecution f)"
      using coh [OF reply(1)] reply(2) by (auto simp: coherent_def str_field_def field_def)
    show ?thesis
    proof (cases "filter is_wrote ios = []")
      case True
      with single reply(1) ex show ?thesis by simp
    next
      case False
      with single reply(1) ex show ?thesis by auto
    qed
  qed
  ultimately show ?thesis by blast
qed

definition dispatcher_config :: config where
  "dispatcher_config = \<lparr>origin = ''http://h'', bearer = ''t'', dispatched = True, maximum_body = 1000\<rparr>"

theorem client_dispatcher_once_witness:
  "\<exists>f. dispatcher_outcome (Inr (error_reply ''dispatcher_unavailable'' ''not_started'')) 0 = Failed f \<and>
     fexecution f = ''not_started''"
proof -
  let ?s = "sample_discovered\<lparr>tasks := tasks sample_discovered @ [sample_task]\<rparr>"
  have a: "reachable dispatcher_config no_check no_validate no_floats sample_discovered"
    unfolding sample_discovered_def by (rule reachable.advance [OF reachable.init step.refreshed])
  have d: "deadline_seconds (JFloat (Fin 120000)) = Inr (Fin 120)" by code_simp
  have c: "call_setup sample_discovered 0 0 (JInt 120) JNull = Inr (120, JFloat (Fin 120000))" by code_simp
  have b: "reachable dispatcher_config no_check no_validate no_floats ?s"
    unfolding sample_task_def by (rule reachable.advance [OF a step.start [OF c d]])
  have m: "sample_task \<in> set (tasks ?s)" by simp
  have q: "dispatched dispatcher_config" by (simp add: dispatcher_config_def)
  have p: "dispatch_call no_check no_validate no_floats (\<lambda>_. Inr JNull) sample_wall ''u'' (Refuses OSError)
      (bearer dispatcher_config) (JStr ''ns/op'') (params sample_task) 10 JNull =
      ([], Inr (error_reply ''dispatcher_unavailable'' ''not_started''))" by code_simp
  obtain f where f: "dispatcher_outcome (Inr (error_reply ''dispatcher_unavailable'' ''not_started'')) 0 = Failed f"
    by (simp add: dispatcher_outcome_def error_reply_fields)
  with client_dispatcher_once [OF b q m p, of 0] show ?thesis by simp
qed

subsection \<open>Deadlines, bodies, codes\<close>

text \<open>
  A call starts exactly when the client was entered and its deadline is a plain number
  giving between zero (excluded) and 3600 seconds; the deadline it then carries, to the
  dispatcher too, is the caller's own absolute one, or the current time plus the timeout.
\<close>

theorem call_setup_spec:
  "call_setup c now later timeout dl = Inr (duration, ms) \<longleftrightarrow>
     (held_policy c \<noteq> None \<or> polling c) \<and> 0 < duration \<and> duration \<le> 3600 \<and>
     (if dl = JNull
      then plain_number timeout = Some (Fin duration) \<and> ms = JFloat (Fin ((later + duration) * 1000))
      else \<exists>due. plain_number dl = Some (Fin due) \<and> duration = due / 1000 - now \<and> ms = dl)"
proof -
  have m: "minus_now (in_seconds f) now = Fin q \<longleftrightarrow> (\<exists>due. f = Fin due \<and> q = due / 1000 - now)" for f q
    by (cases f) auto
  have "call_duration now timeout dl = Some (Fin q) \<longleftrightarrow>
     (if dl = JNull then plain_number timeout = Some (Fin q)
      else \<exists>due. plain_number dl = Some (Fin due) \<and> q = due / 1000 - now)" for q
    by (auto simp: call_duration_def m split: option.splits)
  moreover have "call_setup c now later timeout dl = Inr (duration, ms) \<longleftrightarrow>
     (held_policy c \<noteq> None \<or> polling c) \<and> call_duration now timeout dl = Some (Fin duration) \<and>
     0 < duration \<and> duration \<le> 3600 \<and>
     ms = (if dl = JNull then JFloat (Fin ((later + duration) * 1000)) else dl)"
    by (auto simp: call_setup_def split: option.splits pyfloat.splits if_splits)
  ultimately show ?thesis by auto
qed

theorem call_setup_spec_witness:
  "call_setup sample_discovered 50 50 (JInt 120) (JInt 60000) = Inr (10, JInt 60000)"
proof -
  have "held_policy sample_discovered \<noteq> None" by code_simp
  then show ?thesis
    using call_setup_spec [of sample_discovered 50 50 "JInt 120" "JInt 60000" 10 "JInt 60000"] by simp
qed

lemma collect_body_Inr:
  "int (length body) \<le> limit \<Longrightarrow>
   collect_body limit body chunks = Inr b \<longleftrightarrow>
     b = body @ concat chunks \<and> int (length (body @ concat chunks)) \<le> limit"
proof (induction chunks arbitrary: body)
  case (Cons chunk chunks)
  show ?case
  proof (cases "limit < int (length body) + int (length chunk)")
    case True
    then show ?thesis by simp
  next
    case False
    with Cons.IH [of "body @ chunk"] show ?thesis by simp
  qed
qed auto

lemma collect_body_Inl: "collect_body limit body chunks = Inl e \<Longrightarrow>
   e = ProtocolError ''Response exceeds the configured size limit''"
  by (induction limit body chunks rule: collect_body.induct) (auto split: if_splits)

text \<open>
  Claim C38. Response bodies are bounded whatever the service streams: a request yields exactly
  the concatenation of the chunks when that fits the limit (the caller's, or the client's), and
  fails with a \<^verbatim>\<open>ProtocolError\<close> otherwise; encoding and length headers that no longer describe the
  decoded body are dropped, every other header is kept.
\<close>

theorem request_bounded:
  assumes "new_client bk raw token socket cap = Inr (cfg, c)"
    and "limit = (if maximum = None \<or> maximum = Some 0 then maximum_body cfg else the maximum)" and "0 \<le> limit"
  shows "(int (length (concat chunks)) \<le> limit \<longrightarrow>
      (\<exists>a. request cfg maximum status headers chunks = Inr a \<and> answer_body a = concat chunks \<and>
         answer_status a = status \<and>
         (\<forall>h. dget (answer_headers a) h =
            (if h = ''content-encoding'' \<or> h = ''content-length'' then None else dget headers h)))) \<and>
    (limit < int (length (concat chunks)) \<longrightarrow>
      request cfg maximum status headers chunks = Inl (ProtocolError ''Response exceeds the configured size limit'')) \<and>
    1 \<le> maximum_body cfg"
proof -
  have l: "(case maximum of Some m \<Rightarrow> if m = 0 then maximum_body cfg else m | None \<Rightarrow> maximum_body cfg) = limit"
    using assms(2) by (cases maximum) auto
  have r: "request cfg maximum status headers chunks =
      rbind (collect_body limit [] chunks) (\<lambda>body. Inr \<lparr>answer_status = status,
        answer_headers = dpop (dpop headers ''content-encoding'') ''content-length'', answer_body = body\<rparr>)"
    unfolding request_def l Let_def ..
  have c: "collect_body limit [] chunks = Inr b \<longleftrightarrow> b = concat chunks \<and> int (length (concat chunks)) \<le> limit" for b
    using collect_body_Inr [of "[]" limit chunks b] assms(3) by simp
  have "1 \<le> maximum_body cfg"
    using assms(1) by (auto simp: new_client_def int_where_def int_of_def split: sum.splits if_splits option.splits)
  moreover have "request cfg maximum status headers chunks = Inl (ProtocolError ''Response exceeds the configured size limit'')"
    if "limit < int (length (concat chunks))"
  proof (cases "collect_body limit [] chunks")
    case (Inl e)
    with collect_body_Inl [OF Inl] show ?thesis by (simp add: r)
  next
    case (Inr b)
    with c [of b] that have False by simp
    then show ?thesis ..
  qed
  moreover have "\<exists>a. request cfg maximum status headers chunks = Inr a \<and> answer_body a = concat chunks \<and>
         answer_status a = status \<and> (\<forall>h. dget (answer_headers a) h =
            (if h = ''content-encoding'' \<or> h = ''content-length'' then None else dget headers h))"
    if "int (length (concat chunks)) \<le> limit"
    using c [of "concat chunks"] that by (simp add: r dict_simps)
  ultimately show ?thesis by blast
qed

theorem request_bounded_witness:
  "request direct_config (Some 3) 200 [] [''ab'', ''cd''] =
     Inl (ProtocolError ''Response exceeds the configured size limit'')"
proof -
  let ?c = "\<lparr>held_policy = None, active = 0, ready = False, closed = False, polling = False\<rparr>"
  have n: "new_client (\<lambda>_. True) ''http://h/'' (JStr ''t'') None (JInt 1000) = Inr (direct_config, ?c)" by code_simp
  show ?thesis
    using request_bounded [OF n, of 3 "Some 3" "[''ab'', ''cd'']" 200 "[]"] by simp
qed

text \<open>
  The code of a failure is safe to log: whatever a response or the dispatcher supplies,
  it is a lower-case identifier of at most 64 characters, and a supplied code of that shape is
  kept.
\<close>

theorem error_code_safe:
  "(\<exists>c cs. fcode (operation_error code ex status n) = c # cs \<and> char_in CHR ''a'' CHR ''z'' c \<and> length cs \<le> 63 \<and>
      (\<forall>x \<in> set cs. char_in CHR ''a'' CHR ''z'' x \<or> is_digit x \<or> x = CHR ''_'')) \<and>
   (\<forall>s. code = JStr s \<longrightarrow> fullmatch error_code_rx s \<longrightarrow> fcode (operation_error code ex status n) = s)"
proof -
  have sh: "\<exists>c cs. s = c # cs \<and> char_in CHR ''a'' CHR ''z'' c \<and> length cs \<le> 63 \<and>
      (\<forall>x \<in> set cs. char_in CHR ''a'' CHR ''z'' x \<or> is_digit x \<or> x = CHR ''_'')"
    if "fullmatch error_code_rx s" for s
  proof -
    from that obtain c cs where s: "s = c # cs" "in_class [(CHR ''a'', CHR ''z'')] c"
      and cs: "cs \<in> lang (upto_rep 63 (Cls [(CHR ''a'', CHR ''z''), (CHR ''0'', CHR ''9''), (CHR ''_'', CHR ''_'')]))"
      unfolding fullmatch_lang error_code_rx_def by (auto simp: in_lang_Seq_Cls)
    have "char_in CHR ''_'' CHR ''_'' x \<longleftrightarrow> x = CHR ''_''" for x
      by (metis antisym char_in_def le_refl of_char_eq_iff)
    with s cs show ?thesis unfolding lang_upto_rep_Cls by (auto simp: in_class_def)
  qed
  have "fullmatch error_code_rx ''http_error''" by code_simp
  then have "fullmatch error_code_rx (clean_code code)"
    by (auto simp: clean_code_def split: option.splits)
  from sh [OF this] show ?thesis by (auto simp: operation_error_def clean_code_def)
qed

theorem error_code_safe_witness:
  "fcode (operation_error (JStr ''queue_timeout'') ''not_started'' JNull JNull) = ''queue_timeout''"
proof -
  have "fullmatch error_code_rx ''queue_timeout''" by code_simp
  with error_code_safe [of "JStr ''queue_timeout''" "''not_started''" JNull JNull] show ?thesis by blast
qed

subsection \<open>Refreshing\<close>

text \<open>
  Claim C25. A refresh either applies a valid policy that continues the held one, or pauses the
  client: after a transport error, an HTTP error status, unreadable JSON, a refused policy, the
  timeout or a cancellation, the client is not ready, its waiters are woken and its policy is
  unchanged. Any other exception (such as the recursion error of a deeply nested document)
  escapes: the client stays as ready as it was, and the poller dies of it.
\<close>

theorem refresh_spec:
  assumes "refresh cs answer c = (c', notified, r)"
  shows "case fetched_policy cs answer (held_policy c) of
      Inr p \<Rightarrow> adaptive_policy cs p \<and> (\<forall>q. held_policy c = Some q \<longrightarrow> q \<noteq> [] \<longrightarrow> continues q p) \<and> poll_survives r \<and>
        (if closed c then c' = c else held_policy c' = Some p \<and> ready c' \<and> notified)
    | Inl e \<Rightarrow>
        if is_http_error e \<or> is_value_error e \<or> is_timeout e \<or> e = CancelledError
        then \<not> ready c' \<and> held_policy c' = held_policy c \<and> closed c' = closed c \<and> notified \<and>
          poll_survives r = (e \<noteq> CancelledError)
        else c' = c \<and> r = Inl e \<and> \<not> poll_survives r"
proof (cases "fetched_policy cs answer (held_policy c)")
  case (Inl e)
  show ?thesis
  proof (cases "refresh_caught e")
    case True
    with Inl assms show ?thesis by (auto simp: refresh_def refresh_caught_def poll_survives_def)
  next
    case False
    have "\<not> (\<exists>m. e = ProtocolError m)" using False by (auto simp: refresh_caught_def)
    then have "\<not> poll_survives (Inl e :: policy option result)" by (cases e) (auto simp: poll_survives_def)
    with False Inl assms show ?thesis by (simp add: refresh_def refresh_caught_def)
  qed
next
  case (Inr p)
  have "validate_policy cs (JDict p) (held_policy c) = Inr p" by (rule fetched_policyD [OF Inr])
  then have "adaptive_policy cs p \<and> (case held_policy c of None \<Rightarrow> True | Some q \<Rightarrow> q = [] \<or> continues q p)"
    by (simp add: validate_policy_Inr_iff)
  then show ?thesis
    using Inr assms by (auto simp: refresh_def poll_survives_def split: if_splits option.splits)
qed

theorem refresh_spec_witness:
  "(let c = sample_discovered; r = refresh no_check (Inl (OtherError ''RecursionError'')) c
    in ready c \<and> fst r = c \<and> \<not> poll_survives (snd (snd r))) \<and>
   \<not> ready (fst (refresh no_check (Inl HTTPError) sample_discovered))"
proof -
  obtain c n r where e: "refresh no_check (Inl (OtherError ''RecursionError'')) sample_discovered = (c, n, r)"
    by (metis prod_cases3)
  obtain c' n' r' where h: "refresh no_check (Inl HTTPError) sample_discovered = (c', n', r')"
    by (metis prod_cases3)
  have "ready sample_discovered" by code_simp
  moreover from refresh_spec [OF e] have "c = sample_discovered \<and> \<not> poll_survives r"
    by (auto simp: fetched_policy_def)
  moreover from refresh_spec [OF h] have "\<not> ready c'" by (simp add: fetched_policy_def)
  ultimately show ?thesis by (simp add: Let_def e h)
qed

end
