(* ===== verification/Conformance.thy ===== *)
theory Conformance
  imports Policy
begin

text \<open>
  \<^verbatim>\<open>python/ai_protocol/conformance.py\<close>: the offline contract check and the opt-in check of a
  running service. The schemas are data files, so \<open>contract name document\<close>, the run of the
  validator of that schema, is a parameter; \<open>anonymous\<close>, \<open>authorised\<close> and \<open>executed\<close> are the
  answers of the service to the three requests the check may send.
\<close>

definition contract_names :: "string list" where
  "contract_names = [''operation'', ''policy'', ''error'', ''manifest'']"

definition validate_contract ::
  "schema_check \<Rightarrow> (string \<Rightarrow> json \<Rightarrow> exn option) \<Rightarrow> string \<Rightarrow> json \<Rightarrow> unit result" where
  "validate_contract cs contract name document =
     (if name \<notin> set contract_names then Inl (KeyError name)
      else rbind (raised (contract name document)) (\<lambda>_.
        if name = ''policy'' then rbind (validate_policy cs document None) (\<lambda>_. Inr ()) else Inr ()))"

record http_reply = response +
  cache_control :: "string option"

datatype probe = Anonymous string | Authorised string string | Posted string string json

text \<open>\<^verbatim>\<open>v[k]\<close>.\<close>

fun subscript :: "json \<Rightarrow> string \<Rightarrow> json result" where
  "subscript (JDict d) k = (case dget d k of Some v \<Rightarrow> Inr v | None \<Rightarrow> Inl (KeyError k))"
| "subscript _ k = Inl TypeError"

definition json_of :: "http_reply \<Rightarrow> json result" where
  "json_of r = (case resp_json r of Some v \<Rightarrow> Inr v | None \<Rightarrow> Inl (ValueError ''Expecting value''))"

definition status_ok :: "http_reply \<Rightarrow> unit result" where
  "status_ok r = (if 200 \<le> status_code r \<and> status_code r < 300 then Inr () else Inl (HTTPStatusError (status_code r)))"

text \<open>Discovery must refuse a request without credentials, as not started.\<close>

definition check_anonymous ::
  "schema_check \<Rightarrow> (string \<Rightarrow> json \<Rightarrow> exn option) \<Rightarrow> http_reply \<Rightarrow> unit result" where
  "check_anonymous cs contract r =
     (if status_code r \<noteq> 401
      then Inl (ValueError ''Discovery must reject unauthenticated requests with 401'')
      else rbind (json_of r) (\<lambda>v. rbind (validate_contract cs contract ''error'' v) (\<lambda>_.
        rbind (subscript v ''error'') (\<lambda>e. rbind (subscript e ''execution'') (\<lambda>x.
          if \<not> py_eq x (JStr ''not_started'')
          then Inl (ValueError ''Authentication failure cannot start an operation'') else Inr ())))))"

definition check_authorised ::
  "schema_check \<Rightarrow> (string \<Rightarrow> json \<Rightarrow> exn option) \<Rightarrow> http_reply \<Rightarrow> json result" where
  "check_authorised cs contract r =
     rbind (status_ok r) (\<lambda>_.
       if cache_control r \<noteq> Some ''no-store'' then Inl (ValueError ''Discovery must be uncacheable'')
       else rbind (json_of r) (\<lambda>policy. rbind (validate_contract cs contract ''policy'' policy) (\<lambda>_. Inr policy)))"

definition summary_of :: "json \<Rightarrow> json" where
  "summary_of policy = JDict [(''service_id'', field policy ''service_id''), (''version'', field policy ''version''),
     (''operations'', JInt (int (length (case as_list (field policy ''operations'') of Some ops \<Rightarrow> ops | None \<Rightarrow> []))))]"

definition check_service ::
  "(string \<Rightarrow> bool) \<Rightarrow> schema_check \<Rightarrow> schema_validate \<Rightarrow> (string \<Rightarrow> json \<Rightarrow> exn option) \<Rightarrow>
   http_reply result \<Rightarrow> http_reply result \<Rightarrow> http_reply result \<Rightarrow>
   string \<Rightarrow> json \<Rightarrow> string option \<Rightarrow> json \<Rightarrow> probe list \<times> json result" where
  "check_service bracket_ok cs validate contract anonymous authorised executed raw token operation params =
     (case validate_origin bracket_ok raw of
        Inl e \<Rightarrow> ([], Inl e)
      | Inr origin \<Rightarrow>
          if \<not> (case as_str token of Some t \<Rightarrow> fullmatch token_rx t | None \<Rightarrow> False)
          then ([], Inl (ValueError ''Invalid bearer credential''))
          else
            let url = origin @ ''/agent-policy''; header = ''Bearer '' @ the (as_str token);
                sent1 = [Anonymous url]; sent2 = [Anonymous url, Authorised header url]
            in case rbind anonymous (check_anonymous cs contract) of
                 Inl e \<Rightarrow> (sent1, Inl e)
               | Inr _ \<Rightarrow>
                   (case rbind authorised (check_authorised cs contract) of
                      Inl e \<Rightarrow> (sent2, Inl e)
                    | Inr policy \<Rightarrow>
                        (case operation of
                           None \<Rightarrow> (sent2, Inr (summary_of policy))
                         | Some name \<Rightarrow>
                             (case find (\<lambda>op. py_eq (field op ''name'') (JStr name))
                                     (case as_list (field policy ''operations'') of Some ops \<Rightarrow> ops | None \<Rightarrow> []) of
                                None \<Rightarrow> (sent2, Inl (ValueError ''Requested operation is absent from discovery''))
                              | Some d \<Rightarrow>
                                  (case validate (field d ''input_schema'') params of
                                     Some e \<Rightarrow> (sent2, Inl e)
                                   | None \<Rightarrow>
                                       (sent2 @ [Posted header (origin @ str_field d ''path'') params],
                                        rbind executed (\<lambda>r. rbind (status_ok r) (\<lambda>_. rbind (json_of r)
                                          (\<lambda>_. Inr (summary_of policy))))))))))"

subsection \<open>The command line\<close>

text \<open>\<open>main\<close>: the exit status and whether the final line is printed. \<open>check\<close> is the outcome of
  \<open>check_service\<close> (including reading the token variable and the parameters), \<open>manifest\<close> that of
  the offline check; \<^verbatim>\<open>parser.error\<close> exits with 2.\<close>

datatype exit = Exit int | Passed | Uncaught exn

definition conformance_caught :: "exn \<Rightarrow> bool" where
  "conformance_caught e \<longleftrightarrow> is_value_error e \<or> (\<exists>k. e = KeyError k) \<or> is_os_error e \<or> is_http_error e \<or> e = ValidationError"

definition conformance_main ::
  "unit result option \<Rightarrow> json result option \<Rightarrow> string option \<Rightarrow> string option \<Rightarrow> exit" where
  "conformance_main manifest check operation params =
     (if (case operation of Some s \<Rightarrow> s \<noteq> [] | None \<Rightarrow> False) \<noteq> (params \<noteq> None) then Exit 2
      else case rbind (case manifest of Some r \<Rightarrow> r | None \<Rightarrow> Inr ())
                  (\<lambda>_. case check of Some r \<Rightarrow> rbind r (\<lambda>_. Inr ()) | None \<Rightarrow> Inr ()) of
             Inl e \<Rightarrow> if conformance_caught e then Exit 1 else Uncaught e
           | Inr _ \<Rightarrow> if manifest = None \<and> check = None then Exit 2 else Passed)"

subsection \<open>What a check proves and sends\<close>

lemma validate_contract_policy:
  "validate_contract cs contract ''policy'' v = Inr () \<longleftrightarrow>
     contract ''policy'' v = None \<and> (\<exists>p. v = JDict p \<and> adaptive_policy cs p)"
  by (auto simp: validate_contract_def contract_names_def result_simps validate_policy_Inr_iff)

lemma check_anonymous_ok: "check_anonymous cs contract r = Inr () \<Longrightarrow> status_code r = 401"
  by (auto simp: check_anonymous_def split: if_splits)

lemma check_authorised_ok:
  "check_authorised cs contract r = Inr v \<Longrightarrow>
     \<exists>p. v = JDict p \<and> resp_json r = Some v \<and> adaptive_policy cs p \<and> cache_control r = Some ''no-store''"
  unfolding check_authorised_def json_of_def
  by (auto simp: result_simps validate_contract_policy split: option.splits if_splits)

text \<open>Every way a check goes: which requests were sent, and what is known when they are.\<close>

lemma check_service_cases:
  obtains (nothing) e where
      "check_service bk cs validate contract anonymous authorised executed raw token operation params = ([], Inl e)"
  | (anonymous_only) b e where "validate_origin bk raw = Inr b"
      "check_service bk cs validate contract anonymous authorised executed raw token operation params =
         ([Anonymous (b @ ''/agent-policy'')], Inl e)"
  | (discovered) b t r a res where "validate_origin bk raw = Inr b" "token = JStr t" "fullmatch token_rx t"
      "anonymous = Inr r" "status_code r = 401"
      "check_service bk cs validate contract anonymous authorised executed raw token operation params =
         ([Anonymous (b @ ''/agent-policy''), Authorised (''Bearer '' @ t) (b @ ''/agent-policy'')], res)"
      "\<forall>v. res = Inr v \<longrightarrow> operation = None \<and> authorised = Inr a \<and>
         (\<exists>p. resp_json a = Some (JDict p) \<and> adaptive_policy cs p \<and> cache_control a = Some ''no-store'')"
  | (posted) b t r a p d name res where "validate_origin bk raw = Inr b" "token = JStr t" "fullmatch token_rx t"
      "anonymous = Inr r" "status_code r = 401" "authorised = Inr a" "resp_json a = Some (JDict p)"
      "adaptive_policy cs p" "cache_control a = Some ''no-store''"
      "operation = Some name" "d \<in> set (operations_of p)" "field d ''name'' = JStr name"
      "validate (field d ''input_schema'') params = None"
      "check_service bk cs validate contract anonymous authorised executed raw token operation params =
         ([Anonymous (b @ ''/agent-policy''), Authorised (''Bearer '' @ t) (b @ ''/agent-policy''),
           Posted (''Bearer '' @ t) (b @ str_field d ''path'') params], res)"
      "\<forall>v. res = Inr v \<longrightarrow> (\<exists>x. executed = Inr x \<and> 200 \<le> status_code x \<and> status_code x < 300)"
proof (cases "validate_origin bk raw")
  case (Inl e)
  then show thesis by - (rule nothing [of e], simp add: check_service_def)
next
  case b: (Inr b)
  show thesis
  proof (cases "\<exists>t. token = JStr t \<and> fullmatch token_rx t")
    case False
    then have "\<not> (case as_str token of Some t \<Rightarrow> fullmatch token_rx t | None \<Rightarrow> False)"
      by (auto split: option.splits)
    with b show thesis by - (rule nothing, simp_all add: check_service_def Let_def)
  next
    case True
    then obtain t where t: "token = JStr t" "fullmatch token_rx t" by blast
    show thesis
    proof (cases "rbind anonymous (check_anonymous cs contract)")
      case (Inl e)
      with b t show thesis by - (rule anonymous_only [OF b, of e], simp_all add: check_service_def Let_def)
    next
      case an: (Inr u)
      then obtain r where r: "anonymous = Inr r" "status_code r = 401"
        by (auto simp: result_simps dest: check_anonymous_ok)
      show thesis
      proof (cases "rbind authorised (check_authorised cs contract)")
        case (Inl e)
        with b t an show thesis by - (rule discovered [OF b t r, of "Inl e"], simp_all add: check_service_def Let_def)
      next
        case au: (Inr v)
        then obtain a where a: "authorised = Inr a" "check_authorised cs contract a = Inr v"
          by (auto simp: result_simps)
        from check_authorised_ok [OF a(2)] obtain p where
          p: "v = JDict p" "resp_json a = Some (JDict p)" "adaptive_policy cs p" "cache_control a = Some ''no-store''"
          by blast
        have ops: "(case as_list (field v ''operations'') of Some ops \<Rightarrow> ops | None \<Rightarrow> []) = operations_of p"
          by (simp add: p(1) field_def operations_of_def)
        show thesis
        proof (cases operation)
          case None
          with b t an au a(1) p show thesis
            by - (rule discovered [OF b t r, of "Inr (summary_of v)" a], simp_all add: check_service_def Let_def)
        next
          case (Some name)
          let ?f = "find (\<lambda>op. py_eq (field op ''name'') (JStr name)) (operations_of p)"
          show thesis
          proof (cases ?f)
            case None
            with b t an au Some ops show thesis
              by - (rule discovered [OF b t r, of "Inl (ValueError ''Requested operation is absent from discovery'')"], simp_all add: check_service_def Let_def)
          next
            case d: (Some d)
            then have dm: "d \<in> set (operations_of p)" "field d ''name'' = JStr name" by (auto dest: find_SomeD)
            show thesis
            proof (cases "validate (field d ''input_schema'') params")
              case vf: (Some e)
              with b t an au Some ops d show thesis
                by - (rule discovered [OF b t r, of "Inl e"], simp_all add: check_service_def Let_def)
            next
              case vn: None
              let ?res = "rbind executed (\<lambda>r. rbind (status_ok r) (\<lambda>_. rbind (json_of r) (\<lambda>_. Inr (summary_of v))))"
              show thesis
              proof (rule posted [OF b t r a(1) p(2,3,4) Some dm vn, of ?res])
                show "check_service bk cs validate contract anonymous authorised executed raw token operation params =
                   ([Anonymous (b @ ''/agent-policy''), Authorised (''Bearer '' @ t) (b @ ''/agent-policy''),
                     Posted (''Bearer '' @ t) (b @ str_field d ''path'') params], ?res)"
                  using b t an au Some ops d vn by (simp add: check_service_def Let_def)
                show "\<forall>w. ?res = Inr w \<longrightarrow> (\<exists>x. executed = Inr x \<and> 200 \<le> status_code x \<and> status_code x < 300)"
                  by (auto simp: result_simps status_ok_def)
              qed
            qed
          qed
        qed
      qed
    qed
  qed
qed


definition refusal_reply :: http_reply where
  "refusal_reply = \<lparr>status_code = 401, resp_json = Some (JDict [(''error'', JDict [(''execution'', JStr ''not_started'')])]),
     retry_after = None, cache_control = None\<rparr>"

definition policy_reply :: http_reply where
  "policy_reply = \<lparr>status_code = 200, resp_json = Some (JDict (sample_policy 4 2)), retry_after = None,
     cache_control = Some ''no-store''\<rparr>"


end
