(* ===== verification/Release.thy ===== *)
theory Release
  imports Conformance
begin

text \<open>
  \<^verbatim>\<open>scripts/release.py\<close>, the checks that decide whether a release may be published: the tag and
  package versions, the published tag, the bundle of artifacts and the state of the registries.
  Publishing itself is in the theory Publish.

  Parameters: \<open>digest\<close> is the hexadecimal SHA-256 of a file's bytes, \<open>loads\<close> is \<^verbatim>\<open>json.loads\<close>, and
  \<open>tags\<close> is the answer of GitHub to a tag object request. A directory is the list of its
  entries, a file with its bytes or something else.
\<close>

subsection \<open>Versions\<close>

definition digit_class :: cclass where
  "digit_class = [(CHR ''0'', CHR ''9'')]"

definition number_rx :: rx where
  "number_rx = Alt (lit ''0'') (Seq (Cls [(CHR ''1'', CHR ''9'')]) (Star (Cls digit_class)))"

definition tag_rx :: rx where
  "tag_rx = Seq (lit ''v'') (Seq number_rx (Seq (lit ''.'') (Seq number_rx (Seq (lit ''.'') number_rx))))"

text \<open>One disjunct of the name and version test: the lookups may raise, a difference is refused.\<close>

definition must_equal :: "json \<Rightarrow> string \<Rightarrow> string \<Rightarrow> string \<Rightarrow> unit result" where
  "must_equal doc table key expected =
     rbind (subscript doc table) (\<lambda>t. rbind (subscript t key) (\<lambda>v.
       if py_eq v (JStr expected) then Inr ()
       else Inl (ValueError ''Tag and both package names/versions must match'')))"

definition version_for :: "string \<Rightarrow> json \<Rightarrow> json \<Rightarrow> string result" where
  "version_for tag cargo python =
     (if \<not> fullmatch tag_rx tag then Inl (ValueError ''Use a stable release tag vMAJOR.MINOR.PATCH'')
      else rbind (must_equal cargo ''package'' ''name'' ''ai-protocol'') (\<lambda>_.
           rbind (must_equal python ''project'' ''name'' ''ai-protocol-client'') (\<lambda>_.
           rbind (must_equal cargo ''package'' ''version'' (drop 1 tag)) (\<lambda>_.
           rbind (must_equal python ''project'' ''version'' (drop 1 tag)) (\<lambda>_. Inr (drop 1 tag))))))"

text \<open>\<open>status\<close> and \<open>head\<close> are the outputs of \<^verbatim>\<open>git status --porcelain\<close> and \<^verbatim>\<open>git rev-parse HEAD\<close>.\<close>

definition source_info ::
  "json \<Rightarrow> json \<Rightarrow> string \<Rightarrow> string \<Rightarrow> string \<Rightarrow> (string \<times> string) result" where
  "source_info cargo python status head tag =
     rbind (version_for tag cargo python) (\<lambda>version.
       if py_strip status \<noteq> [] then Inl (ValueError ''Release source must be clean'')
       else Inr (version, py_strip head))"

subsection \<open>The published tag\<close>

record git_ref =
  ref_type :: string
  ref_sha :: string

record gh_release =
  tag_name :: string
  is_draft :: bool
  is_prerelease :: bool
  asset_names :: "string list"
  notes_body :: string

text \<open>The loop that peels annotated tags, \<open>n\<close> rounds at most.\<close>

fun peel :: "(string \<Rightarrow> git_ref result) \<Rightarrow> nat \<Rightarrow> git_ref \<Rightarrow> git_ref result" where
  "peel tags 0 ref = Inr ref"
| "peel tags (Suc n) ref =
     (if ref_type ref \<noteq> ''tag'' then Inr ref else rbind (tags (ref_sha ref)) (peel tags n))"

text \<open>\<open>release\<close> and \<open>ref\<close> are the answers of GitHub to the release and the tag query.\<close>

definition release_info ::
  "(string \<Rightarrow> git_ref result) \<Rightarrow> gh_release result \<Rightarrow> git_ref result \<Rightarrow> string \<Rightarrow> string \<Rightarrow> gh_release result" where
  "release_info tags release ref tag commit =
     rbind release (\<lambda>release.
       if tag_name release \<noteq> tag \<or> is_draft release \<or> is_prerelease release
       then Inl (ValueError ''Publication requires a published, non-prerelease GitHub release'')
       else rbind ref (\<lambda>ref. rbind (peel tags 5 ref) (\<lambda>ref.
         if ref_type ref \<noteq> ''commit'' \<or> ref_sha ref \<noteq> commit
         then Inl (ValueError ''The release tag no longer matches the checked source'')
         else Inr release)))"

subsection \<open>The bundle\<close>

type_synonym directory = "(string \<times> string option) list"

definition crate_name :: "string \<Rightarrow> string" where
  "crate_name version = ''ai-protocol-'' @ version @ ''.crate''"

definition sdist_name :: "string \<Rightarrow> string" where
  "sdist_name version = ''ai_protocol_client-'' @ version @ ''.tar.gz''"

definition wheel_name :: "string \<Rightarrow> string" where
  "wheel_name version = ''ai_protocol_client-'' @ version @ ''-py3-none-any.whl''"

definition names :: "string \<Rightarrow> string list" where
  "names version = [crate_name version, sdist_name version, wheel_name version]"

definition same_names :: "'a list \<Rightarrow> 'a list \<Rightarrow> bool" where
  "same_names xs ys \<longleftrightarrow> set xs = set ys"

definition file_bytes :: "directory \<Rightarrow> string \<Rightarrow> string result" where
  "file_bytes directory name =
     (case dget directory name of Some (Some bytes) \<Rightarrow> Inr bytes | _ \<Rightarrow> Inl OSError)"

text \<open>Iterating a JSON value, and \<^verbatim>\<open>set(...)\<close> of it: a text gives its characters, and an element
  that is a list or a dict is not hashable.\<close>

fun elements :: "json \<Rightarrow> json list result" where
  "elements (JList xs) = Inr xs"
| "elements (JDict d) = Inr (map (\<lambda>kv. JStr (fst kv)) d)"
| "elements (JStr s) = Inr (map (\<lambda>c. JStr [c]) s)"
| "elements _ = Inl TypeError"

definition hashable :: "json \<Rightarrow> bool" where
  "hashable v = (case v of JList _ \<Rightarrow> False | JDict _ \<Rightarrow> False | _ \<Rightarrow> True)"

definition element_set :: "json \<Rightarrow> json list result" where
  "element_set v = rbind (elements v) (\<lambda>xs. if list_all hashable xs then Inr xs else Inl TypeError)"

definition hex_class :: cclass where
  "hex_class = [(CHR ''a'', CHR ''f''), (CHR ''0'', CHR ''9'')]"

definition sha_rx :: rx where
  "sha_rx = rep 64 (Cls hex_class)"

fun check_report_items :: "(string \<Rightarrow> string) \<Rightarrow> directory \<Rightarrow> (string \<times> json) list \<Rightarrow> unit result" where
  "check_report_items digest directory [] = Inr ()"
| "check_report_items digest directory ((name, checksum) # items) =
     (case as_str checksum of
        None \<Rightarrow> Inl TypeError
      | Some s \<Rightarrow>
          if \<not> fullmatch sha_rx s then Inl (ValueError (''Artifact checksum mismatch: '' @ name))
          else rbind (file_bytes directory name) (\<lambda>bytes.
            if digest bytes \<noteq> s then Inl (ValueError (''Artifact checksum mismatch: '' @ name))
            else check_report_items digest directory items))"

definition check_report ::
  "(string \<Rightarrow> string) \<Rightarrow> directory \<Rightarrow> string \<Rightarrow> string \<Rightarrow> json \<Rightarrow> (string, json) dict result" where
  "check_report digest directory version commit report =
     (case as_dict report of
        None \<Rightarrow> Inl AttributeError
      | Some r \<Rightarrow>
          if \<not> py_eq (get r ''source_commit'') (JStr commit) \<or> \<not> py_eq (get r ''version'') (JStr version)
             \<or> get r ''working_tree_dirty'' \<noteq> JBool False
          then Inl (ValueError ''Artifact report must match this clean source and package version'')
          else rbind (element_set (get_or r ''sha256'' (JDict []))) (\<lambda>keys.
            if \<not> same_names keys (map JStr (names version))
            then Inl (ValueError ''Artifact report must match this clean source and package version'')
            else case dget r ''sha256'' of
                   None \<Rightarrow> Inl (KeyError ''sha256'')
                 | Some v \<Rightarrow>
                     (case as_dict v of
                        None \<Rightarrow> Inl AttributeError
                      | Some items \<Rightarrow>
                          rbind (check_report_items digest directory items) (\<lambda>_. Inr items))))"

subsection \<open>The checksum file\<close>

text \<open>\<^verbatim>\<open>str.splitlines\<close> after the newline translation of \<^verbatim>\<open>read_text\<close>.\<close>

definition line_break :: "char \<Rightarrow> bool" where
  "line_break c \<longleftrightarrow> (of_char c :: nat) \<in> {10, 11, 12, 13, 28, 29, 30, 133}"

fun universal_newlines :: "string \<Rightarrow> string" where
  "universal_newlines [] = []"
| "universal_newlines [c] = [if c = CHR 0x0D then CHR 0x0A else c]"
| "universal_newlines (c # c' # s) =
     (if c = CHR 0x0D then (if c' = CHR 0x0A then CHR 0x0A # universal_newlines s
                            else CHR 0x0A # universal_newlines (c' # s))
      else c # universal_newlines (c' # s))"

fun splitlines_from :: "string \<Rightarrow> string \<Rightarrow> string list" where
  "splitlines_from line [] = (if line = [] then [] else [line])"
| "splitlines_from line (c # s) =
     (if line_break c then line # splitlines_from [] s else splitlines_from (line @ [c]) s)"

definition splitlines :: "string \<Rightarrow> string list" where
  "splitlines s = splitlines_from [] s"

text \<open>\<^verbatim>\<open>line.split("  ", 1)\<close>, unpacked into two names.\<close>

fun cut :: "string \<Rightarrow> string \<Rightarrow> (string \<times> string) option" where
  "cut sep [] = (if sep = [] then Some ([], []) else None)"
| "cut sep (c # s) =
     (if startswith (c # s) sep then Some ([], drop (length sep) (c # s))
      else map_option (\<lambda>(a, b). (c # a, b)) (cut sep s))"

fun parse_sums :: "(string, string) dict \<Rightarrow> string list \<Rightarrow> (string, string) dict result" where
  "parse_sums entries [] = Inr entries"
| "parse_sums entries (line # lines) =
     (case cut ''  '' line of
        None \<Rightarrow> Inl (ValueError ''not enough values to unpack (expected 2, got 1)'')
      | Some (checksum, name) \<Rightarrow>
          if dget entries name \<noteq> None then Inl (ValueError ''Duplicate checksum entry'')
          else parse_sums (dset entries name checksum) lines)"

definition read_sums :: "string \<Rightarrow> (string, string) dict result" where
  "read_sums bytes = parse_sums [] (splitlines (universal_newlines bytes))"

fun check_sums :: "(string \<Rightarrow> string) \<Rightarrow> directory \<Rightarrow> (string \<times> string) list \<Rightarrow> unit result" where
  "check_sums digest directory [] = Inr ()"
| "check_sums digest directory ((name, checksum) # entries) =
     rbind (file_bytes directory name) (\<lambda>bytes.
       if digest bytes \<noteq> checksum then Inl (ValueError ''Release checksum file does not match the bundle'')
       else check_sums digest directory entries)"

definition validate_bundle ::
  "(string \<Rightarrow> string) \<Rightarrow> (string \<Rightarrow> json result) \<Rightarrow> directory \<Rightarrow> string \<Rightarrow> string \<Rightarrow>
   (string, json) dict result" where
  "validate_bundle digest loads directory version commit =
     (if \<not> same_names (map fst (filter (\<lambda>e. snd e \<noteq> None) directory))
             (names version @ [''verification.json'', ''SHA256SUMS''])
         \<or> list_ex (\<lambda>e. snd e = None) directory
      then Inl (ValueError ''Release bundle must contain only the three packages, report and checksum file'')
      else rbind (file_bytes directory ''verification.json'') (\<lambda>raw. rbind (loads raw) (\<lambda>report.
        rbind (check_report digest directory version commit report) (\<lambda>checksums.
          rbind (file_bytes directory ''SHA256SUMS'') (\<lambda>text. rbind (read_sums text) (\<lambda>entries.
            if \<not> same_names (dkeys entries) (names version @ [''verification.json''])
            then Inl (ValueError ''SHA256SUMS must cover exactly the packages and verification report'')
            else rbind (check_sums digest directory entries) (\<lambda>_. Inr checksums)))))))"

subsection \<open>Preparing a bundle\<close>

text \<open>\<^verbatim>\<open>sorted\<close> of texts compares code points.\<close>

fun text_le :: "string \<Rightarrow> string \<Rightarrow> bool" where
  "text_le [] t = True"
| "text_le (c # s) [] = False"
| "text_le (c # s) (d # t) =
     ((of_char c :: nat) < of_char d \<or> c = d \<and> text_le s t)"

fun insert_text :: "string \<Rightarrow> string list \<Rightarrow> string list" where
  "insert_text s [] = [s]"
| "insert_text s (t # ts) = (if text_le s t then s # t # ts else t # insert_text s ts)"

definition sort_texts :: "string list \<Rightarrow> string list" where
  "sort_texts ts = foldr insert_text ts []"

definition sums_text :: "(string \<times> string) list \<Rightarrow> string" where
  "sums_text rows = concat (map (\<lambda>(name, checksum). checksum @ ''  '' @ name @ [CHR 0x0A]) rows)"

fun copy_files :: "directory \<Rightarrow> string list \<Rightarrow> (string \<times> string) list result" where
  "copy_files built [] = Inr []"
| "copy_files built (name # rest) =
     rbind (file_bytes built name) (\<lambda>bytes. rbind (copy_files built rest) (\<lambda>files. Inr ((name, bytes) # files)))"

definition wanted_names :: "string \<Rightarrow> string list" where
  "wanted_names version = names version @ [''verification.json'', ''SHA256SUMS'']"

text \<open>The directory built from local artifacts; the checksum lines are in name order.\<close>

definition build_bundle :: "(string \<Rightarrow> string) \<Rightarrow> directory \<Rightarrow> string \<Rightarrow> directory result" where
  "build_bundle digest built version =
     rbind (copy_files built (names version @ [''verification.json''])) (\<lambda>files.
       Inr (map (\<lambda>(name, bytes). (name, Some bytes)) files @
         [(''SHA256SUMS'', Some (sums_text
            (map (\<lambda>name. (name, digest (the (dget files name))))
               (sort_texts (names version @ [''verification.json''])))))]))"

subsection \<open>The registries\<close>

text \<open>\<open>registry_json\<close>: an answer with status 404 is \<open>None\<close>, and so is the body \<^verbatim>\<open>null\<close>.\<close>

definition registry_json :: "response result \<Rightarrow> json option result" where
  "registry_json answer =
     rbind answer (\<lambda>r.
       if status_code r = 404 then Inr None
       else rbind (raise_for_status r) (\<lambda>_. rbind (response_json r) (\<lambda>v.
              Inr (if v = JNull then None else Some v))))"

definition subscript2 :: "json \<Rightarrow> string \<Rightarrow> string \<Rightarrow> json result" where
  "subscript2 v a b = rbind (subscript v a) (\<lambda>w. subscript w b)"

definition checksum_of :: "(string, json) dict \<Rightarrow> string \<Rightarrow> json result" where
  "checksum_of checksums name =
     (case dget checksums name of Some v \<Rightarrow> Inr v | None \<Rightarrow> Inl (KeyError name))"

definition check_crate :: "string \<Rightarrow> (string, json) dict \<Rightarrow> json \<Rightarrow> unit result" where
  "check_crate version checksums rust =
     rbind (subscript2 rust ''version'' ''num'') (\<lambda>num.
       if \<not> py_eq num (JStr version)
       then Inl (ValueError ''crates.io already contains different bytes for this version'')
       else rbind (subscript2 rust ''version'' ''checksum'') (\<lambda>found.
         rbind (checksum_of checksums (crate_name version)) (\<lambda>expected.
           if \<not> py_eq found expected
           then Inl (ValueError ''crates.io already contains different bytes for this version'') else Inr ())))"

text \<open>The files PyPI lists, as a dict from name to checksum.\<close>

fun published_files :: "(json \<times> json) list \<Rightarrow> json list \<Rightarrow> (json \<times> json) list result" where
  "published_files acc [] = Inr acc"
| "published_files acc (file # files) =
     rbind (subscript file ''filename'') (\<lambda>name.
       rbind (subscript2 file ''digests'' ''sha256'') (\<lambda>found.
         if \<not> hashable name then Inl TypeError else published_files (dset acc name found) files))"

fun check_published ::
  "string \<Rightarrow> (string, json) dict \<Rightarrow> (json \<times> json) list \<Rightarrow> unit result" where
  "check_published version checksums [] = Inr ()"
| "check_published version checksums ((name, found) # files) =
     (if \<not> (py_eq name (JStr (sdist_name version)) \<or> py_eq name (JStr (wheel_name version)))
      then Inl (ValueError ''PyPI already contains different files for this version'')
      else rbind (checksum_of checksums (case as_str name of Some s \<Rightarrow> s | None \<Rightarrow> [])) (\<lambda>expected.
        if \<not> py_eq found expected
        then Inl (ValueError ''PyPI already contains different files for this version'')
        else check_published version checksums files))"

definition check_pypi ::
  "string \<Rightarrow> (string, json) dict \<Rightarrow> json option \<Rightarrow> (json \<times> json) list result" where
  "check_pypi version checksums python =
     (case python of
        None \<Rightarrow> Inr []
      | Some v \<Rightarrow>
          rbind (subscript v ''urls'') (\<lambda>urls.
            rbind (elements urls) (\<lambda>files. rbind (published_files [] files) (\<lambda>published.
              rbind (subscript2 v ''info'' ''version'') (\<lambda>num.
                if \<not> py_eq num (JStr version) then Inl (ValueError ''Unexpected PyPI version'')
                else rbind (check_published version checksums published) (\<lambda>_. Inr published))))))"

definition registry_state ::
  "string \<Rightarrow> (string, json) dict \<Rightarrow> response result \<Rightarrow> response result \<Rightarrow> (bool \<times> string list) result" where
  "registry_state version checksums crates_answer pypi_answer =
     rbind (registry_json crates_answer) (\<lambda>rust.
       rbind (case rust of None \<Rightarrow> Inr () | Some v \<Rightarrow> check_crate version checksums v) (\<lambda>_.
         rbind (registry_json pypi_answer) (\<lambda>python.
           rbind (check_pypi version checksums python) (\<lambda>published.
             Inr (rust \<noteq> None,
                  filter (\<lambda>name. dget published (JStr name) = None) [sdist_name version, wheel_name version])))))"

end
