(* ===== verification/Jobs.thy ===== *)
theory Jobs
  imports Prelude
begin

text \<open>
  The actions of the maintenance scripts under \<^verbatim>\<open>scripts/\<close>. What a script does to the world is a list
  of actions, in order: the commands it runs with their arguments, directory and environment
  (\<open>None\<close> where the environment is inherited), the files it writes and copies, its pauses. A \<open>job\<close>
  extends that history and returns a value or raises.

  The logic: \<open>jvalid P m Q E\<close> is partial on nothing, every job returns or raises; \<open>each_allowed\<close> says
  that every action was allowed after what came before it, and \<open>keeps\<close> that a job only does what is
  allowed and preserves a predicate of the history.
\<close>

subsection \<open>Actions and jobs\<close>

datatype act =
    Run "string list" "string option" "(string, string) dict option"
  | Mkdir string
  | Copy string string
  | Extract string string
  | Venv string
  | Write string string
  | Append string string
  | Pause nat

text \<open>What every script reads from its machine: how actions end, given the history, and its settings.\<close>

record machine =
  performed :: "act list \<Rightarrow> act \<Rightarrow> unit result"
  environ :: "(string, string) dict"
  executable :: string
  temporary :: string

type_synonym 'a job = "act list \<Rightarrow> act list \<times> 'a result"

definition jlift :: "'a result \<Rightarrow> 'a job" where
  "jlift r h = (h, r)"

definition jask :: "(act list \<Rightarrow> 'a result) \<Rightarrow> 'a job" where
  "jask q h = (h, q h)"

definition jdo :: "'w machine_scheme \<Rightarrow> act \<Rightarrow> unit job" where
  "jdo w a h = (h @ [a], performed w h a)"

definition jbind :: "'a job \<Rightarrow> ('a \<Rightarrow> 'b job) \<Rightarrow> 'b job" where
  "jbind m f h = (case m h of (h', Inl e) \<Rightarrow> (h', Inl e) | (h', Inr x) \<Rightarrow> f x h')"

fun jeach :: "('a \<Rightarrow> unit job) \<Rightarrow> 'a list \<Rightarrow> unit job" where
  "jeach f [] = jlift (Inr ())"
| "jeach f (x # xs) = jbind (f x) (\<lambda>_. jeach f xs)"

definition child_path :: "string \<Rightarrow> string \<Rightarrow> string" where
  "child_path path name = path @ ''/'' @ name"

subsection \<open>A logic for jobs\<close>

text \<open>From a history in \<open>P\<close>, a returning job ends in \<open>Q\<close> of its value and a raising one in \<open>E\<close>.\<close>

definition jvalid ::
  "(act list \<Rightarrow> bool) \<Rightarrow> 'a job \<Rightarrow> ('a \<Rightarrow> act list \<Rightarrow> bool) \<Rightarrow> (act list \<Rightarrow> bool) \<Rightarrow> bool" where
  "jvalid P m Q E \<longleftrightarrow> (\<forall>h. P h \<longrightarrow> (case m h of (h', Inr x) \<Rightarrow> Q x h' | (h', Inl e) \<Rightarrow> E h'))"

lemma jvalid_run:
  "jvalid P m Q E \<Longrightarrow> P h \<Longrightarrow> m h = (h', r) \<Longrightarrow> (case r of Inr x \<Rightarrow> Q x h' | Inl e \<Rightarrow> E h')"
  unfolding jvalid_def by (drule spec [of _ h]) (simp split: sum.splits)

lemma jvalid_bind: "jvalid P m R E \<Longrightarrow> (\<And>x. jvalid (R x) (f x) Q E) \<Longrightarrow> jvalid P (jbind m f) Q E"
  unfolding jvalid_def jbind_def by (fastforce split: prod.splits sum.splits)

lemma jvalid_lift:
  "(\<And>h x. P h \<Longrightarrow> r = Inr x \<Longrightarrow> Q x h) \<Longrightarrow> (\<And>h. P h \<Longrightarrow> E h) \<Longrightarrow> jvalid P (jlift r) Q E"
  by (auto simp: jvalid_def jlift_def split: sum.splits)

lemma jvalid_ask:
  "(\<And>h x. P h \<Longrightarrow> q h = Inr x \<Longrightarrow> Q x h) \<Longrightarrow> (\<And>h. P h \<Longrightarrow> E h) \<Longrightarrow> jvalid P (jask q) Q E"
  by (auto simp: jvalid_def jask_def split: sum.splits)

lemma jvalid_do:
  "(\<And>h. P h \<Longrightarrow> Q () (h @ [a])) \<Longrightarrow> (\<And>h. P h \<Longrightarrow> E (h @ [a])) \<Longrightarrow> jvalid P (jdo w a) Q E"
  by (auto simp: jvalid_def jdo_def split: sum.splits)

lemma jvalid_weaken:
  "jvalid P m Q E \<Longrightarrow> (\<And>h. P' h \<Longrightarrow> P h) \<Longrightarrow> (\<And>x h. Q x h \<Longrightarrow> Q' x h) \<Longrightarrow> (\<And>h. E h \<Longrightarrow> E' h) \<Longrightarrow>
   jvalid P' m Q' E'"
  unfolding jvalid_def by (fastforce split: prod.splits sum.splits)

lemma jvalid_each_from:
  "(\<And>before x after. xs = before @ x # after \<Longrightarrow> jvalid (I (init @ before)) (f x) (\<lambda>_. I (init @ before @ [x])) E) \<Longrightarrow>
   (\<And>d h. I d h \<Longrightarrow> E h) \<Longrightarrow> jvalid (I init) (jeach f xs) (\<lambda>_. I (init @ xs)) E"
proof (induction xs arbitrary: init)
  case Nil
  then show ?case by (auto intro: jvalid_lift)
next
  case (Cons x xs)
  have "jvalid (I init) (f x) (\<lambda>_. I (init @ [x])) E" using Cons.prems(1) [of "[]" x xs] by simp
  moreover have "jvalid (I (init @ [x])) (jeach f xs) (\<lambda>_. I ((init @ [x]) @ xs)) E"
  proof (rule Cons.IH)
    fix before y after assume "xs = before @ y # after"
    with Cons.prems(1) [of "x # before" y after]
    show "jvalid (I ((init @ [x]) @ before)) (f y) (\<lambda>_. I ((init @ [x]) @ before @ [y])) E" by simp
  qed (rule Cons.prems(2))
  ultimately show ?case by (auto intro: jvalid_bind)
qed

lemma jvalid_each:
  assumes "\<And>before x after. xs = before @ x # after \<Longrightarrow> jvalid (I before) (f x) (\<lambda>_. I (before @ [x])) E"
    and "\<And>d h. I d h \<Longrightarrow> E h"
  shows "jvalid (I []) (jeach f xs) (\<lambda>_. I xs) E"
  using jvalid_each_from [of xs I "[]" f E] assms by simp

lemma jvalid_if: "(b \<Longrightarrow> jvalid P m Q E) \<Longrightarrow> (\<not> b \<Longrightarrow> jvalid P n Q E) \<Longrightarrow> jvalid P (if b then m else n) Q E"
  by simp

text \<open>Every action of the history is allowed after what came before it.\<close>

definition each_allowed :: "(act list \<Rightarrow> act \<Rightarrow> bool) \<Rightarrow> act list \<Rightarrow> bool" where
  "each_allowed ok h \<longleftrightarrow> (\<forall>before a after. h = before @ a # after \<longrightarrow> ok before a)"

lemma each_allowed_Nil [simp]: "each_allowed ok []"
  by (simp add: each_allowed_def)

lemma each_allowed_snoc [simp]: "each_allowed ok (h @ [a]) \<longleftrightarrow> each_allowed ok h \<and> ok h a"
proof
  assume l: "each_allowed ok (h @ [a])"
  have "ok before b" if "h = before @ b # after" for before b after
    using l that unfolding each_allowed_def by (metis append.assoc append_Cons)
  with l show "each_allowed ok h \<and> ok h a" unfolding each_allowed_def by blast
next
  assume r: "each_allowed ok h \<and> ok h a"
  show "each_allowed ok (h @ [a])"
    unfolding each_allowed_def
  proof (intro allI impI)
    fix before b after assume e: "h @ [a] = before @ b # after"
    show "ok before b"
    proof (cases after rule: rev_cases)
      case Nil
      with e r show ?thesis by simp
    next
      case (snoc after' c)
      with e have "h = before @ b # after'" by (metis append.assoc append_Cons butlast_snoc)
      with r show ?thesis unfolding each_allowed_def by blast
    qed
  qed
qed

text \<open>Jobs that only do what is allowed and keep \<open>P\<close>.\<close>

definition keeps :: "(act list \<Rightarrow> act \<Rightarrow> bool) \<Rightarrow> (act list \<Rightarrow> bool) \<Rightarrow> 'a job \<Rightarrow> bool" where
  "keeps ok P m \<longleftrightarrow> jvalid (\<lambda>h. each_allowed ok h \<and> P h) m (\<lambda>_ h. each_allowed ok h \<and> P h) (each_allowed ok)"

lemma keeps_bind: "keeps ok P m \<Longrightarrow> (\<And>x. keeps ok P (f x)) \<Longrightarrow> keeps ok P (jbind m f)"
  unfolding keeps_def by (rule jvalid_bind)

lemma keeps_quiet: "keeps ok P (jlift r)" "keeps ok P (jask q)"
  unfolding keeps_def by (auto intro: jvalid_lift jvalid_ask)

lemma keeps_do:
  "(\<And>h. P h \<Longrightarrow> ok h a \<and> P (h @ [a])) \<Longrightarrow> keeps ok P (jdo w a)"
  "(\<And>h. P h \<Longrightarrow> ok h (Pause n) \<and> P (h @ [Pause n])) \<Longrightarrow> keeps ok P (\<lambda>h. (h @ [Pause n], Inr ()))"
  unfolding keeps_def by (auto simp: jvalid_def jdo_def split: sum.splits)

lemma keeps_each: "(\<And>x. keeps ok P (f x)) \<Longrightarrow> keeps ok P (jeach f xs)"
  by (induction xs) (auto intro: keeps_bind keeps_quiet)

lemma keeps_if: "keeps ok P m \<Longrightarrow> keeps ok P n \<Longrightarrow> keeps ok P (if b then m else n)"
  by simp

lemma keeps_if_cond: "(b \<Longrightarrow> keeps ok P m) \<Longrightarrow> (\<not> b \<Longrightarrow> keeps ok P n) \<Longrightarrow> keeps ok P (if b then m else n)"
  by simp

lemma keeps_prod: "(\<And>a b. keeps ok P (f a b)) \<Longrightarrow> keeps ok P (case p of (a, b) \<Rightarrow> f a b)"
  by (cases p) simp

lemmas keeps_rules = keeps_bind keeps_quiet keeps_do keeps_each keeps_if keeps_prod

abbreviation only :: "(act \<Rightarrow> bool) \<Rightarrow> 'a job \<Rightarrow> bool" where
  "only ok \<equiv> keeps (\<lambda>_. ok) (\<lambda>_. True)"

lemma jbind_lift_ask:
  "jbind (jlift r) f h = (case r of Inl e \<Rightarrow> (h, Inl e) | Inr x \<Rightarrow> f x h)"
  "jbind (jask q) f h = (case q h of Inl e \<Rightarrow> (h, Inl e) | Inr x \<Rightarrow> f x h)"
  by (simp_all add: jbind_def jlift_def jask_def split: sum.splits)

lemma jbind_return: "jbind (jlift (Inr x)) f = f x"
  by (rule ext) (simp add: jbind_lift_ask)

lemma jbind_Inr: "jbind m f h = (h', Inr y) \<longleftrightarrow> (\<exists>g x. m h = (g, Inr x) \<and> f x g = (h', Inr y))"
  by (auto simp: jbind_def split: prod.splits sum.splits)

lemma only_run: "only ok m \<Longrightarrow> each_allowed (\<lambda>_. ok) g \<Longrightarrow> m g = (h, r) \<Longrightarrow> each_allowed (\<lambda>_. ok) h"
proof -
  assume m: "only ok m" "each_allowed (\<lambda>_. ok) g" "m g = (h, r)"
  from jvalid_run [OF m(1) [unfolded keeps_def] _ m(3)] m(2) show "each_allowed (\<lambda>_. ok) h" by (simp split: sum.splits)
qed

end
