(* ===== verification/Publish.thy ===== *)
theory Publish
  imports Release Jobs
begin

text \<open>
  The rest of \<^verbatim>\<open>scripts/release.py\<close>: \<^verbatim>\<open>prepare\<close>, \<^verbatim>\<open>attach_assets\<close>, \<^verbatim>\<open>publish\<close> and \<^verbatim>\<open>main\<close>, as jobs.
  The answers of GitHub, of the registries and of the file system are the record \<open>world\<close>; they may
  depend on the whole history of actions.
\<close>

subsection \<open>The world\<close>

record world = machine +
  released :: "act list \<Rightarrow> gh_release result"
  tag_ref :: "act list \<Rightarrow> git_ref result"
  tag_object :: "act list \<Rightarrow> string \<Rightarrow> git_ref result"
  crates_io :: "act list \<Rightarrow> response result"
  pypi :: "act list \<Rightarrow> response result"
  fetched :: "act list \<Rightarrow> directory"
  bytes_at :: "act list \<Rightarrow> string \<Rightarrow> string result"
  sha256 :: "string \<Rightarrow> string"
  loads_json :: "string \<Rightarrow> json result"
  source_answer :: "(string \<times> string) result"

subsection \<open>Commands\<close>

definition REPOSITORY :: string where
  "REPOSITORY = ''Xenox-developer/ai-protocol''"

definition gh_download :: "string \<Rightarrow> string \<Rightarrow> string list \<Rightarrow> act" where
  "gh_download tag path wanted =
     Run ([''gh'', ''release'', ''download'', tag, ''--repo'', REPOSITORY, ''--dir'', path]
          @ concat (map (\<lambda>name. [''--pattern'', name]) (sort_texts wanted))) None None"

definition gh_upload :: "string \<Rightarrow> string \<Rightarrow> act" where
  "gh_upload tag path = Run [''gh'', ''release'', ''upload'', tag, path, ''--repo'', REPOSITORY] None None"

definition gh_edit :: "string \<Rightarrow> string \<Rightarrow> act" where
  "gh_edit tag notes = Run [''gh'', ''release'', ''edit'', tag, ''--repo'', REPOSITORY, ''--notes-file'', notes] None None"

definition cargo_package :: "string \<Rightarrow> (string, string) dict \<Rightarrow> act" where
  "cargo_package source env = Run [''cargo'', ''package'', ''--locked'', ''--no-verify''] (Some source) (Some env)"

definition cargo_publish :: "string \<Rightarrow> (string, string) dict \<Rightarrow> act" where
  "cargo_publish source env =
     Run [''cargo'', ''publish'', ''--locked'', ''--registry'', ''crates-io'', ''--no-verify''] (Some source) (Some env)"

definition twine_check :: "string \<Rightarrow> string list \<Rightarrow> (string, string) dict \<Rightarrow> act" where
  "twine_check exe paths env = Run ([exe, ''-m'', ''twine'', ''check'', ''--strict''] @ paths) None (Some env)"

definition twine_upload :: "string \<Rightarrow> string list \<Rightarrow> (string, string) dict \<Rightarrow> act" where
  "twine_upload exe paths env =
     Run ([exe, ''-m'', ''twine'', ''upload'', ''--non-interactive'', ''--disable-progress-bar'',
           ''--repository-url'', ''https://upload.pypi.org/legacy/'', ''--username'', ''__token__''] @ paths)
         None (Some env)"

subsection \<open>Preparing\<close>

definition release_check :: "world \<Rightarrow> string \<Rightarrow> string \<Rightarrow> gh_release job" where
  "release_check w tag commit = jask (\<lambda>h. release_info (tag_object w h) (released w h) (tag_ref w h) tag commit)"

text \<open>The result is the content of the new directory.\<close>

definition prepare :: "world \<Rightarrow> string \<Rightarrow> directory \<Rightarrow> string \<Rightarrow> directory job" where
  "prepare w tag built destination =
     jbind (jlift (source_answer w)) (\<lambda>(version, commit).
     jbind (release_check w tag commit) (\<lambda>release.
       let wanted = wanted_names version;
           present = filter (\<lambda>name. name \<in> set (asset_names release)) wanted
       in jbind (jdo w (Mkdir destination)) (\<lambda>_.
          jbind (if present \<noteq> []
                 then (if \<not> same_names present wanted
                       then jlift (Inl (ValueError ''Incomplete release assets: rerun the failed publish job from its original run''))
                       else jbind (jdo w (gh_download tag destination wanted)) (\<lambda>_. jask (\<lambda>h. Inr (fetched w h))))
                 else jlift (build_bundle (sha256 w) built version))
            (\<lambda>directory.
              jbind (jlift (validate_bundle (sha256 w) (loads_json w) directory version commit)) (\<lambda>_.
                jlift (Inr directory))))))"

subsection \<open>Attaching the verified files\<close>

text \<open>\<^verbatim>\<open>any(digest(...) != digest(...) for name in present)\<close>; \<open>found\<close> is the temporary directory.\<close>

fun any_differs :: "(string \<Rightarrow> string) \<Rightarrow> directory \<Rightarrow> directory \<Rightarrow> string list \<Rightarrow> bool result" where
  "any_differs digest found directory [] = Inr False"
| "any_differs digest found directory (name # rest) =
     rbind (file_bytes found name) (\<lambda>a. rbind (file_bytes directory name) (\<lambda>b.
       if digest a \<noteq> digest b then Inr True else any_differs digest found directory rest))"

definition attach_assets :: "world \<Rightarrow> string \<Rightarrow> string \<Rightarrow> directory \<Rightarrow> gh_release \<Rightarrow> unit job" where
  "attach_assets w tag path directory release =
     (let existing = asset_names release;
          present = filter (\<lambda>name. name \<in> set existing) (map fst directory)
      in jbind (if present \<noteq> []
                then jbind (jdo w (gh_download tag (temporary w) present)) (\<lambda>_.
                     jbind (jask (\<lambda>h. any_differs (sha256 w) (fetched w h) directory present)) (\<lambda>differs.
                       jlift (if differs
                              then Inl (ValueError ''Existing GitHub assets differ; never overwrite a release bundle'')
                              else Inr ())))
                else jlift (Inr ()))
           (\<lambda>_. jeach (\<lambda>name. if name \<notin> set existing then jdo w (gh_upload tag (child_path path name))
                               else jlift (Inr ()))
                 (sort_texts (map fst directory))))"

subsection \<open>The release notes\<close>

definition start_mark :: string where
  "start_mark = ''<!-- ai-protocol-publication:start -->''"

definition end_mark :: string where
  "end_mark = ''<!-- ai-protocol-publication:end -->''"

text \<open>\<^verbatim>\<open>str.count\<close> of a nonempty text: occurrences that do not overlap, from the left.\<close>

function count_of :: "string \<Rightarrow> string \<Rightarrow> nat" where
  "count_of m [] = 0"
| "count_of m (c # s) = (if startswith (c # s) m then Suc (count_of m (drop (length m - 1) s)) else count_of m s)"
  by pat_completeness auto

termination
  by (relation "measure (length \<circ> snd)") auto

definition nl :: string where
  "nl = [CHR 0x0A]"

definition notes_block :: "string \<Rightarrow> string \<Rightarrow> string \<Rightarrow> string" where
  "notes_block version commit run =
     start_mark @ nl @ ''## Automated registry publication'' @ nl @ nl @
     ''Published and verified: [crates.io '' @ version @ ''](https://crates.io/crates/ai-protocol/'' @ version @ '') '' @
     ''and [PyPI '' @ version @ ''](https://pypi.org/project/ai-protocol-client/'' @ version @ ''/).'' @ nl @ nl @
     ''Registry checksums match the tested release assets. Source: `'' @ commit @ ''`. '' @
     ''[Workflow run](https://github.com/'' @ REPOSITORY @ ''/actions/runs/'' @ run @ '').'' @ nl @ end_mark"

text \<open>\<open>cut\<close> gives \<^verbatim>\<open>body[:body.index(m)]\<close> and what follows the first \<^verbatim>\<open>m\<close>.\<close>

definition update_notes :: "string \<Rightarrow> string \<Rightarrow> string result" where
  "update_notes body block =
     (case (cut start_mark body, cut end_mark body) of
        (None, None) \<Rightarrow> Inr (rstrip_of py_space body @ nl @ nl @ block @ nl)
      | (Some (before, _), Some (front, after)) \<Rightarrow>
          if count_of start_mark body \<noteq> 1 \<or> count_of end_mark body \<noteq> 1 \<or> length before > length front
          then Inl (ValueError ''Malformed automated publication block'')
          else Inr (before @ block @ after)
      | _ \<Rightarrow> Inl (ValueError ''Malformed automated publication block''))"

subsection \<open>Publishing\<close>

definition removed_variables :: "string list" where
  "removed_variables = [''CARGO_REGISTRY_TOKEN'', ''PYPI_API_TOKEN'', ''GH_TOKEN'', ''GITHUB_TOKEN'',
     ''CARGO_REGISTRIES_CRATES_IO_TOKEN'', ''TWINE_PASSWORD'', ''TWINE_REPOSITORY_URL'']"

definition child_environment :: "(string, string) dict \<Rightarrow> (string, string) dict" where
  "child_environment env = fold (\<lambda>name e. dpop e name) removed_variables env"

definition registries :: "world \<Rightarrow> string \<Rightarrow> (string, json) dict \<Rightarrow> (bool \<times> string list) job" where
  "registries w version checksums = jask (\<lambda>h. registry_state version checksums (crates_io w h) (pypi w h))"

text \<open>\<^verbatim>\<open>Path\<close> of the target directory: a relative one is below the source.\<close>

definition target_dir :: "string \<Rightarrow> (string, string) dict \<Rightarrow> string" where
  "target_dir source env =
     (let target = (case dget env ''CARGO_TARGET_DIR'' of Some t \<Rightarrow> t | None \<Rightarrow> child_path source ''target'')
      in if startswith target ''/'' then target else child_path source target)"

definition publish_crate ::
  "world \<Rightarrow> string \<Rightarrow> string \<Rightarrow> (string, json) dict \<Rightarrow> (string, string) dict \<Rightarrow> string \<Rightarrow> unit job" where
  "publish_crate w source version checksums env token =
     jbind (jdo w (cargo_package source env)) (\<lambda>_.
     jbind (jask (\<lambda>h. bytes_at w h (child_path (child_path (target_dir source env) ''package'') (crate_name version)))) (\<lambda>bytes.
     jbind (jlift (checksum_of checksums (crate_name version))) (\<lambda>expected.
       if \<not> py_eq expected (JStr (sha256 w bytes))
       then jlift (Inl (ValueError ''Cargo would upload a different crate than the tested artifact''))
       else jdo w (cargo_publish source (dset env ''CARGO_REGISTRY_TOKEN'' token)))))"

definition publish_python ::
  "world \<Rightarrow> string \<Rightarrow> string list \<Rightarrow> (string, string) dict \<Rightarrow> string \<Rightarrow> unit job" where
  "publish_python w path missing env token =
     jbind (jdo w (twine_check (executable w) (map (child_path path) missing) env)) (\<lambda>_.
       jdo w (twine_upload (executable w) (map (child_path path) missing) (dset env ''TWINE_PASSWORD'' token)))"

text \<open>The visibility loop, with the rounds that are left.\<close>

fun await_visible :: "world \<Rightarrow> string \<Rightarrow> (string, json) dict \<Rightarrow> nat \<Rightarrow> unit job" where
  "await_visible w version checksums 0 = jlift (Inr ())"
| "await_visible w version checksums (Suc left) =
     jbind (registries w version checksums) (\<lambda>(crate_there, missing).
       if crate_there \<and> missing = [] then jlift (Inr ())
       else if left = 0
       then jlift (Inl (ValueError ''Registry visibility timed out; retry this publish job with the same artifacts''))
       else jbind (\<lambda>h. (h @ [Pause 5], Inr ())) (\<lambda>_. await_visible w version checksums left))"

definition write_notes :: "world \<Rightarrow> string \<Rightarrow> string \<Rightarrow> string \<Rightarrow> string \<Rightarrow> unit job" where
  "write_notes w tag version commit notes =
     jbind (release_check w tag commit) (\<lambda>release.
     jbind (jlift (case dget (environ w) ''GITHUB_RUN_ID'' of
                     Some run \<Rightarrow> update_notes (notes_body release) (notes_block version commit run)
                   | None \<Rightarrow> Inl (KeyError ''GITHUB_RUN_ID''))) (\<lambda>body.
     jbind (jdo w (Write notes body)) (\<lambda>_. jdo w (gh_edit tag notes))))"

text \<open>What \<open>publish\<close> does once its checks have passed; \<open>path\<close> is the bundle's path, \<open>directory\<close> its
  content, \<open>notes\<close> the path of the notes file.\<close>

definition publish_steps ::
  "world \<Rightarrow> string \<Rightarrow> string \<Rightarrow> string \<Rightarrow> directory \<Rightarrow> string \<Rightarrow> string \<Rightarrow> string \<Rightarrow> (string, json) dict \<Rightarrow>
   gh_release \<Rightarrow> bool \<Rightarrow> string list \<Rightarrow> unit job" where
  "publish_steps w source tag path directory notes version commit checksums release crate_there missing =
     jbind (attach_assets w tag path directory release) (\<lambda>_.
       let env = child_environment (environ w)
       in jbind (if \<not> crate_there
                 then publish_crate w source version checksums env (getenv (environ w) ''CARGO_REGISTRY_TOKEN'')
                 else jlift (Inr ())) (\<lambda>_.
          jbind (if missing \<noteq> []
                 then publish_python w path missing env (getenv (environ w) ''PYPI_API_TOKEN'')
                 else jlift (Inr ())) (\<lambda>_.
          jbind (await_visible w version checksums 12) (\<lambda>_.
            write_notes w tag version commit notes))))"

definition publish :: "world \<Rightarrow> string \<Rightarrow> string \<Rightarrow> string \<Rightarrow> directory \<Rightarrow> string \<Rightarrow> unit job" where
  "publish w source tag path directory notes =
     jbind (jlift (source_answer w)) (\<lambda>(version, commit).
     jbind (jlift (validate_bundle (sha256 w) (loads_json w) directory version commit)) (\<lambda>checksums.
     jbind (release_check w tag commit) (\<lambda>release.
       if getenv (environ w) ''CARGO_REGISTRY_TOKEN'' = [] \<or> getenv (environ w) ''PYPI_API_TOKEN'' = []
       then jlift (Inl (ValueError ''Both registry environment secrets must be configured''))
       else jbind (registries w version checksums) (\<lambda>(crate_there, missing).
         publish_steps w source tag path directory notes version commit checksums release crate_there missing))))"

subsection \<open>The command line\<close>

datatype command =
    CheckTag
  | Validate
  | Prepare directory string
  | Publish string string directory string

definition release_main :: "world \<Rightarrow> string \<Rightarrow> command \<Rightarrow> unit job" where
  "release_main w tag command =
     (case command of
        CheckTag \<Rightarrow> jlift (if fullmatch tag_rx tag then Inr ()
                           else Inl (ValueError ''Use a stable release tag vMAJOR.MINOR.PATCH''))
      | Validate \<Rightarrow>
          jbind (jlift (source_answer w)) (\<lambda>(version, commit).
          jbind (release_check w tag commit) (\<lambda>_.
            if getenv (environ w) ''GITHUB_OUTPUT'' \<noteq> []
            then jdo w (Append (getenv (environ w) ''GITHUB_OUTPUT'')
                   (''version='' @ version @ nl @ ''commit='' @ commit @ nl @ ''tag='' @ tag @ nl))
            else jlift (Inr ())))
      | Prepare built destination \<Rightarrow> jbind (prepare w tag built destination) (\<lambda>_. jlift (Inr ()))
      | Publish source path directory notes \<Rightarrow> publish w source tag path directory notes)"

end
