(* ===== verification/Release_Props.thy ===== *)
theory Release_Props
  imports Release
begin

text \<open>
  What the release checks of the theory Release establish: the checksum file is read back as it
  was written, a validated bundle holds exactly the tested bytes, the published tag names the
  checked commit, and the registries hold nothing but those bytes.
\<close>

subsection \<open>Texts\<close>

lemma universal_newlines_id: "CHR 0x0D \<notin> set s \<Longrightarrow> universal_newlines s = s"
  by (induction s rule: universal_newlines.induct) auto

lemma splitlines_from_line:
  "\<forall>c \<in> set body. \<not> line_break c \<Longrightarrow>
   splitlines_from line (body @ CHR 0x0A # rest) = (line @ body) # splitlines_from [] rest"
proof (induction body arbitrary: line)
  case Nil
  have "line_break CHR 0x0A" by (simp add: line_break_def)
  then show ?case by simp
qed simp

lemma splitlines_rows:
  "\<forall>r \<in> set rows. \<forall>c \<in> set (fst r) \<union> set (snd r). \<not> line_break c \<Longrightarrow>
   splitlines_from [] (sums_text rows) = map (\<lambda>(name, checksum). checksum @ ''  '' @ name) rows"
proof (induction rows)
  case (Cons row rows)
  obtain name checksum where row: "row = (name, checksum)" by fastforce
  have "\<not> line_break CHR '' ''" by (simp add: line_break_def)
  then have "\<forall>c \<in> set (checksum @ ''  '' @ name). \<not> line_break c" using Cons.prems row by auto
  from splitlines_from_line [OF this, of "[]" "sums_text rows"] Cons row show ?case
    by (simp add: sums_text_def)
qed (simp add: sums_text_def)

lemma cut_first: "CHR '' '' \<notin> set checksum \<Longrightarrow> cut ''  '' (checksum @ ''  '' @ name) = Some (checksum, name)"
  by (induction checksum) (auto simp: startswith_def)

lemma parse_sums_rows:
  "\<forall>r \<in> set rows. CHR '' '' \<notin> set (snd r) \<Longrightarrow> distinct (map fst (done @ rows)) \<Longrightarrow>
   parse_sums done (map (\<lambda>(name, checksum). checksum @ ''  '' @ name) rows) = Inr (done @ rows)"
proof (induction rows arbitrary: "done")
  case (Cons row rows)
  obtain name checksum where row: "row = (name, checksum)" by fastforce
  have c: "cut ''  '' (checksum @ ''  '' @ name) = Some (checksum, name)"
    by (rule cut_first) (use Cons.prems(1) row in simp)
  have n: "dget done name = None" using Cons.prems(2) row by (auto simp: dget_None_iff dkeys_def)
  have "dset done name checksum = done @ [(name, checksum)]" using n
    by (induction "done" name checksum rule: dset.induct) (auto split: if_splits)
  with c n Cons.IH [of "done @ [(name, checksum)]"] Cons.prems row show ?case by simp
qed simp

lemma rows_no_cr:
  "\<forall>r \<in> set rows. \<forall>c \<in> set (fst r) \<union> set (snd r). \<not> line_break c \<Longrightarrow> CHR 0x0D \<notin> set (sums_text rows)"
proof (induction rows)
  case (Cons row rows)
  have "line_break CHR 0x0D" by (simp add: line_break_def)
  with Cons show ?case by (cases row) (auto simp: sums_text_def)
qed (simp add: sums_text_def)

lemma read_sums_rows:
  assumes "distinct (map fst rows)"
    and "\<forall>r \<in> set rows. CHR '' '' \<notin> set (snd r) \<and> (\<forall>c \<in> set (fst r) \<union> set (snd r). \<not> line_break c)"
  shows "read_sums (sums_text rows) = Inr rows"
proof -
  have b: "\<forall>r \<in> set rows. \<forall>c \<in> set (fst r) \<union> set (snd r). \<not> line_break c" using assms(2) by blast
  have "parse_sums [] (map (\<lambda>(name, checksum). checksum @ ''  '' @ name) rows) = Inr ([] @ rows)"
    using assms by (intro parse_sums_rows) auto
  with universal_newlines_id [OF rows_no_cr [OF b]] splitlines_rows [OF b] show ?thesis
    by (simp add: read_sums_def splitlines_def)
qed

text \<open>
  The checksum file round-trips: what \<open>prepare\<close> writes (one line per file, checksum, two
  spaces, name) is read back by the validation as exactly the same entries in the same order,
  for distinct names and for names and checksums without line breaks and checksums without
  spaces.
\<close>

theorem checksum_file_roundtrip:
  assumes "distinct (map fst rows)"
    and "\<forall>r \<in> set rows. CHR '' '' \<notin> set (snd r) \<and> (\<forall>c \<in> set (fst r) \<union> set (snd r). \<not> line_break c)"
  shows "read_sums (sums_text rows) = Inr rows"
  using assms by (rule read_sums_rows)

theorem checksum_file_roundtrip_witness:
  "read_sums (sums_text [(''a.crate'', ''0f''), (''b.whl'', ''1e'')]) = Inr [(''a.crate'', ''0f''), (''b.whl'', ''1e'')]"
  by (rule checksum_file_roundtrip) (simp_all add: line_break_def)

subsection \<open>The bundle\<close>

lemma check_report_items_iff:
  "check_report_items digest directory items = Inr () \<longleftrightarrow>
     (\<forall>(name, v) \<in> set items. \<exists>bytes. file_bytes directory name = Inr bytes \<and>
        v = JStr (digest bytes) \<and> fullmatch sha_rx (digest bytes))"
proof (induction items)
  case (Cons item items)
  obtain name v where item: "item = (name, v)" by fastforce
  have "check_report_items digest directory ((name, v) # items) = Inr () \<longleftrightarrow>
      (\<exists>bytes. file_bytes directory name = Inr bytes \<and> v = JStr (digest bytes) \<and> fullmatch sha_rx (digest bytes)) \<and>
      check_report_items digest directory items = Inr ()"
  proof (cases v)
    case (JStr s)
    show ?thesis by (cases "file_bytes directory name"; cases "fullmatch sha_rx s") (auto simp: JStr)
  qed simp_all
  with Cons item show ?case by simp
qed simp

lemma check_sums_iff:
  "check_sums digest directory entries = Inr () \<longleftrightarrow>
     (\<forall>(name, checksum) \<in> set entries. \<exists>bytes. file_bytes directory name = Inr bytes \<and> digest bytes = checksum)"
proof (induction entries)
  case (Cons e entries)
  obtain name checksum where e: "e = (name, checksum)" by fastforce
  have "check_sums digest directory ((name, checksum) # entries) = Inr () \<longleftrightarrow>
      (\<exists>bytes. file_bytes directory name = Inr bytes \<and> digest bytes = checksum) \<and>
      check_sums digest directory entries = Inr ()"
    by (cases "file_bytes directory name") auto
  with Cons e show ?case by simp
qed simp

lemma same_names_JStr: "same_names (map (\<lambda>kv. JStr (fst kv)) d) (map JStr ns) \<longleftrightarrow> fst ` set d = set ns"
proof -
  have "JStr ` (fst ` set d) = JStr ` set ns \<longleftrightarrow> fst ` set d = set ns"
    by (rule inj_image_eq_iff) (simp add: inj_def)
  then show ?thesis by (simp add: same_names_def image_image)
qed

text \<open>What an accepted report says.\<close>

definition report_of :: "json \<Rightarrow> string \<Rightarrow> string \<Rightarrow> (string, json) dict \<Rightarrow> bool" where
  "report_of v version commit items \<longleftrightarrow> (\<exists>r. v = JDict r \<and> get r ''source_commit'' = JStr commit \<and>
     get r ''version'' = JStr version \<and> get r ''working_tree_dirty'' = JBool False \<and>
     dget r ''sha256'' = Some (JDict items) \<and> fst ` set items = set (names version))"

lemma check_report_iff:
  "check_report digest directory version commit v = Inr items \<longleftrightarrow>
     report_of v version commit items \<and> check_report_items digest directory items = Inr ()"
proof (cases "as_dict v")
  case None
  then show ?thesis by (auto simp: check_report_def report_of_def)
next
  case (Some r)
  then have v: "v = JDict r" by simp
  let ?ok = "get r ''source_commit'' = JStr commit \<and> get r ''version'' = JStr version \<and>
      get r ''working_tree_dirty'' = JBool False"
  let ?body = "rbind (element_set (get_or r ''sha256'' (JDict []))) (\<lambda>keys.
      if \<not> same_names keys (map JStr (names version))
      then Inl (ValueError ''Artifact report must match this clean source and package version'')
      else case dget r ''sha256'' of
             None \<Rightarrow> Inl (KeyError ''sha256'')
           | Some v \<Rightarrow>
               (case as_dict v of
                  None \<Rightarrow> Inl AttributeError
                | Some items \<Rightarrow> rbind (check_report_items digest directory items) (\<lambda>_. Inr items)))"
  have c: "check_report digest directory version commit v =
      (if ?ok then ?body else Inl (ValueError ''Artifact report must match this clean source and package version''))"
    by (simp add: check_report_def v)
  have e: "get_or r ''sha256'' (JDict []) = JDict d \<Longrightarrow>
      element_set (get_or r ''sha256'' (JDict [])) = Inr (map (\<lambda>kv. JStr (fst kv)) d)" for d
    by (simp add: element_set_def list_all_iff hashable_def)
  have b: "?body = Inr items \<longleftrightarrow> dget r ''sha256'' = Some (JDict items) \<and> fst ` set items = set (names version) \<and>
      check_report_items digest directory items = Inr ()"
  proof
    assume "?body = Inr items"
    then obtain keys w where k: "element_set (get_or r ''sha256'' (JDict [])) = Inr keys"
      "same_names keys (map JStr (names version))" "dget r ''sha256'' = Some w"
      "(case as_dict w of None \<Rightarrow> Inl AttributeError
        | Some items \<Rightarrow> rbind (check_report_items digest directory items) (\<lambda>_. Inr items)) = Inr items"
      by (auto simp: result_simps split: if_splits option.splits)
    then have w: "w = JDict items" "check_report_items digest directory items = Inr ()"
      by (auto simp: result_simps split: option.splits)
    with k have "get_or r ''sha256'' (JDict []) = JDict items" by (simp add: get_or_def)
    from e [OF this] k w show "dget r ''sha256'' = Some (JDict items) \<and> fst ` set items = set (names version) \<and>
      check_report_items digest directory items = Inr ()" by (simp add: same_names_JStr)
  next
    assume a: "dget r ''sha256'' = Some (JDict items) \<and> fst ` set items = set (names version) \<and>
      check_report_items digest directory items = Inr ()"
    then have "get_or r ''sha256'' (JDict []) = JDict items" by (simp add: get_or_def)
    from e [OF this] a show "?body = Inr items" by (simp add: same_names_JStr)
  qed
  show ?thesis unfolding c report_of_def using b v by auto
qed

lemma validate_bundle_iff:
  "validate_bundle digest loads directory version commit = Inr items \<longleftrightarrow>
     (\<forall>e \<in> set directory. snd e \<noteq> None) \<and> fst ` set directory = set (wanted_names version) \<and>
     (\<exists>raw v listing entries. file_bytes directory ''verification.json'' = Inr raw \<and> loads raw = Inr v \<and>
        report_of v version commit items \<and> check_report_items digest directory items = Inr () \<and>
        file_bytes directory ''SHA256SUMS'' = Inr listing \<and> read_sums listing = Inr entries \<and>
        fst ` set entries = set (names version @ [''verification.json'']) \<and>
        check_sums digest directory entries = Inr ())"
proof -
  have f: "filter (\<lambda>e. snd e \<noteq> None) directory = directory" if "\<forall>e \<in> set directory. snd e \<noteq> None"
    using that by (simp add: filter_id_conv)
  have "\<not> (\<not> same_names (map fst (filter (\<lambda>e. snd e \<noteq> None) directory)) (wanted_names version)
         \<or> list_ex (\<lambda>e. snd e = None) directory) \<longleftrightarrow>
      (\<forall>e \<in> set directory. snd e \<noteq> None) \<and> fst ` set directory = set (wanted_names version)"
  proof (cases "\<forall>e \<in> set directory. snd e \<noteq> None")
    case True
    then have "\<not> list_ex (\<lambda>e. snd e = None) directory" by (simp add: list_ex_iff)
    with f [OF True] True show ?thesis by (simp add: same_names_def)
  next
    case False
    then show ?thesis by (auto simp: list_ex_iff)
  qed
  then show ?thesis
    unfolding validate_bundle_def wanted_names_def [symmetric]
    by (auto simp: result_simps check_report_iff same_names_def dkeys_def)
qed

text \<open>
  Claim C20. A validated bundle is exactly what was tested: the directory holds the three packages,
  the report and the checksum file and nothing else; the report is for this version and this
  clean commit; every package has, in the report and in the checksum file, the SHA-256 of the
  bytes that are in the directory, written as 64 lower-case hexadecimal digits.
\<close>

theorem validate_bundle_sound:
  assumes "validate_bundle digest loads directory version commit = Inr items"
  shows "(\<forall>e \<in> set directory. snd e \<noteq> None) \<and>
    fst ` set directory = set (names version) \<union> {''verification.json'', ''SHA256SUMS''} \<and>
    fst ` set items = set (names version) \<and>
    (\<forall>(name, v) \<in> set items. \<exists>bytes. file_bytes directory name = Inr bytes \<and> v = JStr (digest bytes) \<and>
       length (digest bytes) = 64 \<and> (\<forall>c \<in> set (digest bytes). in_class hex_class c)) \<and>
    (\<exists>raw report. file_bytes directory ''verification.json'' = Inr raw \<and> loads raw = Inr (JDict report) \<and>
       get report ''source_commit'' = JStr commit \<and> get report ''version'' = JStr version \<and>
       get report ''working_tree_dirty'' = JBool False) \<and>
    (\<exists>listing entries. file_bytes directory ''SHA256SUMS'' = Inr listing \<and> read_sums listing = Inr entries \<and>
       fst ` set entries = set (names version) \<union> {''verification.json''} \<and>
       (\<forall>(name, checksum) \<in> set entries. \<exists>bytes. file_bytes directory name = Inr bytes \<and> digest bytes = checksum))"
proof -
  have h: "fullmatch sha_rx s \<longleftrightarrow> length s = 64 \<and> (\<forall>c \<in> set s. in_class hex_class c)" for s
    unfolding fullmatch_lang sha_rx_def lang_rep_Cls by simp
  obtain raw v listing entries where b: "\<forall>e \<in> set directory. snd e \<noteq> None"
      "fst ` set directory = set (wanted_names version)"
      "file_bytes directory ''verification.json'' = Inr raw" "loads raw = Inr v"
      "report_of v version commit items" "check_report_items digest directory items = Inr ()"
      "file_bytes directory ''SHA256SUMS'' = Inr listing" "read_sums listing = Inr entries"
      "fst ` set entries = set (names version @ [''verification.json''])"
      "check_sums digest directory entries = Inr ()"
    using assms [unfolded validate_bundle_iff] by (elim conjE exE) (rule that; assumption)
  from b(5) obtain report where r: "v = JDict report" "get report ''source_commit'' = JStr commit"
    "get report ''version'' = JStr version" "get report ''working_tree_dirty'' = JBool False"
    "fst ` set items = set (names version)" by (auto simp: report_of_def)
  have "fst ` set directory = set (names version) \<union> {''verification.json'', ''SHA256SUMS''}"
    using b(2) by (simp add: wanted_names_def)
  moreover have e: "fst ` set entries = set (names version) \<union> {''verification.json''}" using b(9) by simp
  have "\<exists>listing entries. file_bytes directory ''SHA256SUMS'' = Inr listing \<and> read_sums listing = Inr entries \<and>
       fst ` set entries = set (names version) \<union> {''verification.json''} \<and>
       (\<forall>(name, checksum) \<in> set entries. \<exists>bytes. file_bytes directory name = Inr bytes \<and> digest bytes = checksum)"
    by (intro exI conjI, rule b(7), rule b(8), rule e, rule b(10) [unfolded check_sums_iff])
  moreover have "\<forall>(name, v) \<in> set items. \<exists>bytes. file_bytes directory name = Inr bytes \<and> v = JStr (digest bytes) \<and>
       length (digest bytes) = 64 \<and> (\<forall>c \<in> set (digest bytes). in_class hex_class c)"
    by (rule b(6) [unfolded check_report_items_iff h])
  moreover have "\<exists>raw report. file_bytes directory ''verification.json'' = Inr raw \<and> loads raw = Inr (JDict report) \<and>
       get report ''source_commit'' = JStr commit \<and> get report ''version'' = JStr version \<and>
       get report ''working_tree_dirty'' = JBool False"
    by (intro exI conjI, rule b(3), rule b(4) [unfolded r(1)], rule r(2), rule r(3), rule r(4))
  ultimately show ?thesis
    using b(1) r(5) by (intro conjI) assumption+
qed

definition sample_digest :: "string \<Rightarrow> string" where
  "sample_digest bytes = replicate 63 CHR ''a'' @ [hex_digit (length bytes mod 16)]"

definition sample_report :: json where
  "sample_report = JDict [(''source_commit'', JStr ''c0ffee''), (''version'', JStr ''1.2.3''),
     (''working_tree_dirty'', JBool False),
     (''sha256'', JDict (map (\<lambda>name. (name, JStr (sample_digest ''pkg''))) (names ''1.2.3'')))]"

definition sample_built :: directory where
  "sample_built = map (\<lambda>name. (name, Some ''pkg'')) (names ''1.2.3'') @ [(''verification.json'', Some ''{}'')]"

definition sample_bundle :: directory where
  "sample_bundle = (case build_bundle sample_digest sample_built ''1.2.3'' of Inr d \<Rightarrow> d | Inl _ \<Rightarrow> [])"

lemma sample_bundle_valid:
  "validate_bundle sample_digest (\<lambda>_. Inr sample_report) sample_bundle ''1.2.3'' ''c0ffee'' =
     Inr (map (\<lambda>name. (name, JStr (sample_digest ''pkg''))) (names ''1.2.3''))"
  by code_simp

theorem validate_bundle_sound_witness:
  "fst ` set sample_bundle = set (names ''1.2.3'') \<union> {''verification.json'', ''SHA256SUMS''}"
  using validate_bundle_sound [OF sample_bundle_valid] by (elim conjE)

subsection \<open>Building a bundle\<close>

lemma set_insert_text [simp]: "set (insert_text s ts) = insert s (set ts)"
  by (induction ts) auto

lemma distinct_insert_text: "distinct ts \<Longrightarrow> s \<notin> set ts \<Longrightarrow> distinct (insert_text s ts)"
  by (induction ts) auto

lemma sort_texts_perm: "set (sort_texts ts) = set ts" "distinct ts \<Longrightarrow> distinct (sort_texts ts)"
proof (induction ts)
  case (Cons s ts)
  { case 1 show ?case using Cons(1) by (simp add: sort_texts_def) }
  { case 2 then show ?case using Cons by (simp add: sort_texts_def distinct_insert_text) }
qed (simp_all add: sort_texts_def)

lemma version_chars: "fullmatch tag_rx tag \<Longrightarrow> c \<in> set (drop 1 tag) \<Longrightarrow> \<not> line_break c"
proof -
  assume m: "fullmatch tag_rx tag" "c \<in> set (drop 1 tag)"
  then have "rx_char tag_rx c" by (intro fullmatch_rx_char [OF m(1)]) (auto dest: in_set_dropD)
  then have "is_digit c \<or> (of_char c :: nat) = 46 \<or> (of_char c :: nat) = 118"
    by (auto simp: tag_rx_def number_rx_def digit_class_def in_class_def char_in_def)
  then show ?thesis by (auto simp: line_break_def char_in_def)
qed

lemma names_distinct: "distinct (names version @ [''verification.json'', ''SHA256SUMS''])"
  by (simp add: names_def crate_name_def sdist_name_def wheel_name_def)

lemma names_no_break:
  "\<forall>c \<in> set version. \<not> line_break c \<Longrightarrow> n \<in> set (names version @ [''verification.json'']) \<Longrightarrow>
   c \<in> set n \<Longrightarrow> \<not> line_break c"
  by (auto simp: names_def crate_name_def sdist_name_def wheel_name_def line_break_def)

lemma copy_files_ok:
  "copy_files built ns = Inr files \<Longrightarrow>
     map fst files = ns \<and> (\<forall>(n, bytes) \<in> set files. file_bytes built n = Inr bytes)"
  by (induction ns arbitrary: files) (auto simp: result_simps)

lemma file_bytes_bundle:
  assumes "distinct (map fst files)" and "(n, bytes) \<in> set files"
  shows "file_bytes (map (\<lambda>(n, bytes). (n, Some bytes)) files @ rest) n = Inr bytes" and "dget files n = Some bytes"
proof -
  show d: "dget files n = Some bytes" using assms by (simp add: dget_def)
  have "dget (map (\<lambda>(n, bytes). (n, Some bytes)) files @ rest) n = Some (Some bytes)"
    using assms by (induction files) (auto simp: image_iff)
  then show "file_bytes (map (\<lambda>(n, bytes). (n, Some bytes)) files @ rest) n = Inr bytes"
    by (simp add: file_bytes_def)
qed

text \<open>
  Preparing from local artifacts works and changes no byte: for a stable tag, when the report is
  for this version and clean commit and its checksums are those of the built packages, the
  bundle \<open>prepare\<close> assembles passes the validation with the report's checksums.
\<close>

lemma built_bundle_valid:
  assumes tag: "fullmatch tag_rx tag" and version: "version = drop 1 tag"
    and hex: "\<And>bytes. fullmatch sha_rx (digest bytes)"
    and build: "build_bundle digest built version = Inr directory"
    and report: "file_bytes built ''verification.json'' = Inr raw" "loads raw = Inr v"
      "report_of v version commit items" "check_report_items digest built items = Inr ()"
  shows "validate_bundle digest loads directory version commit = Inr items \<and>
    (\<forall>n \<in> set (names version). file_bytes directory n = file_bytes built n)"
proof -
  let ?ns = "names version @ [''verification.json'']"
  obtain files where copy: "copy_files built ?ns = Inr files"
    and dir: "directory = map (\<lambda>(n, bytes). (n, Some bytes)) files @ [(''SHA256SUMS'',
        Some (sums_text (map (\<lambda>n. (n, digest (the (dget files n)))) (sort_texts ?ns))))]"
    using build by (auto simp: build_bundle_def result_simps)
  define rows where "rows = map (\<lambda>n. (n, digest (the (dget files n)))) (sort_texts ?ns)"
  note dir = dir [folded rows_def]
  note files = copy_files_ok [OF copy]
  have dist: "distinct ?ns" "''SHA256SUMS'' \<notin> set ?ns" using names_distinct [of version] by simp_all
  have df: "distinct (map fst files)" using files dist(1) by simp
  have same: "\<exists>bytes. (n, bytes) \<in> set files \<and> file_bytes directory n = Inr bytes \<and> file_bytes built n = Inr bytes \<and>
      dget files n = Some bytes" if "n \<in> set ?ns" for n
  proof -
    have "n \<in> set (map fst files)" using that files by simp
    then obtain bytes where b: "(n, bytes) \<in> set files" by auto
    with files have "file_bytes built n = Inr bytes" by blast
    with b file_bytes_bundle [OF df b] dir show ?thesis by blast
  qed
  have sums: "file_bytes directory ''SHA256SUMS'' = Inr (sums_text rows)"
  proof -
    have "''SHA256SUMS'' \<notin> set (map fst files)" using files dist(2) by simp
    then have "dget (map (\<lambda>(n, bytes). (n, Some bytes)) files @ r) ''SHA256SUMS'' = dget r ''SHA256SUMS''" for r
      by (induction files) auto
    then show ?thesis by (simp add: dir file_bytes_def)
  qed
  have nb: "\<forall>c \<in> set version. \<not> line_break c" using version_chars [OF tag] version by blast
  have sp: "CHR '' '' \<notin> set (digest b) \<and> (\<forall>c \<in> set (digest b). \<not> line_break c)" for b
  proof -
    have "rx_char sha_rx c \<longrightarrow> c \<noteq> CHR '' '' \<and> \<not> line_break c" for c
    proof -
      have "rx_char (rep n (Cls hex_class)) c \<longrightarrow> in_class hex_class c" for n by (induction n) auto
      then show ?thesis
        by (auto simp: sha_rx_def hex_class_def in_class_def char_in_def line_break_def)
    qed
    with fullmatch_rx_char [OF hex] show ?thesis by blast
  qed
  have "read_sums (sums_text rows) = Inr rows"
  proof (rule read_sums_rows)
    show "distinct (map fst rows)" using sort_texts_perm(2) [OF dist(1)] by (simp add: rows_def comp_def)
    show "\<forall>r \<in> set rows. CHR '' '' \<notin> set (snd r) \<and> (\<forall>c \<in> set (fst r) \<union> set (snd r). \<not> line_break c)"
      using sp names_no_break [OF nb] unfolding rows_def
      by (auto simp: sort_texts_perm(1) simp del: set_append append.simps)
  qed
  moreover have "fst ` set rows = set ?ns" by (simp add: rows_def image_image sort_texts_perm(1))
  moreover have "check_sums digest directory rows = Inr ()"
    unfolding check_sums_iff
  proof clarify
    fix n s assume "(n, s) \<in> set rows"
    then have n: "n \<in> set ?ns" and s: "s = digest (the (dget files n))"
      unfolding rows_def by (auto simp: sort_texts_perm(1) simp del: set_append append.simps)
    from same [OF n] s show "\<exists>bytes. file_bytes directory n = Inr bytes \<and> digest bytes = s" by auto
  qed
  moreover have "check_report_items digest directory items = Inr ()"
  proof -
    have "fst ` set items = set (names version)" using report(3) by (auto simp: report_of_def)
    then have "\<forall>(n, w) \<in> set items. n \<in> set ?ns" by force
    with same report(4) show ?thesis unfolding check_report_items_iff by fastforce
  qed
  moreover have "file_bytes directory ''verification.json'' = Inr raw"
    using same [of "''verification.json''"] report(1) by auto
  moreover have "fst ` set directory = set (wanted_names version)"
  proof -
    have "map fst (map (\<lambda>(n, bytes). (n, Some bytes)) files) = map fst files" by auto
    then have "map fst directory = map fst files @ [''SHA256SUMS'']" unfolding dir by simp
    then have "fst ` set directory = set (map fst files @ [''SHA256SUMS''])" by (metis list.set_map)
    with files show ?thesis by (auto simp: wanted_names_def)
  qed
  moreover have "\<forall>e \<in> set directory. snd e \<noteq> None" by (auto simp: dir)
  ultimately have "validate_bundle digest loads directory version commit = Inr items"
    unfolding validate_bundle_iff using sums report(2,3) by (intro conjI exI) assumption+
  moreover have "\<forall>n \<in> set (names version). file_bytes directory n = file_bytes built n"
    using same by force
  ultimately show ?thesis by blast
qed

subsection \<open>The published tag\<close>

text \<open>An annotated tag leads, in \<open>n\<close> steps, to the object it names.\<close>

inductive leads_to :: "(string \<Rightarrow> git_ref result) \<Rightarrow> git_ref \<Rightarrow> nat \<Rightarrow> git_ref \<Rightarrow> bool"
  for tags :: "string \<Rightarrow> git_ref result" where
  here: "leads_to tags ref 0 ref"
| tagged: "ref_type ref = ''tag'' \<Longrightarrow> tags (ref_sha ref) = Inr ref' \<Longrightarrow> leads_to tags ref' n target \<Longrightarrow>
    leads_to tags ref (Suc n) target"

inductive_cases leads_to_0E: "leads_to tags ref 0 target"
inductive_cases leads_to_SucE: "leads_to tags ref (Suc n) target"

lemma peel_leads_to: "peel tags k ref = Inr target \<Longrightarrow> \<exists>n \<le> k. leads_to tags ref n target"
proof (induction tags k ref rule: peel.induct)
  case (2 tags k ref)
  show ?case
  proof (cases "ref_type ref = ''tag''")
    case True
    with "2.prems" obtain ref' where r: "tags (ref_sha ref) = Inr ref'" "peel tags k ref' = Inr target"
      by (auto simp: result_simps)
    with "2.IH" [of ref'] True obtain n where "n \<le> k" "leads_to tags ref' n target" by auto
    with r True have "Suc n \<le> Suc k \<and> leads_to tags ref (Suc n) target" by (auto intro: leads_to.tagged)
    then show ?thesis by blast
  next
    case False
    with "2.prems" show ?thesis by (auto intro: leads_to.here)
  qed
qed (auto intro: leads_to.here)

lemma leads_to_peel:
  "leads_to tags ref n target \<Longrightarrow> n \<le> k \<Longrightarrow> ref_type target \<noteq> ''tag'' \<Longrightarrow> peel tags k ref = Inr target"
proof (induction arbitrary: k rule: leads_to.induct)
  case (here ref)
  then show ?case by (cases k) simp_all
next
  case (tagged ref ref' n target)
  then obtain k' where "k = Suc k'" "n \<le> k'" by (cases k) auto
  with tagged show ?case by simp
qed

text \<open>
  A release passes exactly when it is published under that tag (neither draft nor
  prerelease) and its tag leads, through at most five annotated tag objects, to the checked
  commit; the release is then returned unchanged.
\<close>

theorem release_info_iff:
  "release_info tags release ref tag commit = Inr r \<longleftrightarrow>
     release = Inr r \<and> tag_name r = tag \<and> \<not> is_draft r \<and> \<not> is_prerelease r \<and>
     (\<exists>first. ref = Inr first \<and>
       (\<exists>n \<le> 5. \<exists>target. leads_to tags first n target \<and> ref_type target = ''commit'' \<and> ref_sha target = commit))"
proof -
  have "(\<exists>target. peel tags 5 first = Inr target \<and> ref_type target = ''commit'' \<and> ref_sha target = commit) \<longleftrightarrow>
     (\<exists>n \<le> 5. \<exists>target. leads_to tags first n target \<and> ref_type target = ''commit'' \<and> ref_sha target = commit)" for first
  proof
    assume "\<exists>target. peel tags 5 first = Inr target \<and> ref_type target = ''commit'' \<and> ref_sha target = commit"
    with peel_leads_to [of tags 5 first] show "\<exists>n \<le> 5. \<exists>target. leads_to tags first n target \<and>
       ref_type target = ''commit'' \<and> ref_sha target = commit" by blast
  next
    assume "\<exists>n \<le> 5. \<exists>target. leads_to tags first n target \<and> ref_type target = ''commit'' \<and> ref_sha target = commit"
    then obtain n target where "n \<le> 5" "leads_to tags first n target" "ref_type target = ''commit''"
      "ref_sha target = commit" by (elim exE conjE)
    with leads_to_peel [of tags first n target 5]
    show "\<exists>target. peel tags 5 first = Inr target \<and> ref_type target = ''commit'' \<and> ref_sha target = commit"
      by simp
  qed
  note p = this [symmetric]
  show ?thesis unfolding release_info_def p by (auto simp: result_simps)
qed

theorem release_info_iff_witness:
  "release_info (\<lambda>sha. Inr \<lparr>ref_type = ''commit'', ref_sha = ''c0ffee''\<rparr>)
     (Inr \<lparr>tag_name = ''v1.2.3'', is_draft = False, is_prerelease = False, asset_names = [], notes_body = []\<rparr>)
     (Inr \<lparr>ref_type = ''tag'', ref_sha = ''beef''\<rparr>) ''v1.2.3'' ''c0ffee'' =
   Inr \<lparr>tag_name = ''v1.2.3'', is_draft = False, is_prerelease = False, asset_names = [], notes_body = []\<rparr>"
proof -
  have "leads_to (\<lambda>sha. Inr \<lparr>ref_type = ''commit'', ref_sha = ''c0ffee''\<rparr>) \<lparr>ref_type = ''tag'', ref_sha = ''beef''\<rparr>
      (Suc 0) \<lparr>ref_type = ''commit'', ref_sha = ''c0ffee''\<rparr>"
    by (rule leads_to.tagged, simp, simp, rule leads_to.here)
  then have "\<exists>n \<le> 5. \<exists>target. leads_to (\<lambda>sha. Inr \<lparr>ref_type = ''commit'', ref_sha = ''c0ffee''\<rparr>)
      \<lparr>ref_type = ''tag'', ref_sha = ''beef''\<rparr> n target \<and> ref_type target = ''commit'' \<and> ref_sha target = ''c0ffee''"
    by (intro exI [where x = "Suc 0"] conjI exI) (assumption | simp)+
  then show ?thesis unfolding release_info_iff by simp
qed

subsection \<open>The registries\<close>

lemma check_crate_iff:
  "check_crate version checksums v = Inr () \<longleftrightarrow>
     (\<exists>found. subscript2 v ''version'' ''num'' = Inr (JStr version) \<and> subscript2 v ''version'' ''checksum'' = Inr found \<and>
       (\<exists>expected. dget checksums (crate_name version) = Some expected \<and> py_eq found expected))"
  by (auto simp: check_crate_def checksum_of_def result_simps split: option.splits if_splits)

lemma check_published_iff:
  "check_published version checksums files = Inr () \<longleftrightarrow>
     (\<forall>(name, found) \<in> set files. \<exists>n \<in> {sdist_name version, wheel_name version}. name = JStr n \<and>
        (\<exists>expected. dget checksums n = Some expected \<and> py_eq found expected))"
proof (induction files)
  case (Cons f files)
  obtain name found where f: "f = (name, found)" by fastforce
  have "check_published version checksums ((name, found) # files) = Inr () \<longleftrightarrow>
      (\<exists>n \<in> {sdist_name version, wheel_name version}. name = JStr n \<and>
        (\<exists>expected. dget checksums n = Some expected \<and> py_eq found expected)) \<and>
      check_published version checksums files = Inr ()"
    by (auto simp: checksum_of_def result_simps split: option.splits if_splits)
  with Cons f show ?case by simp
qed simp

text \<open>What the accumulated dict holds: the last listing of a name counts.\<close>

lemma published_files_dget:
  "published_files acc files = Inr published \<Longrightarrow>
     (dget published name \<noteq> None \<longleftrightarrow> dget acc name \<noteq> None \<or>
        (\<exists>f \<in> set files. subscript f ''filename'' = Inr name))"
proof (induction acc files rule: published_files.induct)
  case (2 acc item items)
  then obtain n c where n: "subscript item ''filename'' = Inr n" "published_files (dset acc n c) items = Inr published"
      "subscript2 item ''digests'' ''sha256'' = Inr c" "hashable n"
    by (auto simp: result_simps split: if_splits)
  with "2.IH" [of n c] show ?case by (auto simp: dict_simps)
qed simp

lemma published_files_item:
  "published_files acc files = Inr published \<Longrightarrow> dget published name = Some found \<Longrightarrow>
     dget acc name = Some found \<or>
     (\<exists>f \<in> set files. subscript f ''filename'' = Inr name \<and> subscript2 f ''digests'' ''sha256'' = Inr found)"
proof (induction acc files rule: published_files.induct)
  case (2 acc item items)
  then obtain n c where n: "subscript item ''filename'' = Inr n" "published_files (dset acc n c) items = Inr published"
      "subscript2 item ''digests'' ''sha256'' = Inr c" "hashable n"
    by (auto simp: result_simps split: if_splits)
  with "2.IH" [of n c] "2.prems"(2) show ?case by (auto simp: dict_simps split: if_splits)
qed simp

lemma published_files_named:
  "published_files acc files = Inr published \<Longrightarrow> \<forall>f \<in> set files. \<exists>name. subscript f ''filename'' = Inr name"
  by (induction acc files rule: published_files.induct) (auto simp: result_simps split: if_splits)

lemma validated_checksum:
  assumes "validate_bundle digest loads directory version commit = Inr checksums" "dget checksums n = Some expected"
  shows "\<exists>bytes. file_bytes directory n = Inr bytes \<and> expected = JStr (digest bytes)"
proof -
  have "check_report_items digest directory checksums = Inr ()"
    using assms(1) [unfolded validate_bundle_iff] by (elim conjE exE)
  with dget_SomeD [OF assms(2)] show ?thesis unfolding check_report_items_iff by fastforce
qed

text \<open>The bytes of the bundle's file of that name have the digest \<open>found\<close>.\<close>

definition holds_bytes :: "(string \<Rightarrow> string) \<Rightarrow> directory \<Rightarrow> string \<Rightarrow> json \<Rightarrow> bool" where
  "holds_bytes digest directory n found \<longleftrightarrow>
     (\<exists>bytes. file_bytes directory n = Inr bytes \<and> found = JStr (digest bytes))"

lemma validated_holds:
  assumes "validate_bundle digest loads directory version commit = Inr checksums" "dget checksums n = Some expected"
    and "py_eq found expected"
  shows "holds_bytes digest directory n found"
  using validated_checksum [OF assms(1,2)] assms(3) by (auto simp: holds_bytes_def)

lemma check_pypi_Some:
  assumes v: "validate_bundle digest loads directory version commit = Inr checksums"
    and c: "check_pypi version checksums (Some doc) = Inr published"
  shows "subscript2 doc ''info'' ''version'' = Inr (JStr version) \<and>
    (\<exists>urls files. subscript doc ''urls'' = Inr urls \<and> elements urls = Inr files \<and>
      (\<forall>n. dget published (JStr n) \<noteq> None \<longleftrightarrow> (\<exists>f \<in> set files. subscript f ''filename'' = Inr (JStr n))) \<and>
      (\<forall>f \<in> set files. \<exists>n \<in> {sdist_name version, wheel_name version}. subscript f ''filename'' = Inr (JStr n)) \<and>
      (\<forall>n found. dget published (JStr n) = Some found \<longrightarrow>
         (\<exists>f \<in> set files. subscript f ''filename'' = Inr (JStr n) \<and> subscript2 f ''digests'' ''sha256'' = Inr found) \<and>
         holds_bytes digest directory n found))"
proof -
  obtain urls files where u: "subscript doc ''urls'' = Inr urls" "elements urls = Inr files"
      "published_files [] files = Inr published" "subscript2 doc ''info'' ''version'' = Inr (JStr version)"
      "check_published version checksums published = Inr ()"
    using c by (auto simp: check_pypi_def result_simps split: if_splits)
  have dom: "dget published name \<noteq> None \<longleftrightarrow> (\<exists>f \<in> set files. subscript f ''filename'' = Inr name)" for name
    using published_files_dget [OF u(3)] by simp
  have named: "\<exists>n \<in> {sdist_name version, wheel_name version}. name = JStr n \<and> holds_bytes digest directory n found"
    if "dget published name = Some found" for name found
    using u(5) dget_SomeD [OF that] validated_holds [OF v] unfolding check_published_iff by fast
  have a: "\<exists>n \<in> {sdist_name version, wheel_name version}. subscript f ''filename'' = Inr (JStr n)"
    if f: "f \<in> set files" for f
  proof -
    have "\<exists>name. subscript f ''filename'' = Inr name" using published_files_named [OF u(3)] f by blast
    then obtain name where name: "subscript f ''filename'' = Inr name" by blast
    with f dom [of name] have "dget published name \<noteq> None" by blast
    with named name show ?thesis by fastforce
  qed
  have b: "(\<exists>f \<in> set files. subscript f ''filename'' = Inr (JStr n) \<and> subscript2 f ''digests'' ''sha256'' = Inr found) \<and>
         holds_bytes digest directory n found" if "dget published (JStr n) = Some found" for n found
    using published_files_item [OF u(3) that] named [OF that] by auto
  show ?thesis using u(1,2,4) dom a b by blast
qed

text \<open>What an answer of each registry lets through.\<close>

definition crate_matches :: "(string \<Rightarrow> string) \<Rightarrow> directory \<Rightarrow> string \<Rightarrow> json \<Rightarrow> bool" where
  "crate_matches digest directory version v \<longleftrightarrow> subscript2 v ''version'' ''num'' = Inr (JStr version) \<and>
     (\<exists>found. subscript2 v ''version'' ''checksum'' = Inr found \<and>
        holds_bytes digest directory (crate_name version) found)"

definition lists_file :: "json list \<Rightarrow> string \<Rightarrow> bool" where
  "lists_file files n \<longleftrightarrow> (\<exists>f \<in> set files. subscript f ''filename'' = Inr (JStr n))"

definition pypi_matches :: "(string \<Rightarrow> string) \<Rightarrow> directory \<Rightarrow> string \<Rightarrow> string list \<Rightarrow> json \<Rightarrow> bool" where
  "pypi_matches digest directory version missing doc \<longleftrightarrow> subscript2 doc ''info'' ''version'' = Inr (JStr version) \<and>
     (\<exists>urls files. subscript doc ''urls'' = Inr urls \<and> elements urls = Inr files \<and>
        (\<forall>f \<in> set files. \<exists>n \<in> {sdist_name version, wheel_name version}. subscript f ''filename'' = Inr (JStr n)) \<and>
        missing = filter (\<lambda>n. \<not> lists_file files n) [sdist_name version, wheel_name version] \<and>
        (\<forall>n. lists_file files n \<longrightarrow>
          (\<exists>f \<in> set files. \<exists>found. subscript f ''filename'' = Inr (JStr n) \<and>
             subscript2 f ''digests'' ''sha256'' = Inr found \<and> holds_bytes digest directory n found)))"

lemma check_crate_matches:
  "validate_bundle digest loads directory version commit = Inr checksums \<Longrightarrow>
   check_crate version checksums v = Inr () \<Longrightarrow> crate_matches digest directory version v"
  using validated_holds unfolding check_crate_iff crate_matches_def by blast

lemma check_pypi_matches:
  assumes "validate_bundle digest loads directory version commit = Inr checksums"
    and "check_pypi version checksums (Some doc) = Inr published"
  shows "pypi_matches digest directory version
    (filter (\<lambda>n. dget published (JStr n) = None) [sdist_name version, wheel_name version]) doc"
proof -
  note d = check_pypi_Some [OF assms]
  obtain urls files where u: "subscript doc ''urls'' = Inr urls" "elements urls = Inr files"
      "\<forall>n. dget published (JStr n) \<noteq> None \<longleftrightarrow> (\<exists>f \<in> set files. subscript f ''filename'' = Inr (JStr n))"
      "\<forall>f \<in> set files. \<exists>n \<in> {sdist_name version, wheel_name version}. subscript f ''filename'' = Inr (JStr n)"
      "\<forall>n found. dget published (JStr n) = Some found \<longrightarrow>
       (\<exists>f \<in> set files. subscript f ''filename'' = Inr (JStr n) \<and> subscript2 f ''digests'' ''sha256'' = Inr found) \<and>
       holds_bytes digest directory n found"
    using d [THEN conjunct2] by (elim exE conjE) (rule that; assumption)
  have l: "lists_file files n \<longleftrightarrow> dget published (JStr n) \<noteq> None" for n
    using u(3) unfolding lists_file_def by blast
  have e: "\<forall>n. lists_file files n \<longrightarrow>
      (\<exists>f \<in> set files. \<exists>found. subscript f ''filename'' = Inr (JStr n) \<and>
         subscript2 f ''digests'' ''sha256'' = Inr found \<and> holds_bytes digest directory n found)"
    unfolding l using u(5) by blast
  have m: "filter (\<lambda>n. dget published (JStr n) = None) [sdist_name version, wheel_name version] =
      filter (\<lambda>n. \<not> lists_file files n) [sdist_name version, wheel_name version]" by (simp add: l)
  show ?thesis
    unfolding pypi_matches_def using d [THEN conjunct1]
    by (intro conjI exI) (assumption, rule u(1), rule u(2), rule u(4), rule m, rule e)
qed

text \<open>
  The registry check lets a publication go on only when nothing foreign is published under
  this version. If crates.io knows the version, its checksum is that of the bundle's crate
  (\<open>crate_matches\<close>); if PyPI knows it, every file it lists is the sdist or the wheel, and each
  listed name has a listing with the checksum of the bundle's file (\<open>pypi_matches\<close>). The answer is
  whether the crate is there and, in this order, which of sdist and wheel are not listed.
\<close>

theorem registry_state_sound:
  assumes "validate_bundle digest loads directory version commit = Inr checksums"
    and "registry_state version checksums crates_answer pypi_answer = Inr (crate_there, missing)"
  shows "\<exists>rust python. registry_json crates_answer = Inr rust \<and> registry_json pypi_answer = Inr python \<and>
    (crate_there \<longleftrightarrow> rust \<noteq> None) \<and>
    (\<forall>v. rust = Some v \<longrightarrow> crate_matches digest directory version v) \<and>
    (python = None \<longrightarrow> missing = [sdist_name version, wheel_name version]) \<and>
    (\<forall>doc. python = Some doc \<longrightarrow> pypi_matches digest directory version missing doc)"
proof -
  obtain rust python published where r: "registry_json crates_answer = Inr rust"
      "(case rust of None \<Rightarrow> Inr () | Some v \<Rightarrow> check_crate version checksums v) = Inr ()"
      "registry_json pypi_answer = Inr python" "check_pypi version checksums python = Inr published"
      "crate_there = (rust \<noteq> None)"
      "missing = filter (\<lambda>n. dget published (JStr n) = None) [sdist_name version, wheel_name version]"
    using assms(2) unfolding registry_state_def rbind_Inr_iff sum.inject prod.inject
    by - (elim exE conjE, rule that, assumption, simp, assumption, assumption, rule sym, assumption, rule sym, assumption)
  have "\<forall>v. rust = Some v \<longrightarrow> crate_matches digest directory version v"
    using r(2) check_crate_matches [OF assms(1)] by auto
  moreover have "python = None \<longrightarrow> missing = [sdist_name version, wheel_name version]"
    using r(4) unfolding r(6) by (cases python) (auto simp: check_pypi_def)
  moreover have "\<forall>doc. python = Some doc \<longrightarrow> pypi_matches digest directory version missing doc"
    using r(4) check_pypi_matches [OF assms(1)] unfolding r(6) by blast
  ultimately show ?thesis using r(1,3,5) by blast
qed

definition sample_checksums :: "(string, json) dict" where
  "sample_checksums = map (\<lambda>name. (name, JStr (sample_digest ''pkg''))) (names ''1.2.3'')"

definition sample_listing :: json where
  "sample_listing = JDict [(''info'', JDict [(''version'', JStr ''1.2.3'')]),
     (''urls'', JList [JDict [(''filename'', JStr (sdist_name ''1.2.3'')),
        (''digests'', JDict [(''sha256'', JStr (sample_digest ''pkg''))])]])]"

lemma sample_registry:
  "registry_state ''1.2.3'' sample_checksums
     (Inr \<lparr>status_code = 404, resp_json = None, retry_after = None\<rparr>)
     (Inr \<lparr>status_code = 200, resp_json = Some sample_listing, retry_after = None\<rparr>) =
   Inr (False, [wheel_name ''1.2.3''])"
  by code_simp

theorem registry_state_sound_witness:
  "\<exists>python. registry_json (Inr \<lparr>status_code = 200, resp_json = Some sample_listing, retry_after = None\<rparr>) = Inr python \<and>
     python \<noteq> None \<and>
     (\<forall>doc. python = Some doc \<longrightarrow> pypi_matches sample_digest sample_bundle ''1.2.3'' [wheel_name ''1.2.3''] doc)"
proof -
  from registry_state_sound [OF sample_bundle_valid [folded sample_checksums_def] sample_registry]
  obtain python where p: "registry_json (Inr \<lparr>status_code = 200, resp_json = Some sample_listing, retry_after = None\<rparr>) = Inr python"
      "\<forall>doc. python = Some doc \<longrightarrow> pypi_matches sample_digest sample_bundle ''1.2.3'' [wheel_name ''1.2.3''] doc" by blast
  have "python \<noteq> None" using p(1) by (auto simp: registry_json_def raise_for_status_def is_success_def
        response_json_def sample_listing_def)
  with p show ?thesis by blast
qed

end
