(* ===== verification/Publish_Props.thy ===== *)
theory Publish_Props
  imports Publish Release_Props
begin

text \<open>
  What publishing does and does not do: the order of its actions, what each command's
  environment holds, what is true of the registries and the notes when it succeeds, and that
  rewriting the notes is idempotent.
\<close>

subsection \<open>Markers in the notes\<close>

text \<open>A marker starts with its only opening angle bracket, so occurrences cannot overlap others.\<close>

locale marker =
  fixes m m' :: string
  assumes marker: "m = CHR ''<'' # m'" and bracket_once: "CHR ''<'' \<notin> set m'"
begin

lemma count_Cons: "count_of m (c # s) = (if startswith (c # s) m then Suc (count_of m (drop (length m') s)) else count_of m s)"
  by (simp add: marker)

lemma count_mark: "count_of m (m @ s) = Suc (count_of m s)"
  using count_Cons [of "CHR ''<''" "m' @ s"] by (simp add: marker startswith_def)

lemma count_no_bracket: "CHR ''<'' \<notin> set s \<Longrightarrow> count_of m (s @ t) = count_of m t"
proof (induction s)
  case (Cons c s)
  then have "\<not> startswith (c # s @ t) m" by (auto simp: marker startswith_def)
  with Cons show ?case by simp
qed simp

lemma startswith_split:
  "startswith (a @ CHR ''<'' # b) m \<Longrightarrow> a \<noteq> [] \<Longrightarrow> startswith a m"
proof -
  assume s: "startswith (a @ CHR ''<'' # b) m" and a: "a \<noteq> []"
  then obtain t where t: "a @ CHR ''<'' # b = m @ t" by (auto simp: startswith_iff)
  obtain a' where a': "a = CHR ''<'' # a'" using t a by (cases a) (simp_all add: marker)
  with t have e: "a' @ CHR ''<'' # b = m' @ t" by (simp add: marker)
  have "length m' \<le> length a'"
  proof (rule ccontr)
    assume "\<not> length m' \<le> length a'"
    then have l: "length a' < length m'" by simp
    have "(a' @ CHR ''<'' # b) ! length a' = CHR ''<''" by simp
    moreover have "(m' @ t) ! length a' = m' ! length a'" using l by (simp add: nth_append)
    ultimately have "m' ! length a' = CHR ''<''" using e by simp
    with l bracket_once show False by (metis nth_mem)
  qed
  then have "take (length m') a' = m'" using e by (metis append_eq_append_conv_if take_all)
  then show ?thesis by (simp add: a' marker startswith_def)
qed

lemma count_append: "count_of m (a @ CHR ''<'' # b) = count_of m a + count_of m (CHR ''<'' # b)"
proof (induction "length a" arbitrary: a rule: less_induct)
  case less
  show ?case
  proof (cases a)
    case (Cons c a')
    show ?thesis
    proof (cases "startswith a m")
      case True
      then obtain t where t: "a = m @ t" by (auto simp: startswith_iff)
      have "length t < length a" by (simp add: t marker)
      from less [OF this] have "count_of m (t @ CHR ''<'' # b) = count_of m t + count_of m (CHR ''<'' # b)" .
      then show ?thesis by (simp add: t count_mark)
    next
      case False
      then have "\<not> startswith (a @ CHR ''<'' # b) m" using startswith_split Cons by blast
      with False less [of a'] Cons show ?thesis by simp
    qed
  qed simp
qed

lemma cut_None: "cut m s = None \<longleftrightarrow> count_of m s = 0"
proof (induction s)
  case Nil
  show ?case by (simp add: marker)
next
  case (Cons c s)
  then show ?case by (cases "startswith (c # s) m"; cases "cut m s") auto
qed

lemma cut_Some: "cut m s = Some (a, r) \<Longrightarrow> s = a @ m @ r \<and> count_of m a = 0"
proof (induction s arbitrary: a)
  case Nil
  then show ?case by (simp add: marker)
next
  case (Cons c s)
  show ?case
  proof (cases "startswith (c # s) m")
    case True
    then obtain t where t: "c # s = m @ t" by (auto simp: startswith_iff)
    from Cons.prems True have "a = []" "r = drop (length m) (c # s)" by auto
    then show ?thesis unfolding t by simp
  next
    case False
    with Cons.prems obtain a' where a': "a = c # a'" "cut m s = Some (a', r)"
      by (auto simp: map_option_case split: option.splits)
    from Cons.IH [OF a'(2)] have s: "s = a' @ m @ r" "count_of m a' = 0" by simp_all
    have "\<not> startswith (c # a') m"
    proof
      assume "startswith (c # a') m"
      then obtain t where "c # a' = m @ t" by (auto simp: startswith_iff)
      then have "c # s = m @ (t @ m @ r)" by (simp add: s(1) flip: append_Cons)
      with False show False by (metis startswith_append)
    qed
    with s a' show ?thesis by simp
  qed
qed

lemma count_snoc: "count_of m s = 0 \<Longrightarrow> last m \<noteq> c \<Longrightarrow> count_of m (s @ [c]) = 0"
proof (rule ccontr)
  assume s: "count_of m s = 0" "last m \<noteq> c" and "count_of m (s @ [c]) \<noteq> 0"
  then obtain a r where "cut m (s @ [c]) = Some (a, r)" using cut_None by (cases "cut m (s @ [c])") auto
  from cut_Some [OF this] have d: "s @ [c] = a @ m @ r" by blast
  show False
  proof (cases r rule: rev_cases)
    case Nil
    have "last (a @ m) = last m" by (simp add: marker)
    with d Nil s(2) show False by (metis append_Nil2 last_snoc)
  next
    case (snoc r' c')
    with d have "s = a @ m @ r'" by (metis append_assoc butlast_snoc)
    moreover have "count_of m (a @ m @ r') = count_of m a + Suc (count_of m r')"
      using count_append [of a "m' @ r'"] count_mark [of r'] by (simp add: marker)
    ultimately show False using s(1) by simp
  qed
qed

lemma cut_first_mark: "count_of m a = 0 \<Longrightarrow> cut m (a @ m @ r) = Some (a, r)"
proof (induction a)
  case Nil
  have "startswith (m @ r) m" by (simp add: startswith_append)
  then show ?case by (cases "m @ r") (auto simp: marker)
next
  case (Cons c a)
  have n: "\<not> startswith (c # a) m" using Cons.prems by (auto split: if_splits)
  then have "\<not> startswith ((c # a) @ CHR ''<'' # m' @ r) m" using startswith_split by blast
  then have "\<not> startswith (c # a @ m @ r) m" by (simp add: marker)
  with Cons n show ?case by simp
qed

end

interpretation starts: marker start_mark "tl start_mark"
  by unfold_locales (simp_all add: start_mark_def)

interpretation ends: marker end_mark "tl end_mark"
  by unfold_locales (simp_all add: end_mark_def)

text \<open>Two markers with different tails: an occurrence of one hides none of the other.\<close>

lemma count_start_end_mark: "count_of start_mark (end_mark @ s) = count_of start_mark s"
proof -
  have "\<not> startswith (end_mark @ s) start_mark" by (simp add: start_mark_def end_mark_def startswith_def)
  then have "count_of start_mark (end_mark @ s) = count_of start_mark (tl end_mark @ s)"
    by (simp add: end_mark_def)
  then show ?thesis using ends.bracket_once by (simp add: starts.count_no_bracket)
qed

lemma count_end_start_mark: "count_of end_mark (start_mark @ s) = count_of end_mark s"
proof -
  have "\<not> startswith (start_mark @ s) end_mark" by (simp add: start_mark_def end_mark_def startswith_def)
  then have "count_of end_mark (start_mark @ s) = count_of end_mark (tl start_mark @ s)"
    by (simp add: start_mark_def)
  then show ?thesis using starts.bracket_once by (simp add: ends.count_no_bracket)
qed

lemma marks_Cons: "start_mark = CHR ''<'' # tl start_mark" "end_mark = CHR ''<'' # tl end_mark"
  by (simp_all add: start_mark_def end_mark_def)

lemma count_append_mark:
  "count_of start_mark (a @ start_mark @ b) = Suc (count_of start_mark a + count_of start_mark b)"
  "count_of start_mark (a @ end_mark @ b) = count_of start_mark a + count_of start_mark b"
  "count_of end_mark (a @ end_mark @ b) = Suc (count_of end_mark a + count_of end_mark b)"
  "count_of end_mark (a @ start_mark @ b) = count_of end_mark a + count_of end_mark b"
proof -
  have s: "a @ start_mark @ b = a @ CHR ''<'' # (tl start_mark @ b)" "start_mark @ b = CHR ''<'' # (tl start_mark @ b)"
    and e: "a @ end_mark @ b = a @ CHR ''<'' # (tl end_mark @ b)" "end_mark @ b = CHR ''<'' # (tl end_mark @ b)"
    by (simp_all add: marks_Cons [symmetric] flip: append_Cons)
  show "count_of start_mark (a @ start_mark @ b) = Suc (count_of start_mark a + count_of start_mark b)"
    unfolding s(1) starts.count_append unfolding s(2) [symmetric] starts.count_mark by simp
  show "count_of start_mark (a @ end_mark @ b) = count_of start_mark a + count_of start_mark b"
    unfolding e(1) starts.count_append unfolding e(2) [symmetric] count_start_end_mark by simp
  show "count_of end_mark (a @ end_mark @ b) = Suc (count_of end_mark a + count_of end_mark b)"
    unfolding e(1) ends.count_append unfolding e(2) [symmetric] ends.count_mark by simp
  show "count_of end_mark (a @ start_mark @ b) = count_of end_mark a + count_of end_mark b"
    unfolding s(1) ends.count_append unfolding s(2) [symmetric] count_end_start_mark by simp
qed

text \<open>A block is the two markers around a text without angle brackets.\<close>

definition a_block :: "string \<Rightarrow> bool" where
  "a_block b \<longleftrightarrow> (\<exists>mid. b = start_mark @ mid @ end_mark \<and> CHR ''<'' \<notin> set mid)"

lemma notes_block_a_block:
  assumes "CHR ''<'' \<notin> set version \<union> set commit \<union> set run"
  shows "a_block (notes_block version commit run)"
proof -
  have "notes_block version commit run = start_mark @ (nl @ ''## Automated registry publication'' @ nl @ nl @
     ''Published and verified: [crates.io '' @ version @ ''](https://crates.io/crates/ai-protocol/'' @ version @ '') '' @
     ''and [PyPI '' @ version @ ''](https://pypi.org/project/ai-protocol-client/'' @ version @ ''/).'' @ nl @ nl @
     ''Registry checksums match the tested release assets. Source: `'' @ commit @ ''`. '' @
     ''[Workflow run](https://github.com/'' @ REPOSITORY @ ''/actions/runs/'' @ run @ '').'' @ nl) @ end_mark"
    by (simp add: notes_block_def)
  moreover have "CHR ''<'' \<notin> set (nl @ ''## Automated registry publication'' @ nl @ nl @
     ''Published and verified: [crates.io '' @ version @ ''](https://crates.io/crates/ai-protocol/'' @ version @ '') '' @
     ''and [PyPI '' @ version @ ''](https://pypi.org/project/ai-protocol-client/'' @ version @ ''/).'' @ nl @ nl @
     ''Registry checksums match the tested release assets. Source: `'' @ commit @ ''`. '' @
     ''[Workflow run](https://github.com/'' @ REPOSITORY @ ''/actions/runs/'' @ run @ '').'' @ nl)"
    using assms by (simp add: nl_def REPOSITORY_def)
  ultimately show ?thesis unfolding a_block_def by blast
qed

lemma count_unbracketed:
  "CHR ''<'' \<notin> set s \<Longrightarrow> count_of start_mark s = 0"
  "CHR ''<'' \<notin> set s \<Longrightarrow> count_of end_mark s = 0"
  using starts.count_no_bracket [of s "[]"] ends.count_no_bracket [of s "[]"] by simp_all

text \<open>Notes that hold exactly one block, and updating them.\<close>

lemma update_replaces:
  assumes "count_of start_mark a = 0" "count_of end_mark a = 0" "count_of start_mark r = 0" "count_of end_mark r = 0"
    and "count_of start_mark mid = 0" "count_of end_mark mid = 0"
  shows "update_notes (a @ start_mark @ mid @ end_mark @ r) block = Inr (a @ block @ r)"
proof -
  let ?body = "a @ start_mark @ mid @ end_mark @ r"
  have c: "count_of start_mark ?body = 1" "count_of end_mark ?body = 1" 
    using assms count_append_mark(1) [of a "mid @ end_mark @ r"] count_append_mark(2) [of mid r]
      count_append_mark(4) [of a "mid @ end_mark @ r"] count_append_mark(3) [of mid r] by simp_all
  have "cut start_mark ?body = Some (a, mid @ end_mark @ r)" by (rule starts.cut_first_mark [OF assms(1)])
  moreover have "count_of end_mark (a @ start_mark @ mid) = 0" using assms count_append_mark(4) [of a mid] by simp
  then have "cut end_mark ?body = Some (a @ start_mark @ mid, r)"
    using ends.cut_first_mark [of "a @ start_mark @ mid" r] by simp
  ultimately show ?thesis using c by (simp add: update_notes_def)
qed

lemma mark_nonempty: "start_mark \<noteq> []" "end_mark \<noteq> []"
  by (simp_all add: start_mark_def end_mark_def)

lemma start_mark_before_end_mark:
  assumes "start_mark @ x = f @ end_mark @ r"
  obtains mid where "f = start_mark @ mid" "x = mid @ end_mark @ r"
proof -
  have "f \<noteq> []"
  proof
    assume "f = []"
    with assms have "take (length start_mark) (end_mark @ r) = start_mark" by (metis append_Nil append_eq_conv_conj)
    then show False by (simp add: start_mark_def end_mark_def)
  qed
  then obtain f' where f: "f = CHR ''<'' # f'" using assms marks_Cons(1) by (cases f) (auto simp: start_mark_def)
  have e: "tl start_mark @ x = f' @ CHR ''<'' # (tl end_mark @ r)"
    using assms f by (simp add: start_mark_def end_mark_def)
  have "\<exists>mid. f' = tl start_mark @ mid"
  proof (rule ccontr)
    assume "\<not> (\<exists>mid. f' = tl start_mark @ mid)"
    with e obtain u where "u \<noteq> []" "tl start_mark = f' @ u" "u @ x = CHR ''<'' # (tl end_mark @ r)"
      by (auto simp: append_eq_append_conv2)
    then have "CHR ''<'' \<in> set (tl start_mark)" by (cases u) auto
    with starts.bracket_once show False by blast
  qed
  then obtain mid where "f' = tl start_mark @ mid" by blast
  then have "f = start_mark @ mid" using f marks_Cons(1) by simp
  with assms show ?thesis using that by simp
qed

lemma count_prefix:
  "count_of start_mark (x @ y) = 0 \<Longrightarrow> count_of start_mark x = 0"
  "count_of end_mark (x @ y) = 0 \<Longrightarrow> count_of end_mark x = 0"
proof -
  show "count_of start_mark (x @ y) = 0 \<Longrightarrow> count_of start_mark x = 0"
  proof (cases "cut start_mark x")
    case (Some p)
    then obtain a r where "x = a @ start_mark @ r" using starts.cut_Some by (cases p) blast
    then show "count_of start_mark (x @ y) = 0 \<Longrightarrow> ?thesis" using count_append_mark(1) [of a "r @ y"] by simp
  qed (simp add: starts.cut_None)
  show "count_of end_mark (x @ y) = 0 \<Longrightarrow> count_of end_mark x = 0"
  proof (cases "cut end_mark x")
    case (Some p)
    then obtain a r where "x = a @ end_mark @ r" using ends.cut_Some by (cases p) blast
    then show "count_of end_mark (x @ y) = 0 \<Longrightarrow> ?thesis" using count_append_mark(3) [of a "r @ y"] by simp
  qed (simp add: ends.cut_None)
qed

text \<open>An accepted body either holds no marker or exactly one block; the rest is kept.\<close>

lemma update_notes_cases:
  assumes "update_notes body block = Inr result"
  obtains (fresh) kept rest where "body = kept @ rest" "count_of start_mark body = 0" "count_of end_mark body = 0"
      "kept = rstrip_of py_space body" "result = (kept @ nl @ nl) @ block @ nl"
      "\<And>other. update_notes body other = Inr ((kept @ nl @ nl) @ other @ nl)"
    | (again) a mid r where "body = a @ start_mark @ mid @ end_mark @ r" "result = a @ block @ r"
      "count_of start_mark a = 0" "count_of end_mark a = 0" "count_of start_mark r = 0" "count_of end_mark r = 0"
      "count_of start_mark mid = 0" "count_of end_mark mid = 0"
proof (cases "cut start_mark body")
  case None
  then have e: "cut end_mark body = None" using assms by (auto simp: update_notes_def split: option.splits)
  obtain rest where "body = rstrip_of py_space body @ rest" using rstrip_of_decomp by blast
  moreover have "update_notes body other = Inr ((rstrip_of py_space body @ nl @ nl) @ other @ nl)" for other
    using None e by (simp add: update_notes_def)
  ultimately show ?thesis using fresh None e assms starts.cut_None ends.cut_None by simp
next
  case (Some p)
  then obtain a x where a: "cut start_mark body = Some (a, x)" by (cases p) simp
  with assms obtain f r where f: "cut end_mark body = Some (f, r)"
    by (auto simp: update_notes_def split: option.splits)
  have c: "count_of start_mark body = 1" "count_of end_mark body = 1" "length a \<le> length f" "result = a @ block @ r"
    using assms a f by (auto simp: update_notes_def split: if_splits)
  note b = starts.cut_Some [OF a] ends.cut_Some [OF f]
  then have eq: "a @ start_mark @ x = f @ end_mark @ r" by simp
  have "take (length a) f = a" using arg_cong [OF eq, of "take (length a)"] c(3) by simp
  then have f1: "f = a @ drop (length a) f" by (metis append_take_drop_id)
  then have "start_mark @ x = drop (length a) f @ end_mark @ r" using eq by (metis append_assoc same_append_eq)
  with f1 obtain f' where f': "f = a @ f'" "start_mark @ x = f' @ end_mark @ r" by blast
  from start_mark_before_end_mark [OF f'(2)] obtain mid where mid: "f' = start_mark @ mid" "x = mid @ end_mark @ r" .
  have body: "body = a @ start_mark @ mid @ end_mark @ r" using b mid by simp
  have s: "count_of start_mark mid = 0" "count_of start_mark r = 0"
    using c(1) count_append_mark(1) [of a "mid @ end_mark @ r"] count_append_mark(2) [of mid r] body by simp_all
  have "count_of end_mark (a @ start_mark @ mid) = 0" using b f'(1) mid(1) by simp
  then have e: "count_of end_mark a = 0" "count_of end_mark mid = 0" using count_append_mark(4) [of a mid] by simp_all
  have "count_of end_mark r = 0" using c(2) count_append_mark(3) [of "a @ start_mark @ mid" r] body by simp
  with again body c(4) b(1) s e show ?thesis by blast
qed

text \<open>
  Claim C24. Editing the release notes is idempotent, the last edit wins: when publication is retried
  on notes it has already edited, the result is exactly what a single edit with the new
  block gives; everything outside the block is kept, and the notes hold one block.
\<close>

theorem notes_last_edit_wins:
  assumes "CHR ''<'' \<notin> set version \<union> set commit \<union> set run"
    and "update_notes body (notes_block version commit run) = Inr once"
  shows "update_notes once block = update_notes body block \<and>
    count_of start_mark once = 1 \<and> count_of end_mark once = 1"
proof -
  obtain mid1 where m: "notes_block version commit run = start_mark @ mid1 @ end_mark" "CHR ''<'' \<notin> set mid1"
    using notes_block_a_block [OF assms(1)] by (auto simp: a_block_def)
  note mid1 = count_unbracketed [OF m(2)]
  have nl: "count_of start_mark nl = 0" "count_of end_mark nl = 0"
    by (rule count_unbracketed; simp add: nl_def)+
  have one: "update_notes (a @ notes_block version commit run @ r) block = Inr (a @ block @ r) \<and>
      count_of start_mark (a @ notes_block version commit run @ r) = 1 \<and>
      count_of end_mark (a @ notes_block version commit run @ r) = 1"
    if "count_of start_mark a = 0" "count_of end_mark a = 0" "count_of start_mark r = 0" "count_of end_mark r = 0" for a r
    using update_replaces [OF that mid1, of block] that mid1 count_append_mark(1) [of a "mid1 @ end_mark @ r"]
      count_append_mark(2) [of mid1 r] count_append_mark(4) [of a "mid1 @ end_mark @ r"] count_append_mark(3) [of mid1 r]
    by (simp add: m(1))
  from assms(2) show ?thesis
  proof (cases rule: update_notes_cases)
    case (fresh kept rest)
    have "count_of start_mark kept = 0" "count_of end_mark kept = 0"
      by (rule count_prefix(1) [of kept rest], simp only: fresh(1) [symmetric] fresh(2))
         (rule count_prefix(2) [of kept rest], simp only: fresh(1) [symmetric] fresh(3))
    then have "count_of start_mark ((kept @ nl) @ nl) = 0" "count_of end_mark ((kept @ nl) @ nl) = 0"
      unfolding nl_def by (intro starts.count_snoc ends.count_snoc; simp add: start_mark_def end_mark_def)+
    then show ?thesis using one [of "kept @ nl @ nl" nl] nl unfolding fresh(5,6) by simp
  next
    case (again a mid r)
    from one [OF again(3-6)] update_replaces [OF again(3-8), of block] show ?thesis
      unfolding again(1,2) by simp
  qed
qed

theorem notes_last_edit_wins_witness:
  "\<exists>once. update_notes ''First release.'' (notes_block ''1.2.3'' ''c0ffee'' ''41'') = Inr once \<and>
     update_notes once (notes_block ''1.2.3'' ''c0ffee'' ''42'') =
     update_notes ''First release.'' (notes_block ''1.2.3'' ''c0ffee'' ''42'')"
proof -
  let ?once = "''First release.'' @ nl @ nl @ notes_block ''1.2.3'' ''c0ffee'' ''41'' @ nl"
  have "cut start_mark ''First release.'' = None" "cut end_mark ''First release.'' = None"
       "rstrip_of py_space ''First release.'' = ''First release.''" by code_simp+
  then have o: "update_notes ''First release.'' (notes_block ''1.2.3'' ''c0ffee'' ''41'') = Inr ?once"
    by (simp add: update_notes_def)
  have "CHR ''<'' \<notin> set ''1.2.3'' \<union> set ''c0ffee'' \<union> set ''41''" by simp
  from notes_last_edit_wins [OF this o, THEN conjunct1] show ?thesis by - (rule exI, rule conjI, rule o)
qed

subsection \<open>Credentials\<close>

definition secret_names :: "string list" where
  "secret_names = [''PYPI_API_TOKEN'', ''GH_TOKEN'', ''GITHUB_TOKEN'', ''CARGO_REGISTRIES_CRATES_IO_TOKEN'', ''TWINE_REPOSITORY_URL'']"

text \<open>Which environments a command may run with.\<close>

definition credential_safe :: "string \<Rightarrow> act \<Rightarrow> bool" where
  "credential_safe exe a =
     (case a of
        Run args cwd (Some env) \<Rightarrow>
          (\<forall>k \<in> set secret_names. dget env k = None) \<and>
          (dget env ''CARGO_REGISTRY_TOKEN'' \<noteq> None \<longrightarrow> take 2 args = [''cargo'', ''publish'']) \<and>
          (dget env ''TWINE_PASSWORD'' \<noteq> None \<longrightarrow> take 4 args = [exe, ''-m'', ''twine'', ''upload''])
      | Run args cwd None \<Rightarrow> take 1 args = [''gh'']
      | _ \<Rightarrow> True)"

lemma child_environment_get:
  "dget (child_environment env) k = (if k \<in> set removed_variables then None else dget env k)"
proof -
  have "dget (fold (\<lambda>name e. dpop e name) ks d) k = (if k \<in> set ks then None else dget d k)" for ks and d :: "(string, string) dict"
    by (induction ks arbitrary: d) (auto simp: dict_simps)
  then show ?thesis by (simp add: child_environment_def)
qed

lemma commands_safe:
  "credential_safe exe (gh_download tag p wanted)" "credential_safe exe (gh_upload tag p)" "credential_safe exe (gh_edit tag p)"
  "credential_safe exe (cargo_package source (child_environment env))"
  "credential_safe exe (cargo_publish source (dset (child_environment env) ''CARGO_REGISTRY_TOKEN'' token))"
  "credential_safe exe (twine_check exe paths (child_environment env))"
  "credential_safe exe (twine_upload exe paths (dset (child_environment env) ''TWINE_PASSWORD'' token))"
  "credential_safe exe (Write p body)" "credential_safe exe (Pause n)"
  by (simp_all add: credential_safe_def gh_download_def gh_upload_def gh_edit_def cargo_package_def cargo_publish_def
      twine_check_def twine_upload_def dict_simps child_environment_get removed_variables_def secret_names_def)

lemmas only_rules = keeps_rules conjI TrueI commands_safe

lemma only_await: "only (credential_safe exe) (await_visible w version checksums left)"
  by (induction w version checksums left rule: await_visible.induct)
    (auto simp: registries_def intro!: only_rules)

lemma only_attach: "only (credential_safe exe) (attach_assets w tag p directory release)"
  unfolding attach_assets_def Let_def by (intro only_rules)

lemma only_publish: "only (credential_safe (executable w)) (publish w source tag p directory notes)"
  unfolding publish_def publish_steps_def release_check_def registries_def publish_crate_def publish_python_def write_notes_def Let_def
  by (intro only_rules only_await only_attach)


subsection \<open>What precedes a registry upload\<close>

definition registry_upload :: "act \<Rightarrow> bool" where
  "registry_upload a =
     (case a of
        Run args _ _ \<Rightarrow> take 2 args = [''cargo'', ''publish''] \<or> take 3 (drop 1 args) = [''-m'', ''twine'', ''upload'']
      | _ \<Rightarrow> False)"

text \<open>The file of that name is attached: uploaded by this run, or there before with the same digest.\<close>

definition attached :: "world \<Rightarrow> string \<Rightarrow> string \<Rightarrow> directory \<Rightarrow> gh_release \<Rightarrow> act list \<Rightarrow> string \<Rightarrow> bool" where
  "attached w tag path directory release h n \<longleftrightarrow>
     (if n \<in> set (asset_names release)
      then \<exists>earlier later bytes bytes'. h = earlier @ later \<and> file_bytes (fetched w earlier) n = Inr bytes' \<and>
             file_bytes directory n = Inr bytes \<and> sha256 w bytes' = sha256 w bytes
      else gh_upload tag (child_path path n) \<in> set h)"

lemma attached_same:
  "n \<in> set (asset_names release) \<Longrightarrow> file_bytes (fetched w h) n = Inr bytes' \<Longrightarrow> file_bytes directory n = Inr bytes \<Longrightarrow>
   sha256 w bytes' = sha256 w bytes \<Longrightarrow> attached w tag path directory release h n"
  unfolding attached_def by (simp add: exI [of "\<lambda>later. h = h @ later" "[]"]) (metis append_Nil2)

lemma attached_later: "attached w tag path directory release h n \<Longrightarrow> attached w tag path directory release (h @ h') n"
  by (auto simp: attached_def split: if_splits) (metis append.assoc)

lemma any_differs_False:
  "any_differs digest found directory ns = Inr False \<Longrightarrow> n \<in> set ns \<Longrightarrow>
   \<exists>bytes bytes'. file_bytes found n = Inr bytes' \<and> file_bytes directory n = Inr bytes \<and> digest bytes' = digest bytes"
  by (induction ns) (auto simp: result_simps split: if_splits)

lemma not_upload:
  "\<not> registry_upload (gh_download tag p wanted)" "\<not> registry_upload (gh_upload tag p)" "\<not> registry_upload (gh_edit tag p)"
  "\<not> registry_upload (cargo_package source env)" "\<not> registry_upload (twine_check exe paths env)"
  "\<not> registry_upload (Write p body)" "\<not> registry_upload (Pause n)"
  by (simp_all add: registry_upload_def gh_download_def gh_upload_def gh_edit_def cargo_package_def twine_check_def)

lemma attach_assets_attached:
  assumes ok: "\<And>h a. \<not> registry_upload a \<Longrightarrow> ok h a"
  shows "jvalid (each_allowed ok) (attach_assets w tag path directory release)
    (\<lambda>_ h. each_allowed ok h \<and> (\<forall>n \<in> fst ` set directory. attached w tag path directory release h n))
    (each_allowed ok)"
proof -
  let ?existing = "set (asset_names release)"
  let ?present = "filter (\<lambda>name. name \<in> ?existing) (map fst directory)"
  let ?old = "\<lambda>h. each_allowed ok h \<and> (\<forall>n \<in> set ?present. attached w tag path directory release h n)"
  let ?I = "\<lambda>d h. ?old h \<and> (\<forall>n \<in> set d. attached w tag path directory release h n)"
  have first: "jvalid (each_allowed ok)
     (if ?present \<noteq> []
      then jbind (jdo w (gh_download tag (temporary w) ?present)) (\<lambda>_.
           jbind (jask (\<lambda>h. any_differs (sha256 w) (fetched w h) directory ?present)) (\<lambda>differs.
             jlift (if differs
                    then Inl (ValueError ''Existing GitHub assets differ; never overwrite a release bundle'')
                    else Inr ())))
      else jlift (Inr ())) (\<lambda>_. ?I []) (each_allowed ok)"
  proof (rule jvalid_if)
    let ?same = "\<lambda>d h. each_allowed ok h \<and> any_differs (sha256 w) (fetched w h) directory ?present = Inr d"
    show "jvalid (each_allowed ok) (jbind (jdo w (gh_download tag (temporary w) ?present)) (\<lambda>_.
           jbind (jask (\<lambda>h. any_differs (sha256 w) (fetched w h) directory ?present)) (\<lambda>differs.
             jlift (if differs
                    then Inl (ValueError ''Existing GitHub assets differ; never overwrite a release bundle'')
                    else Inr ())))) (\<lambda>_. ?I []) (each_allowed ok)"
    proof (rule jvalid_bind [where R = "\<lambda>_. each_allowed ok"], goal_cases)
      case 1
      show ?case by (rule jvalid_do) (simp_all add: ok not_upload)
    next
      case (2 u)
      show ?case
      proof (rule jvalid_bind [where R = ?same], goal_cases)
        case 1
        show ?case by (rule jvalid_ask) simp_all
      next
        case (2 differs)
        show ?case
        proof (rule jvalid_lift)
          fix h u assume s: "?same differs h" "(if differs
             then Inl (ValueError ''Existing GitHub assets differ; never overwrite a release bundle'') else Inr ()) = Inr u"
          then have d: "any_differs (sha256 w) (fetched w h) directory ?present = Inr False" by (simp split: if_splits)
          have "attached w tag path directory release h n" if n: "n \<in> set ?present" for n
          proof -
            obtain bytes bytes' where "file_bytes (fetched w h) n = Inr bytes'" "file_bytes directory n = Inr bytes"
              "sha256 w bytes' = sha256 w bytes" using any_differs_False [OF d n] by blast
            with n show ?thesis by (intro attached_same [where bytes = bytes and bytes' = bytes']) simp_all
          qed
          with s(1) show "?I [] h" by simp
        qed simp
      qed
    qed
  next
    assume "\<not> ?present \<noteq> []"
    then have "set ?present = {}" by simp
    then show "jvalid (each_allowed ok) (jlift (Inr ())) (\<lambda>_. ?I []) (each_allowed ok)"
      by (intro jvalid_lift) simp_all
  qed
  have second: "jvalid (?I []) (jeach (\<lambda>name. if name \<notin> ?existing then jdo w (gh_upload tag (child_path path name))
      else jlift (Inr ())) (sort_texts (map fst directory))) (\<lambda>_. ?I (sort_texts (map fst directory))) (each_allowed ok)"
  proof (rule jvalid_each [where I = ?I])
    fix before x after assume xs: "sort_texts (map fst directory) = before @ x # after"
    show "jvalid (?I before) (if x \<notin> ?existing then jdo w (gh_upload tag (child_path path x)) else jlift (Inr ()))
        (\<lambda>_. ?I (before @ [x])) (each_allowed ok)"
    proof (rule jvalid_if)
      assume new: "x \<notin> ?existing"
      show "jvalid (?I before) (jdo w (gh_upload tag (child_path path x))) (\<lambda>_. ?I (before @ [x])) (each_allowed ok)"
      proof (rule jvalid_do)
        fix h assume h: "?I before h"
        have "attached w tag path directory release (h @ [gh_upload tag (child_path path x)]) x"
          using new by (simp add: attached_def)
        with h attached_later [of w tag path directory release h _ "[gh_upload tag (child_path path x)]"]
        show "?I (before @ [x]) (h @ [gh_upload tag (child_path path x)])" by (simp add: ok not_upload)
      qed (simp add: ok not_upload)
    next
      assume old: "\<not> x \<notin> ?existing"
      have "x \<in> set (map fst directory)"
        using xs sort_texts_perm(1) [of "map fst directory"] by (metis in_set_conv_decomp)
      with old have "x \<in> set ?present" by simp
      then show "jvalid (?I before) (jlift (Inr ())) (\<lambda>_. ?I (before @ [x])) (each_allowed ok)"
        by (intro jvalid_lift) (auto simp del: set_filter)
    qed
  qed simp
  have "jvalid (each_allowed ok) (attach_assets w tag path directory release)
      (\<lambda>_. ?I (sort_texts (map fst directory))) (each_allowed ok)"
    unfolding attach_assets_def Let_def by (rule jvalid_bind [OF first second])
  then show ?thesis
    by (rule jvalid_weaken) (simp_all add: sort_texts_perm(1))
qed

definition crate_file :: "string \<Rightarrow> (string, string) dict \<Rightarrow> string \<Rightarrow> string" where
  "crate_file source env version = child_path (child_path (target_dir source env) ''package'') (crate_name version)"

text \<open>What holds of a registry upload and of the history before it.\<close>

definition upload_guard ::
  "world \<Rightarrow> string \<Rightarrow> string \<Rightarrow> string \<Rightarrow> directory \<Rightarrow> gh_release \<Rightarrow> string \<Rightarrow> (string, json) dict \<Rightarrow> bool \<Rightarrow>
   string list \<Rightarrow> act list \<Rightarrow> act \<Rightarrow> bool" where
  "upload_guard w source tag path directory release version checksums crate_there missing h a \<longleftrightarrow>
     (registry_upload a \<longrightarrow>
        (\<forall>n \<in> fst ` set directory. attached w tag path directory release h n) \<and>
        ((\<exists>env. a = cargo_publish source env) \<and> \<not> crate_there \<and>
           (\<exists>bytes. bytes_at w h (crate_file source (child_environment (environ w)) version) = Inr bytes \<and>
              dget checksums (crate_name version) = Some (JStr (sha256 w bytes)))
         \<or> (\<exists>env. a = twine_upload (executable w) (map (child_path path) missing) env) \<and> missing \<noteq> []))"

lemma py_eq_right: "py_eq v (JStr s) \<Longrightarrow> v = JStr s"
  by simp

lemma publish_steps_guarded:
  fixes w source tag path directory release version checksums crate_there missing
  defines "ok \<equiv> upload_guard w source tag path directory release version checksums crate_there missing"
    and "P \<equiv> \<lambda>h. \<forall>n \<in> fst ` set directory. attached w tag path directory release h n"
    and "env \<equiv> child_environment (environ w)"
  shows "\<not> crate_there \<Longrightarrow> keeps ok P (publish_crate w source version checksums env token)"
    and "missing \<noteq> [] \<Longrightarrow> keeps ok P (publish_python w path missing env token)"
    and "keeps ok P (await_visible w version checksums left)"
    and "keeps ok P (write_notes w tag version commit notes)"
proof -
  have quiet: "\<not> registry_upload a \<Longrightarrow> ok h a" for h a by (simp add: ok_def upload_guard_def)
  have later: "P h \<Longrightarrow> P (h @ h')" for h h' using attached_later by (auto simp: P_def)
  show "keeps ok P (await_visible w version checksums left)"
    by (induction left)
      (auto simp: registries_def later quiet not_upload intro!: keeps_rules)
  show "keeps ok P (write_notes w tag version commit notes)"
    unfolding write_notes_def release_check_def
    by (intro keeps_rules conjI) (simp_all add: later quiet not_upload)
  show "keeps ok P (publish_python w path missing env token)" if "missing \<noteq> []"
  proof -
    have "ok h (twine_upload (executable w) (map (child_path path) missing) e)" if "P h" for h e
      using that \<open>missing \<noteq> []\<close> unfolding ok_def upload_guard_def P_def by blast
    then show ?thesis unfolding publish_python_def
      by (intro keeps_rules conjI) (simp_all add: later quiet not_upload)
  qed
  show "keeps ok P (publish_crate w source version checksums env token)" if new: "\<not> crate_there"
  proof -
    let ?A = "\<lambda>h. each_allowed ok h \<and> P h"
    let ?file = "crate_file source env version"
    let ?read = "\<lambda>bytes h. ?A h \<and> bytes_at w h ?file = Inr bytes"
    let ?known = "\<lambda>bytes expected h. ?read bytes h \<and> dget checksums (crate_name version) = Some expected"
    have "jvalid (?known bytes expected)
        (if \<not> py_eq expected (JStr (sha256 w bytes))
         then jlift (Inl (ValueError ''Cargo would upload a different crate than the tested artifact''))
         else jdo w (cargo_publish source (dset env ''CARGO_REGISTRY_TOKEN'' token))) (\<lambda>_. ?A) (each_allowed ok)"
      for bytes expected
    proof (rule jvalid_if)
      assume "\<not> \<not> py_eq expected (JStr (sha256 w bytes))"
      then have e: "expected = JStr (sha256 w bytes)" by simp
      have "ok h (cargo_publish source (dset env ''CARGO_REGISTRY_TOKEN'' token))" if "?known bytes expected h" for h
        using that new unfolding e ok_def upload_guard_def P_def env_def by blast
      then show "jvalid (?known bytes expected) (jdo w (cargo_publish source (dset env ''CARGO_REGISTRY_TOKEN'' token)))
          (\<lambda>_. ?A) (each_allowed ok)" by (intro jvalid_do) (simp_all add: later)
    qed (auto intro: jvalid_lift)
    moreover have "jvalid (?read bytes) (jlift (checksum_of checksums (crate_name version))) (?known bytes) (each_allowed ok)"
      for bytes by (rule jvalid_lift) (auto simp: checksum_of_def split: option.splits)
    moreover have "jvalid ?A (jask (\<lambda>h. bytes_at w h ?file)) ?read (each_allowed ok)"
      by (rule jvalid_ask) auto
    moreover have "jvalid ?A (jdo w (cargo_package source env)) (\<lambda>_. ?A) (each_allowed ok)"
      by (rule jvalid_do) (simp_all add: later quiet not_upload)
    ultimately show ?thesis
      unfolding keeps_def publish_crate_def crate_file_def [symmetric]
      by (intro jvalid_bind) assumption+
  qed
qed

text \<open>The checks \<open>publish\<close> starts with; they change nothing.\<close>

definition publish_checked ::
  "world \<Rightarrow> string \<Rightarrow> directory \<Rightarrow> string \<Rightarrow> string \<Rightarrow> (string, json) dict \<Rightarrow> gh_release \<Rightarrow> bool \<Rightarrow> string list \<Rightarrow> bool" where
  "publish_checked w tag directory version commit checksums release crate_there missing \<longleftrightarrow>
     source_answer w = Inr (version, commit) \<and>
     validate_bundle (sha256 w) (loads_json w) directory version commit = Inr checksums \<and>
     release_info (tag_object w []) (released w []) (tag_ref w []) tag commit = Inr release \<and>
     getenv (environ w) ''CARGO_REGISTRY_TOKEN'' \<noteq> [] \<and> getenv (environ w) ''PYPI_API_TOKEN'' \<noteq> [] \<and>
     registry_state version checksums (crates_io w []) (pypi w []) = Inr (crate_there, missing)"

lemma publish_cases:
  assumes "publish w source tag path directory notes [] = (h, r)"
  obtains e where "h = []" "r = Inl e"
    | version commit checksums release crate_there missing where
      "publish_checked w tag directory version commit checksums release crate_there missing"
      "publish_steps w source tag path directory notes version commit checksums release crate_there missing [] = (h, r)"
proof (cases "source_answer w")
  case (Inl e)
  then show ?thesis using assms that(1) by (auto simp: publish_def jbind_lift_ask)
next
  case s: (Inr vc)
  obtain version commit where vc: "vc = (version, commit)" by fastforce
  show ?thesis
  proof (cases "validate_bundle (sha256 w) (loads_json w) directory version commit")
    case (Inl e)
    then show ?thesis using assms that(1) s vc by (auto simp: publish_def jbind_lift_ask)
  next
    case v: (Inr checksums)
    show ?thesis
    proof (cases "release_info (tag_object w []) (released w []) (tag_ref w []) tag commit")
      case (Inl e)
      then show ?thesis using assms that(1) s vc v by (auto simp: publish_def release_check_def jbind_lift_ask)
    next
      case i: (Inr release)
      show ?thesis
      proof (cases "getenv (environ w) ''CARGO_REGISTRY_TOKEN'' = [] \<or> getenv (environ w) ''PYPI_API_TOKEN'' = []")
        case True
        then show ?thesis using assms that(1) s vc v i
          by (simp only: publish_def release_check_def jbind_lift_ask sum.case prod.case if_True) (auto simp: jlift_def)
      next
        case g: False
        show ?thesis
        proof (cases "registry_state version checksums (crates_io w []) (pypi w [])")
          case (Inl e)
          then show ?thesis using assms that(1) s vc v i g
            by (simp only: publish_def release_check_def registries_def jbind_lift_ask sum.case prod.case if_False) auto
        next
          case n: (Inr cm)
          obtain crate_there missing where cm: "cm = (crate_there, missing)" by fastforce
          have "publish_steps w source tag path directory notes version commit checksums release crate_there missing [] = (h, r)"
            using assms s vc v i g n cm
            by (simp only: publish_def release_check_def registries_def jbind_lift_ask sum.case prod.case if_False)
          moreover have "publish_checked w tag directory version commit checksums release crate_there missing"
            unfolding publish_checked_def using s vc v i g n cm by blast
          ultimately show ?thesis using that(2) by blast
        qed
      qed
    qed
  qed
qed

lemma publish_steps_valid:
  "jvalid (each_allowed (upload_guard w source tag path directory release version checksums crate_there missing))
     (publish_steps w source tag path directory notes version commit checksums release crate_there missing)
     (\<lambda>_ h. each_allowed (upload_guard w source tag path directory release version checksums crate_there missing) h \<and>
        (\<forall>n \<in> fst ` set directory. attached w tag path directory release h n))
     (each_allowed (upload_guard w source tag path directory release version checksums crate_there missing))"
proof -
  let ?ok = "upload_guard w source tag path directory release version checksums crate_there missing"
  let ?P = "\<lambda>h. \<forall>n \<in> fst ` set directory. attached w tag path directory release h n"
  have quiet: "\<not> registry_upload a \<Longrightarrow> ?ok h a" for h a by (simp add: upload_guard_def)
  show ?thesis
    unfolding publish_steps_def Let_def
  proof (rule jvalid_bind [OF attach_assets_attached [OF quiet]])
    fix u :: unit
    show "jvalid (\<lambda>h. each_allowed ?ok h \<and> ?P h) (jbind
       (if \<not> crate_there then publish_crate w source version checksums (child_environment (environ w))
            (getenv (environ w) ''CARGO_REGISTRY_TOKEN'') else jlift (Inr ()))
       (\<lambda>_. jbind (if missing \<noteq> [] then publish_python w path missing (child_environment (environ w))
            (getenv (environ w) ''PYPI_API_TOKEN'') else jlift (Inr ()))
         (\<lambda>_. jbind (await_visible w version checksums 12) (\<lambda>_. write_notes w tag version commit notes))))
       (\<lambda>_ h. each_allowed ?ok h \<and> ?P h) (each_allowed ?ok)"
      unfolding keeps_def [symmetric]
      by (intro keeps_bind keeps_if_cond keeps_quiet publish_steps_guarded) assumption+
  qed
qed

text \<open>
  Claim C12. No registry receives anything unverified, on every path and for every behaviour of the world:
  an upload to crates.io or PyPI happens only after the source, the bundle, the published tag and
  both registries were checked; only when every file of the bundle is attached to the release
  (uploaded before, or found there with the same digest); and is either \<^verbatim>\<open>cargo publish\<close> of a
  crate the registry did not have, whose freshly packaged bytes have the digest of the tested
  crate, or the \<^verbatim>\<open>twine upload\<close> of exactly the missing tested files.
\<close>

theorem publish_uploads_guarded:
  assumes "publish w source tag path directory notes [] = (h, r)"
    and "h = before @ a # after" and "registry_upload a"
  shows "\<exists>version commit checksums release crate_there missing.
    publish_checked w tag directory version commit checksums release crate_there missing \<and>
    (\<forall>n \<in> fst ` set directory. attached w tag path directory release before n) \<and>
    ((\<exists>env. a = cargo_publish source env) \<and> \<not> crate_there \<and>
       (\<exists>bytes. bytes_at w before (crate_file source (child_environment (environ w)) version) = Inr bytes \<and>
          dget checksums (crate_name version) = Some (JStr (sha256 w bytes)))
     \<or> (\<exists>env. a = twine_upload (executable w) (map (child_path path) missing) env) \<and> missing \<noteq> [])"
  using assms(1)
proof (cases rule: publish_cases)
  case (1 e)
  then show ?thesis using assms(2) by simp
next
  case (2 version commit checksums release crate_there missing)
  let ?ok = "upload_guard w source tag path directory release version checksums crate_there missing"
  from jvalid_run [OF publish_steps_valid _ 2(2)] have "each_allowed ?ok h" by (simp split: sum.splits)
  with assms(2) have "?ok before a" by (simp add: each_allowed_def)
  with assms(3) 2(1) show ?thesis unfolding upload_guard_def by blast
qed

subsection \<open>Success\<close>

fun is_pause :: "act \<Rightarrow> bool" where
  "is_pause (Pause n) = True"
| "is_pause _ = False"

definition pauses :: "act list \<Rightarrow> nat" where
  "pauses h = length (filter is_pause h)"

lemma commands_no_pause:
  "\<not> is_pause (gh_download tag p wanted)" "\<not> is_pause (gh_upload tag p)" "\<not> is_pause (gh_edit tag p)"
  "\<not> is_pause (cargo_package source env)" "\<not> is_pause (cargo_publish source env)"
  "\<not> is_pause (twine_check exe paths env)" "\<not> is_pause (twine_upload exe paths env)"
  by (simp_all add: gh_download_def gh_upload_def gh_edit_def cargo_package_def cargo_publish_def
      twine_check_def twine_upload_def)

lemma each_allowed_no_pause: "each_allowed (\<lambda>_ a. \<not> is_pause a) h \<Longrightarrow> pauses h = 0"
proof -
  assume e: "each_allowed (\<lambda>_ a. \<not> is_pause a) h"
  have "\<not> is_pause a" if "a \<in> set h" for a using e split_list [OF that] unfolding each_allowed_def by blast
  then show ?thesis by (simp add: pauses_def filter_empty_conv)
qed

definition both_visible :: "world \<Rightarrow> string \<Rightarrow> (string, json) dict \<Rightarrow> act list \<Rightarrow> bool" where
  "both_visible w version checksums h \<longleftrightarrow>
     registry_state version checksums (crates_io w h) (pypi w h) = Inr (True, [])"

lemma await_valid:
  "jvalid (\<lambda>h. pauses h \<le> k) (await_visible w version checksums (Suc left))
     (\<lambda>_ h. pauses h \<le> k + left \<and> both_visible w version checksums h) (\<lambda>h. pauses h \<le> k + left)"
proof (induction left arbitrary: k)
  case 0
  show ?case
    unfolding await_visible.simps registries_def
    by (rule jvalid_bind [where R = "\<lambda>s h. pauses h \<le> k \<and> registry_state version checksums (crates_io w h) (pypi w h) = Inr s"])
      (auto intro!: jvalid_ask jvalid_lift simp: both_visible_def split: prod.splits)
next
  case (Suc left)
  let ?R = "\<lambda>s h. pauses h \<le> k \<and> registry_state version checksums (crates_io w h) (pypi w h) = Inr s"
  let ?Q = "\<lambda>_ h. pauses h \<le> k + Suc left \<and> both_visible w version checksums h"
  let ?E = "\<lambda>h. pauses h \<le> k + Suc left"
  have "jvalid (?R s) (jbind (\<lambda>h. (h @ [Pause 5], Inr ())) (\<lambda>_. await_visible w version checksums (Suc left))) ?Q ?E" for s
  proof (rule jvalid_bind [where R = "\<lambda>_ h. pauses h \<le> Suc k"])
    show "jvalid (?R s) (\<lambda>h. (h @ [Pause 5], Inr ())) (\<lambda>_ h. pauses h \<le> Suc k) ?E"
      by (simp add: jvalid_def pauses_def)
    show "jvalid (\<lambda>h. pauses h \<le> Suc k) (await_visible w version checksums (Suc left)) ?Q ?E"
      using Suc.IH [of "Suc k"] by simp
  qed
  moreover have "jvalid (?R (True, [])) (jlift (Inr ())) ?Q ?E"
    by (rule jvalid_lift) (simp_all add: both_visible_def)
  ultimately show ?case
    unfolding await_visible.simps(2) [of w version checksums "Suc left"] registries_def
    by (intro jvalid_bind [where R = ?R])
      (auto intro!: jvalid_ask split: prod.splits)
qed

definition notes_written :: "world \<Rightarrow> string \<Rightarrow> string \<Rightarrow> string \<Rightarrow> string \<Rightarrow> act list \<Rightarrow> act list \<Rightarrow> bool" where
  "notes_written w tag version commit notes h before \<longleftrightarrow>
     (\<exists>release run body. release_info (tag_object w before) (released w before) (tag_ref w before) tag commit = Inr release \<and>
        dget (environ w) ''GITHUB_RUN_ID'' = Some run \<and>
        update_notes (notes_body release) (notes_block version commit run) = Inr body \<and>
        h = before @ [Write notes body, gh_edit tag notes])"

lemma write_notes_run:
  assumes "write_notes w tag version commit notes before = (h, Inr ())"
  shows "notes_written w tag version commit notes h before"
  using assms
  by (auto simp: write_notes_def release_check_def jbind_lift_ask jbind_def jlift_def jask_def jdo_def notes_written_def
      split: sum.splits option.splits prod.splits)

lemmas no_pause_rules = keeps_rules conjI TrueI commands_no_pause

lemma uploads_no_pause:
  "only (\<lambda>a. \<not> is_pause a) (attach_assets w tag path directory release)"
  "only (\<lambda>a. \<not> is_pause a) (publish_crate w source version checksums env token)"
  "only (\<lambda>a. \<not> is_pause a) (publish_python w path missing env token)"
  unfolding attach_assets_def publish_crate_def publish_python_def Let_def
  by (intro no_pause_rules)+

lemma publish_steps_success:
  assumes "publish_steps w source tag path directory notes version commit checksums release crate_there missing [] = (h, Inr ())"
  shows "\<exists>before. notes_written w tag version commit notes h before \<and> both_visible w version checksums before \<and> pauses h \<le> 11"
proof -
  let ?env = "child_environment (environ w)"
  obtain h1 h2 h3 h4 where s: "attach_assets w tag path directory release [] = (h1, Inr ())"
    "(if \<not> crate_there then publish_crate w source version checksums ?env (getenv (environ w) ''CARGO_REGISTRY_TOKEN'')
      else jlift (Inr ())) h1 = (h2, Inr ())"
    "(if missing \<noteq> [] then publish_python w path missing ?env (getenv (environ w) ''PYPI_API_TOKEN'')
      else jlift (Inr ())) h2 = (h3, Inr ())"
    "await_visible w version checksums 12 h3 = (h4, Inr ())" "write_notes w tag version commit notes h4 = (h, Inr ())"
    using assms unfolding publish_steps_def Let_def jbind_Inr by auto
  have "each_allowed (\<lambda>_ a. \<not> is_pause a) h1" by (rule only_run [OF uploads_no_pause(1) _ s(1)]) simp
  from only_run [OF keeps_if this s(2)] uploads_no_pause(2) keeps_quiet(1)
  have h2: "each_allowed (\<lambda>_ a. \<not> is_pause a) h2" by blast
  from only_run [OF keeps_if this s(3)] uploads_no_pause(3) keeps_quiet(1)
  have "each_allowed (\<lambda>_ a. \<not> is_pause a) h3" by blast
  then have "pauses h3 \<le> 0" by (simp add: each_allowed_no_pause)
  moreover have "await_visible w version checksums (Suc 11) h3 = (h4, Inr ())" using s(4) by simp
  ultimately have v: "pauses h4 \<le> 11" "both_visible w version checksums h4"
    using jvalid_run [OF await_valid [of 0 w version checksums 11], of h3 h4 "Inr ()"] by simp_all
  note n = write_notes_run [OF s(5)]
  moreover have "pauses h = pauses h4"
    using n commands_no_pause(3) by (auto simp: notes_written_def pauses_def)
  ultimately show ?thesis using v by auto
qed

text \<open>
  Claim C14. When publishing succeeds, the release is published: every file of the bundle is attached to
  the GitHub release; after at most eleven pauses of five seconds a registry check found the
  tested crate on crates.io and both tested files on PyPI; the release and its tag were checked
  again after that; and the last two actions write and submit the release notes with the block
  that names the version, the commit and this run.
\<close>

theorem publish_success:
  assumes "publish w source tag path directory notes [] = (h, Inr ())"
  shows "\<exists>version commit checksums release crate_there missing before.
    publish_checked w tag directory version commit checksums release crate_there missing \<and>
    (\<forall>n \<in> fst ` set directory. attached w tag path directory release h n) \<and>
    both_visible w version checksums before \<and> notes_written w tag version commit notes h before \<and> pauses h \<le> 11"
  using assms
proof (cases rule: publish_cases)
  case (1 e)
  then show ?thesis by simp
next
  case (2 version commit checksums release crate_there missing)
  from jvalid_run [OF publish_steps_valid _ 2(2)]
  have "\<forall>n \<in> fst ` set directory. attached w tag path directory release h n" by simp
  with 2(1) publish_steps_success [OF 2(2)] show ?thesis by blast
qed

subsection \<open>A sample run\<close>

text \<open>A world in which nothing fails and the uploads become visible one round late.\<close>

definition sample_crate :: json where
  "sample_crate = JDict [(''version'', JDict [(''num'', JStr ''1.2.3''), (''checksum'', JStr (sample_digest ''pkg''))])]"

definition sample_files :: json where
  "sample_files = JDict [(''info'', JDict [(''version'', JStr ''1.2.3'')]),
     (''urls'', JList (map (\<lambda>n. JDict [(''filename'', JStr n), (''digests'', JDict [(''sha256'', JStr (sample_digest ''pkg''))])])
        [sdist_name ''1.2.3'', wheel_name ''1.2.3'']))]"

definition answer_after :: "json \<Rightarrow> act list \<Rightarrow> response result" where
  "answer_after v h = (if list_ex is_pause h then Inr \<lparr>status_code = 200, resp_json = Some v, retry_after = None\<rparr>
     else Inr \<lparr>status_code = 404, resp_json = None, retry_after = None\<rparr>)"

definition sample_world :: world where
  "sample_world = \<lparr>performed = (\<lambda>_ _. Inr ()),
     environ = [(''CARGO_REGISTRY_TOKEN'', ''c''), (''PYPI_API_TOKEN'', ''p''), (''GH_TOKEN'', ''g''), (''GITHUB_RUN_ID'', ''42'')],
     executable = ''python'', temporary = ''/tmp/x'',
     released = (\<lambda>_. Inr \<lparr>tag_name = ''v1.2.3'', is_draft = False, is_prerelease = False,
        asset_names = [], notes_body = ''First.''\<rparr>),
     tag_ref = (\<lambda>_. Inr \<lparr>ref_type = ''commit'', ref_sha = ''c0ffee''\<rparr>),
     tag_object = (\<lambda>_ _. Inl HTTPError), crates_io = answer_after sample_crate, pypi = answer_after sample_files,
     fetched = (\<lambda>_. []), bytes_at = (\<lambda>_ _. Inr ''pkg''), sha256 = sample_digest, loads_json = (\<lambda>_. Inr sample_report),
     source_answer = Inr (''1.2.3'', ''c0ffee'')\<rparr>"

definition sample_publish :: "act list \<times> unit result" where
  "sample_publish = publish sample_world ''/src'' ''v1.2.3'' ''/dist'' sample_bundle ''/publication-notes.md'' []"

lemma sample_state:
  "registry_state ''1.2.3'' sample_checksums (answer_after sample_crate []) (answer_after sample_files []) =
     Inr (False, [sdist_name ''1.2.3'', wheel_name ''1.2.3''])"
  by code_simp

lemma sample_state_after:
  "registry_state ''1.2.3'' sample_checksums (answer_after sample_crate [Pause 5]) (answer_after sample_files [Pause 5]) =
     Inr (True, [])"
  by code_simp

lemma sample_attach:
  "attach_assets sample_world ''v1.2.3'' ''/dist'' sample_bundle
     \<lparr>tag_name = ''v1.2.3'', is_draft = False, is_prerelease = False, asset_names = [], notes_body = ''First.''\<rparr> [] =
   (map (\<lambda>n. gh_upload ''v1.2.3'' (child_path ''/dist'' n)) (sort_texts (wanted_names ''1.2.3'')), Inr ())"
  by code_simp

lemma sample_world_simps [simp]:
  "performed sample_world h a = Inr ()" "crates_io sample_world = answer_after sample_crate"
  "pypi sample_world = answer_after sample_files" "bytes_at sample_world h p = Inr ''pkg''"
  "sha256 sample_world = sample_digest" "executable sample_world = ''python''"
  by (simp_all add: sample_world_def)

lemma sample_crate_upload:
  "publish_crate sample_world source ''1.2.3'' sample_checksums env token h =
     (h @ [cargo_package source env, cargo_publish source (dset env ''CARGO_REGISTRY_TOKEN'' token)], Inr ())"
proof -
  have "checksum_of sample_checksums (crate_name ''1.2.3'') = Inr (JStr (sample_digest ''pkg''))" by code_simp
  then show ?thesis by (simp add: publish_crate_def jbind_def jdo_def jask_def jlift_def)
qed

lemma sample_python_upload:
  "publish_python sample_world path missing env token h =
     (h @ [twine_check ''python'' (map (child_path path) missing) env,
           twine_upload ''python'' (map (child_path path) missing) (dset env ''TWINE_PASSWORD'' token)], Inr ())"
  by (simp add: publish_python_def jbind_def jdo_def)

lemma answer_after_cong: "list_ex is_pause h = list_ex is_pause h' \<Longrightarrow> answer_after v h = answer_after v h'"
  by (simp add: answer_after_def)

lemma sample_await:
  assumes "\<not> list_ex is_pause h"
  shows "await_visible sample_world ''1.2.3'' sample_checksums (Suc (Suc left)) h = (h @ [Pause 5], Inr ())"
proof -
  have a: "answer_after v h = answer_after v []" "answer_after v (h @ [Pause 5]) = answer_after v [Pause 5]" for v
    using assms by (simp_all add: answer_after_def)
  show ?thesis
    by (simp add: registries_def jbind_def jask_def jlift_def a sample_state sample_state_after)
qed

lemma sample_notes: "\<exists>body. write_notes sample_world ''v1.2.3'' ''1.2.3'' ''c0ffee'' p h = (h @ [Write p body, gh_edit ''v1.2.3'' p], Inr ())"
proof -
  have r: "release_check sample_world ''v1.2.3'' ''c0ffee'' h = (h, Inr \<lparr>tag_name = ''v1.2.3'', is_draft = False,
      is_prerelease = False, asset_names = [], notes_body = ''First.''\<rparr>)" for h
    by (simp add: release_check_def jask_def release_info_def sample_world_def numeral_eq_Suc)
  have e: "dget (environ sample_world) ''GITHUB_RUN_ID'' = Some ''42''" by code_simp
  have "cut start_mark ''First.'' = None" "cut end_mark ''First.'' = None" by code_simp+
  then have "\<exists>body. update_notes ''First.'' (notes_block ''1.2.3'' ''c0ffee'' ''42'') = Inr body"
    by (simp add: update_notes_def)
  with r e show ?thesis by (auto simp: write_notes_def jbind_def jlift_def jdo_def)
qed

abbreviation sample_release :: gh_release where
  "sample_release \<equiv> \<lparr>tag_name = ''v1.2.3'', is_draft = False, is_prerelease = False, asset_names = [], notes_body = ''First.''\<rparr>"

lemma sample_checked:
  "source_answer sample_world = Inr (''1.2.3'', ''c0ffee'')"
  "validate_bundle (sha256 sample_world) (loads_json sample_world) sample_bundle ''1.2.3'' ''c0ffee'' = Inr sample_checksums"
  "release_info (tag_object sample_world []) (released sample_world []) (tag_ref sample_world []) ''v1.2.3'' ''c0ffee'' =
     Inr sample_release"
  "getenv (environ sample_world) ''CARGO_REGISTRY_TOKEN'' = ''c''" "getenv (environ sample_world) ''PYPI_API_TOKEN'' = ''p''"
  using sample_bundle_valid
  by (simp_all add: sample_world_def sample_checksums_def release_info_def numeral_eq_Suc getenv_def)

definition sample_attached :: "act list" where
  "sample_attached = map (\<lambda>n. gh_upload ''v1.2.3'' (child_path ''/dist'' n)) (sort_texts (wanted_names ''1.2.3''))"

abbreviation sample_env :: "(string, string) dict" where
  "sample_env \<equiv> child_environment (environ sample_world)"

abbreviation sample_cargo :: act where
  "sample_cargo \<equiv> cargo_publish ''/src'' (dset sample_env ''CARGO_REGISTRY_TOKEN'' ''c'')"

lemma sample_publish:
  "\<exists>h after. publish sample_world ''/src'' ''v1.2.3'' ''/dist'' sample_bundle ''/notes.md'' [] = (h, Inr ()) \<and>
     h = (sample_attached @ [cargo_package ''/src'' sample_env]) @ sample_cargo # after"
proof -
  let ?missing = "[sdist_name ''1.2.3'', wheel_name ''1.2.3'']"
  let ?h3 = "sample_attached @ [cargo_package ''/src'' sample_env, sample_cargo,
     twine_check ''python'' (map (child_path ''/dist'') ?missing) sample_env,
     twine_upload ''python'' (map (child_path ''/dist'') ?missing) (dset sample_env ''TWINE_PASSWORD'' ''p'')]"
  have "\<not> list_ex is_pause ?h3"
    by (simp add: sample_attached_def list_ex_iff commands_no_pause)
  from sample_await [OF this, of 10]
  have w: "await_visible sample_world ''1.2.3'' sample_checksums 12 ?h3 = (?h3 @ [Pause 5], Inr ())" by simp
  obtain body where b: "write_notes sample_world ''v1.2.3'' ''1.2.3'' ''c0ffee'' ''/notes.md'' (?h3 @ [Pause 5]) =
      ((?h3 @ [Pause 5]) @ [Write ''/notes.md'' body, gh_edit ''v1.2.3'' ''/notes.md''], Inr ())"
    using sample_notes by blast
  have "publish_steps sample_world ''/src'' ''v1.2.3'' ''/dist'' sample_bundle ''/notes.md'' ''1.2.3'' ''c0ffee''
      sample_checksums sample_release False ?missing [] =
      ((?h3 @ [Pause 5]) @ [Write ''/notes.md'' body, gh_edit ''v1.2.3'' ''/notes.md''], Inr ())"
    using w b sample_attach [folded sample_attached_def]
    by (simp add: publish_steps_def Let_def jbind_def sample_crate_upload sample_python_upload sample_checked(4,5)
        del: await_visible.simps)
  then have "publish sample_world ''/src'' ''v1.2.3'' ''/dist'' sample_bundle ''/notes.md'' [] =
      ((?h3 @ [Pause 5]) @ [Write ''/notes.md'' body, gh_edit ''v1.2.3'' ''/notes.md''], Inr ())"
    unfolding publish_def release_check_def registries_def jbind_lift_ask sample_checked sum.case prod.case
    by (simp add: jbind_lift_ask sample_state del: sample_world_simps(2-6) add: sample_world_simps(2,3))
  then show ?thesis by (intro exI conjI) (assumption, simp)
qed


theorem publish_uploads_guarded_witness:
  "\<exists>release. \<forall>n \<in> fst ` set sample_bundle. attached sample_world ''v1.2.3'' ''/dist'' sample_bundle release
     (sample_attached @ [cargo_package ''/src'' sample_env]) n"
proof -
  obtain h after where h: "publish sample_world ''/src'' ''v1.2.3'' ''/dist'' sample_bundle ''/notes.md'' [] = (h, Inr ())"
      "h = (sample_attached @ [cargo_package ''/src'' sample_env]) @ sample_cargo # after"
    using sample_publish by blast
  have "registry_upload sample_cargo" by (simp add: registry_upload_def cargo_publish_def)
  from publish_uploads_guarded [OF h this] show ?thesis by blast
qed

theorem publish_success_witness:
  "\<exists>h version checksums before. publish sample_world ''/src'' ''v1.2.3'' ''/dist'' sample_bundle ''/notes.md'' [] = (h, Inr ()) \<and>
     both_visible sample_world version checksums before"
proof -
  obtain h where h: "publish sample_world ''/src'' ''v1.2.3'' ''/dist'' sample_bundle ''/notes.md'' [] = (h, Inr ())"
    using sample_publish by blast
  from publish_success [OF this] h show ?thesis by blast
qed

end
