(* ===== verification/Packages.thy ===== *)
theory Packages
  imports Jobs Release
begin

text \<open>
  \<^verbatim>\<open>scripts/check_packages.py\<close>, which builds and checks the release artifacts, and
  \<^verbatim>\<open>scripts/check_clean.py\<close>, which runs the checks on a clean copy of the repository. Both are jobs;
  the machine's answers (archive listings, directory contents, \<^verbatim>\<open>git\<close> outputs, digests) are fields
  of their worlds.
\<close>

subsection \<open>Paths\<close>

fun split_at :: "char \<Rightarrow> string \<Rightarrow> string list" where
  "split_at c [] = [[]]"
| "split_at c (x # xs) =
     (if x = c then [] # split_at c xs
      else (case split_at c xs of y # ys \<Rightarrow> (x # y) # ys | [] \<Rightarrow> [[x]]))"

text \<open>\<^verbatim>\<open>Path(name).parts\<close> and \<^verbatim>\<open>Path(name).name\<close>: empty and \<^verbatim>\<open>.\<close> components vanish, a leading slash (two
  exactly are kept) is a component of its own.\<close>

definition path_components :: "string \<Rightarrow> string list" where
  "path_components name = filter (\<lambda>p. p \<noteq> [] \<and> p \<noteq> ''.'') (split_at CHR ''/'' name)"

definition path_parts :: "string \<Rightarrow> string list" where
  "path_parts name =
     (if startswith name ''//'' \<and> \<not> startswith name ''///'' then [''//'']
      else if startswith name ''/'' then [''/''] else []) @ path_components name"

definition path_name :: "string \<Rightarrow> string" where
  "path_name name = (if path_components name = [] then [] else last (path_components name))"

definition contains_text :: "string \<Rightarrow> string \<Rightarrow> bool" where
  "contains_text s sep \<longleftrightarrow> cut sep s \<noteq> None"

subsection \<open>Inspecting a distribution\<close>

definition forbidden_parts :: "string list" where
  "forbidden_parts = [''target'', ''benchmarks'', ''integration'', ''.env'', ''.env.demo'', ''.git'', ''.venv'', ''__pycache__'']"

definition inspect_names :: "string list \<Rightarrow> bool \<Rightarrow> unit result" where
  "inspect_names ns source =
     (if list_ex (\<lambda>name. list_ex (\<lambda>p. p \<in> set forbidden_parts) (path_parts name)) ns
      then Inl (RuntimeError ''Distribution contains development outputs or private files'')
      else if source \<and> \<not> list_ex (\<lambda>name. endswith name ''/docs/assets/readme-cover-v2.png'') ns
      then Inl (RuntimeError ''Source distribution is missing the README cover'')
      else Inr ())"

subsection \<open>Building and checking the packages\<close>

record build_world = machine +
  root :: string
  cargo_version :: "string result"
  python_version :: "string result"
  output_exists :: bool
  dist :: "act list \<Rightarrow> (string \<times> string) list"
  archive_names :: "act list \<Rightarrow> string \<Rightarrow> string list result"
  git_head :: "act list \<Rightarrow> string result"
  git_status :: "act list \<Rightarrow> string result"
  digest_of :: "string \<Rightarrow> string"
  file_size :: "act list \<Rightarrow> string \<Rightarrow> int"
  render :: "json \<Rightarrow> string"

text \<open>\<^verbatim>\<open>run(...)\<close>: the default directory is the repository, the environment is inherited unless given.\<close>

definition build_run ::
  "build_world \<Rightarrow> string list \<Rightarrow> string option \<Rightarrow> (string, string) dict option \<Rightarrow> unit job" where
  "build_run w args cwd env = jdo w (Run args (Some (case cwd of Some d \<Rightarrow> d | None \<Rightarrow> root w)) env)"

definition build_target :: "build_world \<Rightarrow> string" where
  "build_target w =
     (let t = (case dget (environ w) ''CARGO_TARGET_DIR'' of Some t \<Rightarrow> t | None \<Rightarrow> ''target'')
      in if startswith t ''/'' then t else child_path (root w) t)"

text \<open>\<^verbatim>\<open>wheel, = artifacts.glob("*" + suffix)\<close>.\<close>

definition the_only :: "string \<Rightarrow> (string \<times> string) list \<Rightarrow> (string \<times> string) result" where
  "the_only suffix files =
     (case filter (\<lambda>f. endswith (fst f) suffix) files of
        [f] \<Rightarrow> Inr f
      | _ \<Rightarrow> Inl (ValueError ''expected one file''))"

definition assert_that :: "bool \<Rightarrow> unit result" where
  "assert_that b = (if b then Inr () else Inl (AssertionError []))"

text \<open>The version texts of \<^verbatim>\<open>Cargo.toml\<close> and \<^verbatim>\<open>pyproject.toml\<close>.\<close>

definition package_versions :: "build_world \<Rightarrow> string result" where
  "package_versions w =
     rbind (cargo_version w) (\<lambda>version. rbind (python_version w) (\<lambda>python_version.
       if version \<noteq> python_version then Inl (RuntimeError ''Release package versions differ'')
       else Inr version))"

definition checks_done :: "string list" where
  "checks_done = [''source README cover'', ''crate all-target check'', ''external Rust application'', ''wheel built from sdist'',
     ''fresh Python installation'', ''installed SDK without OpenAI'', ''real HTTP conformance/native call'']"

definition build_report :: "build_world \<Rightarrow> string \<Rightarrow> string \<Rightarrow> string \<Rightarrow> (string \<times> string) list \<Rightarrow> json" where
  "build_report w version head status files =
     JDict [(''version'', JStr version), (''source_commit'', JStr (py_strip head)),
       (''working_tree_dirty'', JBool (status \<noteq> [])),
       (''sha256'', JDict (map (\<lambda>(n, bytes). (n, JStr (digest_of w bytes))) files)),
       (''artifacts'', JDict (map (\<lambda>(n, bytes). (n, JInt (int (length bytes)))) files)),
       (''checks'', JList (map JStr checks_done))]"

definition size_limit :: int where
  "size_limit = 5 * 1024 * 1024"

text \<open>The checks of the built archives: what each may contain, and how large each is.\<close>

definition inspect_wheel :: "string list \<Rightarrow> unit result" where
  "inspect_wheel ns =
     rbind (inspect_names ns False) (\<lambda>_.
       assert_that (length (filter (\<lambda>n. endswith n ''.schema.json'') ns) = 4))"

definition inspect_sdist :: "string list \<Rightarrow> unit result" where
  "inspect_sdist ns =
     rbind (inspect_names ns True) (\<lambda>_. assert_that (\<not> list_ex (\<lambda>n. contains_text n ''/tests/'') ns))"

definition inspect_archive :: "build_world \<Rightarrow> (string list \<Rightarrow> unit result) \<Rightarrow> string \<Rightarrow> unit job" where
  "inspect_archive w check path =
     jbind (jask (\<lambda>h. archive_names w h path)) (\<lambda>ns. jlift (check ns))"

definition check_sizes :: "build_world \<Rightarrow> string list \<Rightarrow> unit job" where
  "check_sizes w paths =
     jask (\<lambda>h. if list_ex (\<lambda>p. size_limit < file_size w h p) paths
               then Inl (RuntimeError ''Unexpectedly large release artifact'') else Inr ())"

text \<open>\<open>main\<close>; \<open>output\<close> is the new directory for the artifacts. The result is the report and, when it
  was asked for, the content of that directory.\<close>

definition write_output ::
  "build_world \<Rightarrow> string \<Rightarrow> string option \<Rightarrow> json \<Rightarrow> (string \<times> string) list \<Rightarrow> (json \<times> directory) job" where
  "write_output w artifacts output report files =
     (case output of
        None \<Rightarrow> jlift (Inr (report, []))
      | Some out \<Rightarrow>
          jbind (jdo w (Copy artifacts out)) (\<lambda>_.
          jbind (jdo w (Write (child_path out ''verification.json'') (render w report @ [CHR 0x0A]))) (\<lambda>_.
            jlift (Inr (report, map (\<lambda>(n, bytes). (n, Some bytes)) files
                                @ [(''verification.json'', Some (render w report @ [CHR 0x0A]))])))))"

definition report_packages ::
  "build_world \<Rightarrow> string \<Rightarrow> string \<Rightarrow> string option \<Rightarrow> (json \<times> directory) job" where
  "report_packages w artifacts version output =
     jbind (jask (git_head w)) (\<lambda>head. jbind (jask (git_status w)) (\<lambda>status.
     jbind (jask (\<lambda>h. Inr (dist w h))) (\<lambda>files.
       write_output w artifacts output (build_report w version head status files) files)))"

definition check_packages :: "build_world \<Rightarrow> string option \<Rightarrow> (json \<times> directory) job" where
  "check_packages w output =
     (if output \<noteq> None \<and> output_exists w then jlift (Inl (OtherError ''SystemExit''))
      else jbind (jlift (package_versions w)) (\<lambda>version.
        let artifacts = child_path (temporary w) ''dist'';
            crate = child_path (child_path (build_target w) ''package'') (crate_name version);
            crate_root = child_path (child_path (temporary w) ''rust'') (''ai-protocol-'' @ version);
            python = child_path (child_path (child_path (temporary w) ''venv'') ''bin'') ''python''
        in jbind (build_run w [executable w, ''-m'', ''build'', ''--outdir'', artifacts] None None) (\<lambda>_.
           jbind (build_run w [''cargo'', ''package'', ''--locked'', ''--allow-dirty'', ''--no-verify''] None None) (\<lambda>_.
           jbind (jdo w (Copy crate (child_path artifacts (crate_name version)))) (\<lambda>_.
           jbind (inspect_archive w (\<lambda>ns. inspect_names ns True) crate) (\<lambda>_.
           jbind (jdo w (Extract crate (child_path (temporary w) ''rust''))) (\<lambda>_.
           jbind (build_run w [''cargo'', ''check'', ''--locked'', ''--all-targets'', ''--manifest-path'', child_path crate_root ''Cargo.toml'']
                    None (Some (dset (environ w) ''CARGO_TARGET_DIR'' (build_target w)))) (\<lambda>_.
           jbind (jask (\<lambda>h. the_only ''.whl'' (dist w h))) (\<lambda>wheel.
           jbind (jask (\<lambda>h. the_only ''.tar.gz'' (dist w h))) (\<lambda>sdist.
           jbind (inspect_archive w inspect_wheel (child_path artifacts (fst wheel))) (\<lambda>_.
           jbind (inspect_archive w inspect_sdist (child_path artifacts (fst sdist))) (\<lambda>_.
           jbind (check_sizes w [crate, child_path artifacts (fst wheel), child_path artifacts (fst sdist)]) (\<lambda>_.
           jbind (jdo w (Venv (child_path (temporary w) ''venv''))) (\<lambda>_.
           jbind (build_run w [python, ''-m'', ''pip'', ''install'', ''--disable-pip-version-check'', ''--quiet'',
                    child_path artifacts (fst wheel)] (Some (temporary w)) None) (\<lambda>_.
           jbind (build_run w [executable w, child_path (root w) ''scripts/check_rust_library.py'', ''--crate-root'', crate_root,
                    ''--python'', python, ''--minimal-sdk''] (Some (temporary w)) None) (\<lambda>_.
             report_packages w artifacts version output))))))))))))))))"

subsection \<open>A clean checkout\<close>

record clean_world = machine +
  repository :: string
  listed :: "string result"
  is_file :: "string \<Rightarrow> bool"
  is_symlink :: "string \<Rightarrow> bool"
  bytes_of :: "string \<Rightarrow> string result"
  rustup :: "string result"
  text_output :: "act list \<Rightarrow> string list \<Rightarrow> string result"
  hash_of :: "string \<Rightarrow> string"

definition local_parts :: "string list" where
  "local_parts = [''.git'', ''target'', ''.venv'', ''venv'', ''__pycache__'']"

definition local_only :: "string \<Rightarrow> bool" where
  "local_only path \<longleftrightarrow>
     list_ex (\<lambda>p. p \<in> set local_parts) (path_parts path)
     \<or> startswith (path_name path) ''.env'' \<and> path_name path \<noteq> ''.env.example''"

definition snapshot_paths :: "clean_world \<Rightarrow> string \<Rightarrow> string list" where
  "snapshot_paths w listing =
     sort_texts (remdups (filter (\<lambda>p. p \<noteq> [] \<and> is_file w (child_path (repository w) p)) (split_at CHR 0x00 listing)))"

text \<open>One file: refused, or copied and hashed.\<close>

definition snapshot_file :: "clean_world \<Rightarrow> string \<Rightarrow> string \<Rightarrow> string job" where
  "snapshot_file w project path =
     (if local_only path
      then jlift (Inl (RuntimeError ''A local-only file is included in the intended snapshot''))
      else if is_symlink w (child_path (repository w) path)
      then jlift (Inl (RuntimeError ''Review symlinks explicitly before exporting a clean snapshot''))
      else jbind (jdo w (Mkdir (child_path project (join ''/'' (butlast (path_components path)))))) (\<lambda>_.
           jbind (jdo w (Copy (child_path (repository w) path) (child_path project path))) (\<lambda>_.
           jlift (rbind (bytes_of w (child_path (repository w) path)) (\<lambda>bytes. Inr (hash_of w bytes))))))"

fun snapshot :: "clean_world \<Rightarrow> string \<Rightarrow> string list \<Rightarrow> (string \<times> json) list job" where
  "snapshot w project [] = jlift (Inr [])"
| "snapshot w project (path # paths) =
     jbind (snapshot_file w project path) (\<lambda>hash. jbind (snapshot w project paths) (\<lambda>rest.
       jlift (Inr ((path, JStr hash) # rest))))"

definition clean_environment :: "clean_world \<Rightarrow> string \<Rightarrow> string \<Rightarrow> (string, string) dict" where
  "clean_environment w rustup_home path =
     [(''PATH'', path), (''HOME'', child_path (temporary w) ''home''), (''CARGO_HOME'', child_path (temporary w) ''cargo''),
      (''RUSTUP_HOME'', rustup_home), (''PYTHONNOUSERSITE'', ''1''), (''PIP_DISABLE_PIP_VERSION_CHECK'', ''1'')]"

definition venv_python :: "string \<Rightarrow> string" where
  "venv_python project = child_path project ''.venv/bin/python''"

definition clean_commands :: "clean_world \<Rightarrow> string \<Rightarrow> string list list" where
  "clean_commands w project =
     [[executable w, ''-m'', ''venv'', child_path project ''.venv''],
      [venv_python project, ''-m'', ''pip'', ''install'', ''--no-cache-dir'', ''-r'', ''requirements.txt''],
      [''bash'', ''scripts/verify.sh'']]"

text \<open>The commands run in the copy; after the first the virtual environment leads the path.\<close>

fun run_commands :: "clean_world \<Rightarrow> string \<Rightarrow> string \<Rightarrow> (string, string) dict \<Rightarrow> string list list \<Rightarrow> (string, string) dict job" where
  "run_commands w project path env [] = jlift (Inr env)"
| "run_commands w project path env (args # rest) =
     jbind (jdo w (Run args (Some project) (Some env))) (\<lambda>_.
       run_commands w project path (dset env ''PATH'' (child_path project ''.venv/bin'' @ '':'' @ path)) rest)"

definition version_commands :: "clean_world \<Rightarrow> (string \<times> string list) list" where
  "version_commands w =
     [(''rustc'', [''rustc'', ''--version'']), (''cargo'', [''cargo'', ''--version'']), (''python'', [executable w, ''--version''])]"

fun tool_versions :: "clean_world \<Rightarrow> (string \<times> string list) list \<Rightarrow> (string \<times> json) list job" where
  "tool_versions w [] = jlift (Inr [])"
| "tool_versions w ((name, args) # rest) =
     jbind (jask (\<lambda>h. text_output w h args)) (\<lambda>out. jbind (tool_versions w rest) (\<lambda>vs.
       jlift (Inr ((name, JStr (py_strip out)) # vs))))"

definition clean_report ::
  "string \<Rightarrow> (string \<times> json) list \<Rightarrow> string list \<Rightarrow> (string \<times> json) list \<Rightarrow> string \<Rightarrow> json" where
  "clean_report platform versions paths hashes frozen =
     JDict [(''passed'', JBool True), (''platform'', JStr platform), (''versions'', JDict versions),
       (''copied_files'', JInt (int (length paths))), (''input_source_sha256'', JDict hashes),
       (''python_packages'', JList (map JStr (splitlines (universal_newlines frozen)))),
       (''fresh_cargo_home'', JBool True), (''fresh_python_venv'', JBool True), (''fresh_build'', JBool True),
       (''copied_git_directory'', JBool False), (''inherited_project_environment'', JBool False),
       (''steps'', JList (map JStr [''create venv'', ''pip install --no-cache-dir -r requirements.txt'', ''bash scripts/verify.sh''])),
       (''note'', JStr ''Includes intended uncommitted in-repository files; this is not validation of a published commit. Installed compiler toolchains are reused, not project build outputs.'')]"

text \<open>\<open>dumps_text\<close> is \<^verbatim>\<open>json.dumps(result, indent=2)\<close>; an existing report makes the write fail.\<close>

definition check_clean :: "clean_world \<Rightarrow> (json \<Rightarrow> string) \<Rightarrow> string \<Rightarrow> string \<Rightarrow> unit job" where
  "check_clean w dumps_text platform report_path =
     jbind (jlift (listed w)) (\<lambda>listing. jbind (jlift (rustup w)) (\<lambda>rustup_home.
       let paths = snapshot_paths w listing; project = child_path (temporary w) ''checkout''
       in jbind (jdo w (Mkdir project)) (\<lambda>_.
          jbind (snapshot w project paths) (\<lambda>hashes.
          jbind (jlift (case dget (environ w) ''PATH'' of Some p \<Rightarrow> Inr p | None \<Rightarrow> Inl (KeyError ''PATH''))) (\<lambda>path.
          let env = clean_environment w (py_strip rustup_home) path
          in jbind (jdo w (Mkdir (child_path (temporary w) ''home''))) (\<lambda>_.
             jbind (tool_versions w (version_commands w)) (\<lambda>versions.
             jbind (run_commands w project path env (clean_commands w project)) (\<lambda>env.
             jbind (jask (\<lambda>h. text_output w h [venv_python project, ''-m'', ''pip'', ''freeze''])) (\<lambda>frozen.
             jbind (jdo w (Mkdir (join ''/'' (butlast (split_at CHR ''/'' report_path))))) (\<lambda>_.
               jdo w (Write report_path (dumps_text (clean_report platform versions paths hashes frozen) @ [CHR 0x0A]))))))))))))"

end
