(* ===== verification/Packages_Props.thy ===== *)
theory Packages_Props
  imports Packages Release_Props
begin

text \<open>
  The clean checkout holds only reviewed files and its commands see no local state; and what the
  package check writes is what the release script accepts.
\<close>

subsection \<open>The clean checkout\<close>

definition checkout :: "clean_world \<Rightarrow> string" where
  "checkout w = child_path (temporary w) ''checkout''"

definition copy_of :: "clean_world \<Rightarrow> string \<Rightarrow> act" where
  "copy_of w path = Copy (child_path (repository w) path) (child_path (checkout w) path)"

text \<open>An environment with nothing of the caller's but the search path.\<close>

definition isolated :: "clean_world \<Rightarrow> (string, string) dict \<Rightarrow> bool" where
  "isolated w env \<longleftrightarrow>
     dkeys env = [''PATH'', ''HOME'', ''CARGO_HOME'', ''RUSTUP_HOME'', ''PYTHONNOUSERSITE'', ''PIP_DISABLE_PIP_VERSION_CHECK''] \<and>
     dget env ''HOME'' = Some (child_path (temporary w) ''home'') \<and>
     dget env ''CARGO_HOME'' = Some (child_path (temporary w) ''cargo'')"

definition clean_allowed :: "clean_world \<Rightarrow> string list \<Rightarrow> act list \<Rightarrow> act \<Rightarrow> bool" where
  "clean_allowed w paths h a =
     (case a of
        Copy src dst \<Rightarrow> (\<exists>p \<in> set paths. a = copy_of w p \<and> \<not> local_only p \<and>
                           \<not> is_symlink w (child_path (repository w) p))
      | Run args cwd env \<Rightarrow> cwd = Some (checkout w) \<and> (\<exists>e. env = Some e \<and> isolated w e) \<and>
                           (\<forall>p \<in> set paths. copy_of w p \<in> set h)
      | _ \<Rightarrow> True)"

lemma clean_quiet: "clean_allowed w paths h (Mkdir d)" "clean_allowed w paths h (Write p body)"
  by (simp_all add: clean_allowed_def)

lemma snapshot_file_valid:
  assumes "path \<in> set paths"
  shows "jvalid (\<lambda>h. each_allowed (clean_allowed w paths) h \<and> (\<forall>p \<in> C. copy_of w p \<in> set h))
    (snapshot_file w (checkout w) path)
    (\<lambda>_ h. each_allowed (clean_allowed w paths) h \<and> (\<forall>p \<in> insert path C. copy_of w p \<in> set h))
    (each_allowed (clean_allowed w paths))"
proof (cases "local_only path \<or> is_symlink w (child_path (repository w) path)")
  case True
  then show ?thesis by (auto simp: snapshot_file_def intro: jvalid_lift)
next
  case False
  let ?A = "each_allowed (clean_allowed w paths)"
  let ?C = "\<lambda>D h. ?A h \<and> (\<forall>p \<in> D. copy_of w p \<in> set h)"
  have ok: "clean_allowed w paths h (copy_of w path)" for h
    using False assms by (auto simp: clean_allowed_def copy_of_def)
  have c: "jvalid (?C C) (jdo w (copy_of w path)) (\<lambda>_. ?C (insert path C)) ?A"
    by (rule jvalid_do) (auto simp: ok)
  have m: "jvalid (?C C) (jdo w (Mkdir d)) (\<lambda>_. ?C C) ?A" for d
    by (rule jvalid_do) (auto simp: clean_quiet)
  have l: "jvalid (?C (insert path C)) (jlift r) (\<lambda>_. ?C (insert path C)) ?A" for r :: "string result"
    by (rule jvalid_lift) auto
  have e: "snapshot_file w (checkout w) path =
      jbind (jdo w (Mkdir (child_path (checkout w) (join ''/'' (butlast (path_components path)))))) (\<lambda>_.
      jbind (jdo w (copy_of w path)) (\<lambda>_.
        jlift (rbind (bytes_of w (child_path (repository w) path)) (\<lambda>bytes. Inr (hash_of w bytes)))))"
    using False by (simp add: snapshot_file_def copy_of_def)
  show ?thesis unfolding e by (rule jvalid_bind [OF m], rule jvalid_bind [OF c], rule l)
qed

lemma snapshot_valid:
  "set rest \<subseteq> set paths \<Longrightarrow>
   jvalid (\<lambda>h. each_allowed (clean_allowed w paths) h \<and> (\<forall>p \<in> C. copy_of w p \<in> set h))
    (snapshot w (checkout w) rest)
    (\<lambda>_ h. each_allowed (clean_allowed w paths) h \<and> (\<forall>p \<in> C \<union> set rest. copy_of w p \<in> set h))
    (each_allowed (clean_allowed w paths))"
proof (induction rest arbitrary: C)
  case Nil
  then show ?case by (auto intro: jvalid_lift)
next
  case (Cons path rest)
  then have path: "path \<in> set paths" and IH: "\<And>C. jvalid
      (\<lambda>h. each_allowed (clean_allowed w paths) h \<and> (\<forall>p \<in> C. copy_of w p \<in> set h)) (snapshot w (checkout w) rest)
      (\<lambda>_ h. each_allowed (clean_allowed w paths) h \<and> (\<forall>p \<in> C \<union> set rest. copy_of w p \<in> set h))
      (each_allowed (clean_allowed w paths))" by simp_all
  have i: "C \<union> set (path # rest) = insert path C \<union> set rest" by simp
  show ?case
    unfolding snapshot.simps i
    by (rule jvalid_bind [OF snapshot_file_valid [OF path]], rule jvalid_bind [OF IH]) (auto intro: jvalid_lift)
qed

lemma isolated_path: "isolated w env \<Longrightarrow> isolated w (dset env ''PATH'' p)"
  by (simp add: isolated_def dkeys_dset dict_simps)

lemma run_commands_valid:
  assumes "isolated w env"
  shows "keeps (clean_allowed w paths) (\<lambda>h. \<forall>p \<in> set paths. copy_of w p \<in> set h)
    (run_commands w (checkout w) path env commands)"
  using assms
proof (induction commands arbitrary: env)
  case (Cons args rest)
  have "clean_allowed w paths h (Run args (Some (checkout w)) (Some env))"
    if "\<forall>p \<in> set paths. copy_of w p \<in> set h" for h
    using that Cons.prems by (simp add: clean_allowed_def)
  then show ?case
    unfolding run_commands.simps
    by (intro keeps_bind keeps_do Cons.IH isolated_path Cons.prems) auto
qed (auto intro: keeps_quiet)

lemma tool_versions_keeps: "keeps ok P (tool_versions w cs)"
  by (induction w cs rule: tool_versions.induct) (auto intro!: keeps_bind keeps_quiet)

lemma check_clean_valid:
  fixes w listing
  defines "paths \<equiv> snapshot_paths w listing"
  assumes Inr: "listed w = Inr listing"
  shows "jvalid (each_allowed (clean_allowed w paths)) (check_clean w dumps_text platform report_path)
    (\<lambda>_. each_allowed (clean_allowed w paths)) (each_allowed (clean_allowed w paths))"
proof -
  let ?ok = "clean_allowed w paths"
  let ?P = "\<lambda>h. \<forall>p \<in> set paths. copy_of w p \<in> set h"
  have snap: "jvalid (each_allowed ?ok) (snapshot w (checkout w) paths) (\<lambda>_ h. each_allowed ?ok h \<and> ?P h) (each_allowed ?ok)"
    using snapshot_valid [of paths paths w "{}"] by simp
  have env: "isolated w (clean_environment w x p)" for x p
    by (simp add: isolated_def clean_environment_def dkeys_def)
  let ?tail = "\<lambda>rustup_home hashes. jbind (jlift (case dget (environ w) ''PATH'' of Some p \<Rightarrow> Inr p | None \<Rightarrow> Inl (KeyError ''PATH'')))
     (\<lambda>path. jbind (jdo w (Mkdir (child_path (temporary w) ''home'')))
     (\<lambda>_. jbind (tool_versions w (version_commands w))
     (\<lambda>versions. jbind (run_commands w (checkout w) path (clean_environment w (py_strip rustup_home) path) (clean_commands w (checkout w)))
     (\<lambda>env. jbind (jask (\<lambda>h. text_output w h [venv_python (checkout w), ''-m'', ''pip'', ''freeze'']))
     (\<lambda>frozen. jbind (jdo w (Mkdir (join ''/'' (butlast (split_at CHR ''/'' report_path)))))
     (\<lambda>_. jdo w (Write report_path (dumps_text (clean_report platform versions paths hashes frozen) @ [CHR 0x0A]))))))))"
  have tail: "jvalid (\<lambda>h. each_allowed ?ok h \<and> ?P h) (?tail rustup_home hashes) (\<lambda>_. each_allowed ?ok) (each_allowed ?ok)"
    for rustup_home hashes
  proof -
    have "keeps ?ok ?P (?tail rustup_home hashes)"
      by (intro keeps_bind keeps_quiet keeps_do tool_versions_keeps run_commands_valid env) (auto simp: clean_quiet)
    then show ?thesis unfolding keeps_def by (rule jvalid_weaken) auto
  qed
  show ?thesis
    unfolding check_clean_def Inr jbind_return Let_def checkout_def [symmetric] paths_def [symmetric]
  proof (rule jvalid_bind [where R = "\<lambda>_. each_allowed ?ok"], goal_cases)
    case 1
    show ?case by (rule jvalid_lift)
  next
    case (2 rustup_home)
    have m: "jvalid (each_allowed ?ok) (jdo w (Mkdir (checkout w))) (\<lambda>_. each_allowed ?ok) (each_allowed ?ok)"
      by (rule jvalid_do) (auto simp: clean_quiet)
    show ?case by (rule jvalid_bind [OF m], rule jvalid_bind [OF snap], rule tail)
  qed
qed


subsection \<open>From the package check to the release\<close>

lemma check_packages_reports:
  assumes "check_packages w output g = (h, Inr x)"
  obtains version g' where "package_versions w = Inr version"
    "report_packages w (child_path (temporary w) ''dist'') version output g' = (h, Inr x)"
  using assms
  by (auto simp: check_packages_def Let_def jbind_Inr jlift_def split: if_splits)

lemma report_packages_output:
  assumes "report_packages w artifacts version (Some out) g = (h, Inr (report, directory))"
  obtains head status files where "report = build_report w version head status files"
    "directory = map (\<lambda>(n, bytes). (n, Some bytes)) files @ [(''verification.json'', Some (render w report @ [CHR 0x0A]))]"
  using assms
  by (auto simp: report_packages_def write_output_def jbind_Inr jlift_def jask_def)

lemma copy_files_exists:
  "\<forall>n \<in> set ns. \<exists>bytes. file_bytes directory n = Inr bytes \<Longrightarrow> \<exists>files. copy_files directory ns = Inr files"
proof (induction ns)
  case (Cons n ns)
  then obtain bytes files where "file_bytes directory n = Inr bytes" "copy_files directory ns = Inr files" by auto
  then show ?case by simp
qed simp

lemma file_bytes_listed:
  assumes "distinct (map fst directory)" "(n, Some bytes) \<in> set directory"
  shows "file_bytes directory n = Inr bytes"
proof -
  have "dget directory n = Some (Some bytes)" using assms by (simp add: dget_def)
  then show ?thesis by (simp add: file_bytes_def)
qed

text \<open>A directory of packages and their report is accepted by \<open>build_bundle\<close> and the validation.\<close>

lemma reported_directory:
  fixes w :: build_world and version head status raw :: string and files :: "(string \<times> string) list"
  defines "report \<equiv> build_report w version head status files"
    and "directory \<equiv> map (\<lambda>(n, bytes). (n, Some bytes)) files @ [(''verification.json'', Some raw)]"
  assumes tag: "fullmatch tag_rx (''v'' @ version)"
    and clean: "report = JDict r" "get r ''working_tree_dirty'' = JBool False" "get r ''source_commit'' = JStr commit"
    and listing: "distinct (map fst directory)"
      "set (map fst directory) = set (names version @ [''verification.json''])"
    and digest: "\<And>bytes. fullmatch sha_rx (digest_of w bytes)"
    and json: "loads raw = Inr report"
  shows "\<exists>bundle items. build_bundle (digest_of w) directory version = Inr bundle \<and>
    validate_bundle (digest_of w) loads bundle version commit = Inr items \<and>
    (\<forall>n \<in> set (names version). file_bytes bundle n = file_bytes directory n)"
proof -
  let ?items = "map (\<lambda>(n, bytes). (n, JStr (digest_of w bytes))) files"
  have fst: "map fst directory = map fst files @ [''verification.json'']" unfolding directory_def by (induction files) auto
  have dist: "distinct (map fst files)" "''verification.json'' \<notin> fst ` set files" using listing(1) fst by auto
  have fs: "fst ` set files = set (names version)"
  proof -
    have v: "''verification.json'' \<notin> set (names version)" using names_distinct [of version] by simp
    have "insert ''verification.json'' (fst ` set files) = insert ''verification.json'' (set (names version))"
      using listing(2) fst by simp
    with v dist(2) show ?thesis by (metis Diff_insert_absorb)
  qed
  have b: "file_bytes directory n = Inr bytes" if "(n, Some bytes) \<in> set directory" for n bytes
    by (rule file_bytes_listed [OF listing(1) that])
  have f: "file_bytes directory n = Inr bytes" if "(n, bytes) \<in> set files" for n bytes
    by (rule b) (use that directory_def in force)
  have r: "file_bytes directory ''verification.json'' = Inr raw" by (rule b) (simp add: directory_def)
  have "r = [(''version'', JStr version), (''source_commit'', JStr (py_strip head)),
       (''working_tree_dirty'', JBool (status \<noteq> [])), (''sha256'', JDict ?items),
       (''artifacts'', JDict (map (\<lambda>(n, bytes). (n, JInt (int (length bytes)))) files)),
       (''checks'', JList (map JStr checks_done))]"
    using clean(1) by (simp add: report_def build_report_def)
  then have "get r ''version'' = JStr version" "dget r ''sha256'' = Some (JDict ?items)" by (simp_all add: get_def)
  moreover have "fst ` set ?items = set (names version)" using fs by (force simp: image_iff)
  ultimately have rep_ok: "report_of report version commit ?items" unfolding report_of_def using clean by blast
  have items: "check_report_items (digest_of w) directory ?items = Inr ()"
    unfolding check_report_items_iff using f digest by auto
  have "\<exists>bytes. file_bytes directory n = Inr bytes" if "n \<in> set (names version @ [''verification.json''])" for n
    using that fs f r by fastforce
  then obtain made where made: "build_bundle (digest_of w) directory version = Inr made"
    using copy_files_exists [of "names version @ [''verification.json'']" directory] by (auto simp: build_bundle_def)
  have d: "version = drop 1 (''v'' @ version)" by simp
  have "validate_bundle (digest_of w) loads made version commit = Inr ?items \<and>
    (\<forall>n \<in> set (names version). file_bytes made n = file_bytes directory n)"
    by (rule built_bundle_valid [where digest = "digest_of w" and loads = loads and raw = raw,
        OF tag d digest made r json rep_ok items])
  with made show ?thesis by blast
qed

text \<open>
  Claim C21. What the package check writes, the release script accepts: when the check succeeds on a
  clean tree with commit \<open>commit\<close> and the version of the tag, and its output directory holds the
  three expected packages and the report, then preparing a release from that directory builds a
  bundle that passes the validation for that version and commit, with every package byte for
  byte the checked one. (The digest is hexadecimal and \<^verbatim>\<open>json.loads\<close> reads back what
  \<^verbatim>\<open>json.dumps\<close> wrote; no name occurs twice in a directory.)
\<close>

theorem package_check_feeds_release:
  assumes run: "check_packages w (Some out) [] = (h, Inr (report, directory))"
    and tag: "fullmatch tag_rx (''v'' @ version)" "cargo_version w = Inr version"
    and clean: "report = JDict r" "get r ''working_tree_dirty'' = JBool False" "get r ''source_commit'' = JStr commit"
    and listing: "distinct (map fst directory)"
      "set (map fst directory) = set (names version @ [''verification.json''])"
    and digest: "\<And>bytes. fullmatch sha_rx (digest_of w bytes)"
    and json: "loads (render w report @ [CHR 0x0A]) = Inr report"
  shows "\<exists>bundle items. build_bundle (digest_of w) directory version = Inr bundle \<and>
    validate_bundle (digest_of w) loads bundle version commit = Inr items \<and>
    (\<forall>n \<in> set (names version). file_bytes bundle n = file_bytes directory n)"
proof -
  obtain v g' where v: "package_versions w = Inr v"
      "report_packages w (child_path (temporary w) ''dist'') v (Some out) g' = (h, Inr (report, directory))"
    using run by (rule check_packages_reports)
  from v(1) tag(2) have "v = version" by (auto simp: package_versions_def result_simps)
  with v(2) obtain head status files where f: "report = build_report w version head status files"
      "directory = map (\<lambda>(n, bytes). (n, Some bytes)) files @ [(''verification.json'', Some (render w report @ [CHR 0x0A]))]"
    by (auto elim: report_packages_output)
  show ?thesis
    using reported_directory [of version w head status files r commit "render w report @ [CHR 0x0A]" loads,
        folded f(1), folded f(2), OF tag(1) clean listing digest json] .
qed

subsection \<open>Sample runs\<close>

definition sample_clean :: clean_world where
  "sample_clean = \<lparr>performed = (\<lambda>_ _. Inr ()), environ = [(''PATH'', ''/bin''), (''SECRET'', ''s'')],
     executable = ''python'', temporary = ''/tmp/c'', repository = ''/r'', listed = Inr (''README.md'' @ CHR 0x00 # ''src/lib.rs''),
     is_file = (\<lambda>_. True), is_symlink = (\<lambda>_. False), bytes_of = (\<lambda>_. Inr ''x''), rustup = Inr ''/rustup'',
     text_output = (\<lambda>_ _. Inr ''1.0''), hash_of = (\<lambda>_. ''h'')\<rparr>"

lemma sample_clean_run:
  "list_ex (\<lambda>a. case a of Run args _ _ \<Rightarrow> args = [''bash'', ''scripts/verify.sh''] | _ \<Rightarrow> False)
     (fst (check_clean sample_clean (\<lambda>_. ''report'') ''linux'' ''/out/report.json'' []))"
  by code_simp


definition sample_dist :: "act list \<Rightarrow> (string \<times> string) list" where
  "sample_dist h = map (\<lambda>n. (n, ''pkg'')) (names ''1.2.3'')"

definition sample_listing_of :: "act list \<Rightarrow> string \<Rightarrow> string list result" where
  "sample_listing_of h path = Inr (if endswith path ''.whl''
     then map (\<lambda>n. ''ai_protocol/'' @ n @ ''.schema.json'') [''a'', ''b'', ''c'', ''d'']
     else [''ai-protocol-1.2.3/docs/assets/readme-cover-v2.png''])"

definition sample_build :: build_world where
  "sample_build = \<lparr>performed = (\<lambda>_ _. Inr ()), environ = [], executable = ''python'', temporary = ''/tmp/b'', root = ''/r'',
     cargo_version = Inr ''1.2.3'', python_version = Inr ''1.2.3'', output_exists = False, dist = sample_dist,
     archive_names = sample_listing_of, git_head = (\<lambda>_. Inr ''c0ffee''), git_status = (\<lambda>_. Inr []),
     digest_of = (\<lambda>_. replicate 64 CHR ''a''), file_size = (\<lambda>_ _. 3), render = (\<lambda>_. ''{}'')\<rparr>"

lemma sample_build_run:
  "snd (check_packages sample_build (Some ''/out'') []) =
     Inr (build_report sample_build ''1.2.3'' ''c0ffee'' [] (sample_dist []),
          map (\<lambda>n. (n, Some ''pkg'')) (names ''1.2.3'') @ [(''verification.json'', Some (''{}'' @ [CHR 0x0A]))])"
  by code_simp

theorem package_check_feeds_release_witness:
  "\<exists>bundle items. validate_bundle (digest_of sample_build)
     (\<lambda>_. Inr (build_report sample_build ''1.2.3'' ''c0ffee'' [] (sample_dist []))) bundle ''1.2.3'' ''c0ffee'' = Inr items"
proof -
  let ?report = "build_report sample_build ''1.2.3'' ''c0ffee'' [] (sample_dist [])"
  let ?dir = "map (\<lambda>n. (n, Some ''pkg'')) (names ''1.2.3'') @ [(''verification.json'', Some (''{}'' @ [CHR 0x0A]))]"
  obtain h where run: "check_packages sample_build (Some ''/out'') [] = (h, Inr (?report, ?dir))"
    using sample_build_run by (cases "check_packages sample_build (Some ''/out'') []") simp
  have tag: "fullmatch tag_rx (''v'' @ ''1.2.3'')" by code_simp
  have v: "cargo_version sample_build = Inr ''1.2.3''" by (simp add: sample_build_def)
  obtain r where r1: "?report = JDict r" by (simp add: build_report_def)
  have s: "py_strip ''c0ffee'' = ''c0ffee''" by code_simp
  have r2: "get r ''working_tree_dirty'' = JBool False" "get r ''source_commit'' = JStr ''c0ffee''"
    using r1 by (auto simp: build_report_def get_def s)
  have fst: "map fst ?dir = names ''1.2.3'' @ [''verification.json'']" by (simp add: comp_def)
  have d: "distinct (map fst ?dir)" unfolding fst using names_distinct [of "''1.2.3''"] by simp
  have n: "set (map fst ?dir) = set (names ''1.2.3'' @ [''verification.json''])" unfolding fst ..
  have hex: "fullmatch sha_rx (digest_of sample_build bytes)" for bytes
  proof -
    have "fullmatch sha_rx (replicate 64 CHR ''a'')" by code_simp
    then show ?thesis by (simp add: sample_build_def)
  qed
  have j: "(\<lambda>_. Inr ?report) (render sample_build ?report @ [CHR 0x0A]) = Inr ?report" by simp
  from package_check_feeds_release [where loads = "\<lambda>_. Inr ?report", OF run tag v r1 r2 d n hex j]
  show ?thesis by blast
qed

end
