(* ===== verification/Agent_Clients.thy ===== *)
theory Agent_Clients
  imports Execute Dispatcher
begin

text \<open>
  The two command line clients of \<^verbatim>\<open>examples/\<close> that decide which operation to run:
  \<^verbatim>\<open>llm_client.py\<close>, where a language model chooses, and \<^verbatim>\<open>discover_client.py\<close>, where a person types
  a number. A run is the list of its events and how it ends.

  Parameters beyond those of \<open>execute\<close>: \<open>task\<close>, \<open>typed\<close>, \<open>line\<close> and \<open>key\<close> are what is read from the
  terminal, \<open>decide\<close> the model's answer to a task and a list of tools, \<open>loads\<close> is \<^verbatim>\<open>json.loads\<close>.
\<close>

datatype event =
    Offered string "json list"
  | Listed int string string
  | Said string
  | Printed json
  | Acted action
  | Dispatched io

datatype ending = Finished | Message string | Raised exn

definition ended :: "event list \<Rightarrow> json option result \<Rightarrow> event list \<times> ending" where
  "ended events r =
     (case r of
        Inl e \<Rightarrow> (events, Raised e)
      | Inr v \<Rightarrow> (events @ [Printed (case v of Some w \<Rightarrow> w | None \<Rightarrow> JNull)], Finished))"

subsection \<open>The model chooses\<close>

text \<open>A published operation as a tool; the operation has passed \<open>validate_operation\<close>.\<close>

definition tool_of :: "json \<Rightarrow> json" where
  "tool_of item =
     JDict [(''type'', JStr ''function''), (''name'', field item ''name''), (''description'', field item ''description''),
       (''parameters'', JDict (dpop (case as_dict (field item ''input_schema'') of Some s \<Rightarrow> s | None \<Rightarrow> []) ''$schema'')),
       (''strict'', JBool False)]"

record output_item =
  item_type :: string
  item_name :: string
  item_arguments :: string

record decision =
  model_output :: "output_item list"
  output_text :: string

definition calls_of :: "decision \<Rightarrow> output_item list" where
  "calls_of d = filter (\<lambda>i. item_type i = ''function_call'') (model_output d)"

definition run_choice ::
  "schema_check \<Rightarrow> schema_validate \<Rightarrow> (string \<Rightarrow> json result) \<Rightarrow> (moment \<Rightarrow> rat) \<Rightarrow> (nat \<Rightarrow> response result) \<Rightarrow>
   string \<Rightarrow> json list \<Rightarrow> decision \<Rightarrow> event list \<times> ending" where
  "run_choice cs validate loads clk serve BASE_URL operations d =
     (case calls_of d of
        [] \<Rightarrow> ([Said (if output_text d = [] then ''The model did not select an operation.'' else output_text d)], Finished)
      | [call] \<Rightarrow>
          (case find (\<lambda>op. py_eq (field op ''name'') (JStr (item_name call))) operations of
             None \<Rightarrow> ([], Message ''The model selected an unknown operation'')
           | Some operation \<Rightarrow>
               (case loads (item_arguments call) of
                  Inl e \<Rightarrow> ([], Raised e)
                | Inr params \<Rightarrow>
                    let run = execute cs validate clk serve BASE_URL None operation params 120
                    in ended ([Said (''The model selected: '' @ str_field operation ''name''), Printed params]
                              @ map Acted (fst run)) (snd run)))
      | _ \<Rightarrow> ([], Message ''Expected a single operation call''))"

definition llm_main ::
  "schema_check \<Rightarrow> schema_validate \<Rightarrow> (string \<Rightarrow> json result) \<Rightarrow> (moment \<Rightarrow> rat) \<Rightarrow> (nat \<Rightarrow> response result) \<Rightarrow>
   (string, string) dict \<Rightarrow> response result \<Rightarrow> (string \<Rightarrow> json list \<Rightarrow> decision result) \<Rightarrow>
   string result \<Rightarrow> string result \<Rightarrow> event list \<times> ending" where
  "llm_main cs validate loads clk serve environ answer decide task key =
     (case rbind (service_client environ None) (\<lambda>_. discover cs answer) of
        Inl e \<Rightarrow> ([], Raised e)
      | Inr operations \<Rightarrow>
          if operations = [] then ([], Message ''No operations are permitted for this token'')
          else case task of
            Inl e \<Rightarrow> ([], Raised e)
          | Inr task \<Rightarrow>
              let tools = map tool_of operations;
                  api_key = (case dget environ ''OPENAI_API_KEY'' of Some (c # k) \<Rightarrow> Inr (c # k) | _ \<Rightarrow> key)
              in (case api_key of
                    Inl e \<Rightarrow> ([], Raised e)
                  | Inr _ \<Rightarrow>
                      (case decide task tools of
                         Inl e \<Rightarrow> ([Offered task tools], Raised e)
                       | Inr d \<Rightarrow>
                           (case run_choice cs validate loads clk serve (base_url environ) operations d of
                              (events, ending) \<Rightarrow> (Offered task tools # events, ending)))))"

subsection \<open>A person chooses\<close>

text \<open>\<^verbatim>\<open>int(text)\<close>: surrounding white space, a sign, digits with single underscores between them.\<close>

definition int_space :: "char \<Rightarrow> bool" where
  "int_space c \<longleftrightarrow> (let n = (of_char c :: nat) in 9 \<le> n \<and> n \<le> 13 \<or> n = 32 \<or> n = 133 \<or> n = 160)"

definition int_rx :: rx where
  "int_rx = Seq (Alt (lit ''+'') (Alt (lit ''-'') Eps))
     (Seq (Plus (Cls [(CHR ''0'', CHR ''9'')])) (Star (Seq (lit ''_'') (Plus (Cls [(CHR ''0'', CHR ''9'')])))))"

definition py_int :: "string \<Rightarrow> int result" where
  "py_int s =
     (let t = rstrip_of int_space (dropWhile int_space s)
      in if \<not> fullmatch int_rx t then Inl (ValueError ''invalid literal for int() with base 10'')
         else rbind (py_int_digits (filter is_digit t)) (\<lambda>n. Inr (if startswith t ''-'' then - n else n)))"

fun listing :: "int \<Rightarrow> json list \<Rightarrow> event list" where
  "listing number [] = []"
| "listing number (operation # ops) =
     Listed number (str_field operation ''name'') (str_field operation ''description'') # listing (number + 1) ops"

text \<open>\<open>dispatch operation params\<close> is the call of the connector.\<close>

definition run_number ::
  "schema_check \<Rightarrow> schema_validate \<Rightarrow> (string \<Rightarrow> json result) \<Rightarrow> (moment \<Rightarrow> rat) \<Rightarrow> (nat \<Rightarrow> response result) \<Rightarrow>
   (string, string) dict \<Rightarrow> (json \<Rightarrow> json \<Rightarrow> io list \<times> json result) \<Rightarrow> json \<Rightarrow> string result \<Rightarrow> event list \<times> ending" where
  "run_number cs validate loads clk serve environ dispatch operation line =
     (case rbind line loads of
        Inl e \<Rightarrow> ([], Raised e)
      | Inr params \<Rightarrow>
          if getenv environ ''DISPATCH_SOCKET'' \<noteq> []
          then (case rbind (dispatcher_client environ None None) (\<lambda>_. Inr (dispatch operation params)) of
                  Inl e \<Rightarrow> ([], Raised e)
                | Inr (ios, r) \<Rightarrow> ended (map Dispatched ios) (rbind r (\<lambda>v. Inr (Some v))))
          else let run = execute cs validate clk serve (base_url environ) None operation params 120
               in ended (map Acted (fst run)) (snd run))"

definition discover_main ::
  "schema_check \<Rightarrow> schema_validate \<Rightarrow> (string \<Rightarrow> json result) \<Rightarrow> (moment \<Rightarrow> rat) \<Rightarrow> (nat \<Rightarrow> response result) \<Rightarrow>
   (string, string) dict \<Rightarrow> response result \<Rightarrow> (json \<Rightarrow> json \<Rightarrow> io list \<times> json result) \<Rightarrow>
   string result \<Rightarrow> string result \<Rightarrow> event list \<times> ending" where
  "discover_main cs validate loads clk serve environ answer dispatch typed line =
     (case rbind (service_client environ None) (\<lambda>_. discover cs answer) of
        Inl e \<Rightarrow> ([], Raised e)
      | Inr operations \<Rightarrow>
          if operations = [] then ([], Message ''No operations are permitted for this token'')
          else let shown = Said ''Available operations:'' # listing 1 operations
               in (case rbind typed py_int of
                     Inl e \<Rightarrow> (shown, Raised e)
                   | Inr number \<Rightarrow>
                       if \<not> (1 \<le> number \<and> number \<le> int (length operations))
                       then (shown, Message ''No such operation'')
                       else let operation = operations ! nat (number - 1)
                            in (case run_number cs validate loads clk serve environ dispatch operation line of
                                  (events, ending) \<Rightarrow>
                                    (shown @ [Said ''Parameter schema:'', Printed (field operation ''input_schema'')] @ events,
                                     ending))))"

subsection \<open>What is run\<close>

lemma execute_send:
  assumes "Send m url p t \<in> set (fst (execute cs validate clk serve B base op params timeout))"
  shows "validate_operation cs op = Inr () \<and> validate (field op ''input_schema'') params = None \<and>
    m = ''POST'' \<and> url = url_for B base (str_field op ''path'') \<and> p = params"
proof -
  have v: "validate_operation cs op = Inr ()"
    using assms by (cases "validate_operation cs op") (auto simp: execute_def)
  have w: "validate (field op ''input_schema'') params = None"
    using assms v by (cases "validate (field op ''input_schema'') params") (auto simp: execute_def)
  have "str_field op ''method'' = ''POST''"
    using v by (auto simp: validate_operation_Inr_iff str_field_def field_def)
  moreover have "\<exists>t'. Send m url p t = Send (str_field op ''method'') (url_for B base (str_field op ''path'')) params t' \<and>
      0 < t' \<and> t' \<le> 30"
    using assms v w by (intro attempt_loop_sends) (auto simp: execute_def)
  ultimately show ?thesis using v w by auto
qed

lemma ended_events: "set events \<subseteq> set (fst (ended events r)) \<and> set (fst (ended events r)) \<subseteq> set events \<union> range Printed"
  by (auto simp: ended_def split: sum.splits)

lemma run_choice_send:
  assumes "Acted (Send m url p t) \<in> set (fst (run_choice cs validate loads clk serve B operations d))"
  shows "\<exists>call op. calls_of d = [call] \<and> op \<in> set operations \<and> field op ''name'' = JStr (item_name call) \<and>
    loads (item_arguments call) = Inr p \<and> validate (field op ''input_schema'') p = None \<and>
    m = ''POST'' \<and> url = url_for B None (str_field op ''path'')"
proof (cases "calls_of d")
  case Nil
  with assms show ?thesis by (simp add: run_choice_def)
next
  case (Cons call rest)
  show ?thesis
  proof (cases rest)
    case (Cons c cs)
    with assms \<open>calls_of d = call # rest\<close> show ?thesis by (simp add: run_choice_def)
  next
    case Nil
    with Cons have call: "calls_of d = [call]" by simp
    show ?thesis
    proof (cases "find (\<lambda>op. py_eq (field op ''name'') (JStr (item_name call))) operations")
      case None
      with assms call show ?thesis by (simp add: run_choice_def)
    next
      case (Some op)
      then have op: "op \<in> set operations" "field op ''name'' = JStr (item_name call)" by (auto dest: find_SomeD)
      show ?thesis
      proof (cases "loads (item_arguments call)")
        case (Inl e)
        with assms call Some show ?thesis by (simp add: run_choice_def)
      next
        case (Inr params)
        let ?run = "execute cs validate clk serve B None op params 120"
        have "Acted (Send m url p t) \<in> set (fst (ended ([Said (''The model selected: '' @ str_field op ''name''),
            Printed params] @ map Acted (fst ?run)) (snd ?run)))"
          using assms call Some Inr by (simp add: run_choice_def Let_def)
        then have "Send m url p t \<in> set (fst ?run)"
          using ended_events [of "[Said (''The model selected: '' @ str_field op ''name''), Printed params] @ map Acted (fst ?run)"
            "snd ?run"] by auto
        from execute_send [OF this] call op Inr show ?thesis by auto
      qed
    qed
  qed
qed

lemma same_named:
  assumes "discover cs answer = Inr ops" and "op \<in> set ops" "op' \<in> set ops" "field op' ''name'' = field op ''name''"
  shows "op' = op"
proof -
  have "distinct (map (\<lambda>v. str_field v ''name'') ops)" using assms(1) unfolding discover_spec by blast
  moreover have "str_field op' ''name'' = str_field op ''name''" using assms(4) by (simp add: str_field_def)
  ultimately show ?thesis using assms(2,3) by (auto simp: distinct_map dest: inj_onD)
qed

text \<open>
  Claim C23. Whatever the model answers, the LLM client sends requests only for one published
  operation: there was exactly one function call in the answer, it names an operation that
  discovery returned, and only that one; its arguments parse and satisfy that operation's
  schema, and they are the body of the request to that operation's path. The model was offered
  one tool per published operation and nothing else.
\<close>

theorem llm_runs_published:
  assumes "llm_main cs validate loads clk serve environ answer decide task key = (events, ending)"
    and "Acted (Send m url p t) \<in> set events"
  shows "\<exists>ops request d call op. discover cs answer = Inr ops \<and> task = Inr request \<and>
    decide request (map tool_of ops) = Inr d \<and> calls_of d = [call] \<and>
    op \<in> set ops \<and> field op ''name'' = JStr (item_name call) \<and>
    (\<forall>op' \<in> set ops. field op' ''name'' = JStr (item_name call) \<longrightarrow> op' = op) \<and>
    loads (item_arguments call) = Inr p \<and> validate (field op ''input_schema'') p = None \<and>
    m = ''POST'' \<and> url = url_for (base_url environ) None (str_field op ''path'')"
proof -
  obtain ops request d evs where s: "discover cs answer = Inr ops" "task = Inr request"
      "decide request (map tool_of ops) = Inr d"
      "run_choice cs validate loads clk serve (base_url environ) ops d = (evs, ending)"
      "events = Offered request (map tool_of ops) # evs"
    using assms by (auto simp: llm_main_def Let_def result_simps split: sum.splits if_splits prod.splits)
  have "Acted (Send m url p t) \<in> set (fst (run_choice cs validate loads clk serve (base_url environ) ops d))"
    using assms(2) s(4,5) by simp
  from run_choice_send [OF this] obtain call op where c: "calls_of d = [call]" "op \<in> set ops"
      "field op ''name'' = JStr (item_name call)" "loads (item_arguments call) = Inr p"
      "validate (field op ''input_schema'') p = None" "m = ''POST''"
      "url = url_for (base_url environ) None (str_field op ''path'')" by (elim exE conjE)
  have "\<forall>op' \<in> set ops. field op' ''name'' = JStr (item_name call) \<longrightarrow> op' = op"
    using same_named [OF s(1) c(2)] c(3) by simp
  with s c show ?thesis by blast
qed

lemma listing_nth:
  "i < length ops \<Longrightarrow> Listed (k + int i) (str_field (ops ! i) ''name'') (str_field (ops ! i) ''description'') \<in> set (listing k ops)"
proof (induction ops arbitrary: k i)
  case (Cons op ops)
  then show ?case by (cases i) (auto simp: algebra_simps dest!: Cons.IH [of _ "k + 1"])
qed simp

lemma listing_quiet: "Acted a \<notin> set (listing k ops)" "Dispatched io \<notin> set (listing k ops)"
  by (induction ops arbitrary: k) auto

lemma run_number_events:
  assumes "a \<in> set (fst (run_number cs validate loads clk serve environ dispatch op line))"
    and "(\<exists>x. a = Acted x) \<or> (\<exists>io. a = Dispatched io)"
  shows "\<exists>l params. line = Inr l \<and> loads l = Inr params \<and>
    ((\<exists>x. a = Acted x \<and> getenv environ ''DISPATCH_SOCKET'' = [] \<and>
        x \<in> set (fst (execute cs validate clk serve (base_url environ) None op params 120))) \<or>
     (\<exists>io. a = Dispatched io \<and> getenv environ ''DISPATCH_SOCKET'' \<noteq> [] \<and> io \<in> set (fst (dispatch op params))))"
proof (cases "rbind line loads")
  case (Inl e)
  with assms show ?thesis by (simp add: run_number_def)
next
  case (Inr params)
  then obtain l where l: "line = Inr l" "loads l = Inr params" by (auto simp: result_simps)
  show ?thesis
  proof (cases "getenv environ ''DISPATCH_SOCKET'' = []")
    case True
    let ?run = "execute cs validate clk serve (base_url environ) None op params 120"
    have "a \<in> set (fst (ended (map Acted (fst ?run)) (snd ?run)))"
      using assms(1) Inr True by (simp add: run_number_def Let_def)
    then have "a \<in> Acted ` set (fst ?run)"
      using ended_events [of "map Acted (fst ?run)" "snd ?run"] assms(2) by auto
    with l True show ?thesis by auto
  next
    case False
    have "a \<in> Dispatched ` set (fst (dispatch op params))"
    proof (cases "dispatcher_client environ None None")
      case (Inl e)
      with assms Inr False show ?thesis by (simp add: run_number_def)
    next
      case i: (Inr c)
      obtain ios r where d: "dispatch op params = (ios, r)" by fastforce
      have "a \<in> set (fst (ended (map Dispatched ios) (rbind r (\<lambda>v. Inr (Some v)))))"
        using assms(1) Inr False i d by (simp add: run_number_def)
      then show ?thesis
        using ended_events [of "map Dispatched ios" "rbind r (\<lambda>v. Inr (Some v))"] assms(2) d by auto
    qed
    with l False show ?thesis by auto
  qed
qed

text \<open>
  The interactive client runs the operation whose number was typed: anything it sends, over
  HTTP or to the dispatcher, belongs to the published operation that it listed under exactly
  that number, between one and the number of operations, with the parameters that were typed.
  Which way it goes is decided by \<^verbatim>\<open>DISPATCH_SOCKET\<close>.
\<close>

theorem discover_runs_listed:
  assumes "discover_main cs validate loads clk serve environ answer dispatch typed line = (events, ending)"
    and "a \<in> set events" and "(\<exists>x. a = Acted x) \<or> (\<exists>io. a = Dispatched io)"
  shows "\<exists>ops s number op l params. discover cs answer = Inr ops \<and> typed = Inr s \<and> py_int s = Inr number \<and>
    1 \<le> number \<and> number \<le> int (length ops) \<and> op = ops ! nat (number - 1) \<and>
    Listed number (str_field op ''name'') (str_field op ''description'') \<in> set events \<and>
    line = Inr l \<and> loads l = Inr params \<and>
    ((\<exists>x. a = Acted x \<and> getenv environ ''DISPATCH_SOCKET'' = [] \<and>
        x \<in> set (fst (execute cs validate clk serve (base_url environ) None op params 120))) \<or>
     (\<exists>io. a = Dispatched io \<and> getenv environ ''DISPATCH_SOCKET'' \<noteq> [] \<and> io \<in> set (fst (dispatch op params))))"
proof -
  obtain ops where ops: "rbind (service_client environ None) (\<lambda>_. discover cs answer) = Inr ops" "ops \<noteq> []"
    using assms by (auto simp: discover_main_def split: sum.splits if_splits)
  let ?shown = "Said ''Available operations:'' # listing 1 ops"
  have quiet: "a \<notin> set ?shown" using assms(3) listing_quiet by auto
  obtain number where n: "rbind typed py_int = Inr number"
    using assms(1,2) ops quiet by (cases "rbind typed py_int") (auto simp: discover_main_def Let_def)
  have r: "1 \<le> number \<and> number \<le> int (length ops)"
    using assms(1,2) ops quiet n by (auto simp: discover_main_def Let_def split: if_splits)
  let ?op = "ops ! nat (number - 1)"
  obtain evs where e: "run_number cs validate loads clk serve environ dispatch ?op line = (evs, ending)"
      "events = ?shown @ [Said ''Parameter schema:'', Printed (field ?op ''input_schema'')] @ evs"
    using assms(1) ops n r by (auto simp: discover_main_def Let_def split: prod.splits)
  have "a \<in> set (fst (run_number cs validate loads clk serve environ dispatch ?op line))"
    using assms(2,3) e quiet by auto
  note run_number_events [OF this assms(3)]
  moreover have "Listed number (str_field ?op ''name'') (str_field ?op ''description'') \<in> set events"
    using listing_nth [of "nat (number - 1)" ops 1] r e(2) by auto
  moreover have "discover cs answer = Inr ops" using ops(1) by (auto simp: result_simps)
  moreover obtain s where "typed = Inr s" "py_int s = Inr number" using n by (auto simp: result_simps)
  ultimately show ?thesis using r by blast
qed

subsection \<open>Sample runs\<close>

definition sample_answer :: "response result" where
  "sample_answer = Inr \<lparr>status_code = 200, resp_json = Some (JDict [(''version'', JInt 3), (''principal_id'', JStr ''p''),
     (''client_class'', JStr ''agent''), (''limits'', JDict [(''scope'', JStr ''principal''), (''max_outstanding'', JInt 1)]),
     (''operations'', JList [sample_operation])]), retry_after = None\<rparr>"

definition sample_environ :: "(string, string) dict" where
  "sample_environ = [(''AGENT_TOKEN_1'', ''t''), (''SERVICE_URL'', ''http://h:3000/''), (''OPENAI_API_KEY'', ''k'')]"

definition sample_decide :: "string \<Rightarrow> json list \<Rightarrow> decision result" where
  "sample_decide task tools = Inr \<lparr>model_output =
     [\<lparr>item_type = ''function_call'', item_name = ''get_product'', item_arguments = ''{}''\<rparr>], output_text = []\<rparr>"

lemma sample_llm_run:
  "Acted (Send ''POST'' ''http://h:3000/product'' (JDict []) 30) \<in> set (fst (llm_main (\<lambda>_. None) (\<lambda>_ _. None)
     (\<lambda>_. Inr (JDict [])) sample_clock sample_serve sample_environ sample_answer sample_decide (Inr ''buy'') (Inl OSError)))"
  by code_simp

theorem llm_runs_published_witness:
  "\<exists>ops. discover (\<lambda>_. None) sample_answer = Inr ops \<and> (\<exists>op \<in> set ops. field op ''name'' = JStr ''get_product'')"
proof -
  obtain events ending where r: "llm_main (\<lambda>_. None) (\<lambda>_ _. None) (\<lambda>_. Inr (JDict [])) sample_clock sample_serve
      sample_environ sample_answer sample_decide (Inr ''buy'') (Inl OSError) = (events, ending)"
    by fastforce
  with sample_llm_run have "Acted (Send ''POST'' ''http://h:3000/product'' (JDict []) 30) \<in> set events" by simp
  from llm_runs_published [OF r this] show ?thesis by (auto simp: sample_decide_def calls_of_def)
qed

lemma sample_number_run:
  "Acted (Send ''POST'' ''http://h:3000/product'' (JDict []) 30) \<in> set (fst (discover_main (\<lambda>_. None) (\<lambda>_ _. None)
     (\<lambda>_. Inr (JDict [])) sample_clock sample_serve sample_environ sample_answer (\<lambda>_ _. ([], Inl OSError)) (Inr '' +1 '') (Inr ''{}'')))"
  by code_simp

theorem discover_runs_listed_witness:
  "\<exists>ops number. discover (\<lambda>_. None) sample_answer = Inr ops \<and> py_int '' +1 '' = Inr number \<and> 1 \<le> number"
proof -
  obtain events ending where r: "discover_main (\<lambda>_. None) (\<lambda>_ _. None) (\<lambda>_. Inr (JDict [])) sample_clock sample_serve
      sample_environ sample_answer (\<lambda>_ _. ([], Inl OSError)) (Inr '' +1 '') (Inr ''{}'') = (events, ending)"
    by fastforce
  with sample_number_run have s: "Acted (Send ''POST'' ''http://h:3000/product'' (JDict []) 30) \<in> set events" by simp
  have "(\<exists>x. Acted (Send ''POST'' ''http://h:3000/product'' (JDict []) 30) = Acted x) \<or>
      (\<exists>io. Acted (Send ''POST'' ''http://h:3000/product'' (JDict []) 30) = Dispatched io)" by simp
  from discover_runs_listed [OF r s this] show ?thesis by blast
qed

end
