(* ===== verification/Web_Query.thy ===== *)
theory Web_Query
  imports Url Packages
begin

text \<open>
  The query strings that the fixture services read with \<^verbatim>\<open>urllib.parse\<close>: \<^verbatim>\<open>urlparse\<close> (on top of
  \<^verbatim>\<open>urlsplit\<close>), \<^verbatim>\<open>unquote\<close> and \<^verbatim>\<open>parse_qs\<close>, and the fact that carries every property of the
  services: a query that encodes a list of fields is read back as those fields. The UTF-8 decoder
  is the parameter \<open>dec\<close>, of which only its identity on ASCII text is ever assumed.
\<close>

subsection \<open>Percent decoding\<close>

definition ascii_char :: "char \<Rightarrow> bool" where
  "ascii_char c \<longleftrightarrow> (of_char c :: nat) < 128"

definition hex_val :: "char \<Rightarrow> nat option" where
  "hex_val c =
     (let n = (of_char c :: nat)
      in if 48 \<le> n \<and> n \<le> 57 then Some (n - 48)
         else if 65 \<le> n \<and> n \<le> 70 then Some (n - 55)
         else if 97 \<le> n \<and> n \<le> 102 then Some (n - 87) else None)"

text \<open>\<^verbatim>\<open>unquote_to_bytes\<close>: two hexadecimal digits after \<^verbatim>\<open>%\<close> are a byte, any other \<^verbatim>\<open>%\<close> stands for itself.\<close>

definition escape_at :: "string \<Rightarrow> (char \<times> string) option" where
  "escape_at s =
     (case s of
        a # b # rest \<Rightarrow>
          (case (hex_val a, hex_val b) of
             (Some h, Some l) \<Rightarrow> Some (char_of (16 * h + l), rest)
           | _ \<Rightarrow> None)
      | _ \<Rightarrow> None)"

lemma escape_at_shorter: "escape_at s = Some (b, rest) \<Longrightarrow> length rest < length s"
  by (auto simp: escape_at_def split: list.splits option.splits)

function percent_bytes :: "string \<Rightarrow> string" where
  "percent_bytes [] = []"
| "percent_bytes (c # s) =
     (case (if c = CHR ''%'' then escape_at s else None) of
        Some (b, rest) \<Rightarrow> b # percent_bytes rest
      | None \<Rightarrow> c # percent_bytes s)"
  by pat_completeness auto
termination
  by (relation "measure length") (auto dest: escape_at_shorter split: if_splits)

text \<open>\<^verbatim>\<open>unquote\<close>: the ASCII runs are decoded, the other characters are kept.\<close>

function unquote_runs :: "(string \<Rightarrow> string) \<Rightarrow> string \<Rightarrow> string" where
  "unquote_runs dec [] = []"
| "unquote_runs dec (c # s) =
     (if ascii_char c
      then dec (percent_bytes (c # takeWhile ascii_char s)) @ unquote_runs dec (dropWhile ascii_char s)
      else c # unquote_runs dec s)"
  by pat_completeness auto
termination
  by (relation "measure (length \<circ> snd)") (auto simp: le_imp_less_Suc length_dropWhile_le)

definition unquote :: "(string \<Rightarrow> string) \<Rightarrow> string \<Rightarrow> string" where
  "unquote dec s = (if CHR ''%'' \<in> set s then unquote_runs dec s else s)"

subsection \<open>Query strings\<close>

definition plus_to_space :: "string \<Rightarrow> string" where
  "plus_to_space s = map (\<lambda>c. if c = CHR ''+'' then CHR '' '' else c) s"

definition query_field :: "(string \<Rightarrow> string) \<Rightarrow> bool \<Rightarrow> string \<Rightarrow> (string \<times> string) option" where
  "query_field dec keep_blank_values name_value =
     (if name_value = [] then None
      else case partition_at CHR ''='' name_value of
        (name, found, v) \<Rightarrow>
          if \<not> found \<and> \<not> keep_blank_values then None
          else if v \<noteq> [] \<or> keep_blank_values
          then Some (unquote dec (plus_to_space name), unquote dec (plus_to_space v)) else None)"

definition parse_qsl :: "(string \<Rightarrow> string) \<Rightarrow> bool \<Rightarrow> string \<Rightarrow> (string \<times> string) list" where
  "parse_qsl dec keep qs =
     (if qs = [] then [] else List.map_filter (query_field dec keep) (split_at CHR ''&'' qs))"

definition add_value :: "string \<times> string \<Rightarrow> (string, string list) dict \<Rightarrow> (string, string list) dict" where
  "add_value nv d =
     (case dget d (fst nv) of
        Some vs \<Rightarrow> dset d (fst nv) (vs @ [snd nv])
      | None \<Rightarrow> dset d (fst nv) [snd nv])"

definition parse_qs :: "(string \<Rightarrow> string) \<Rightarrow> bool \<Rightarrow> string \<Rightarrow> (string, string list) dict" where
  "parse_qs dec keep qs = fold add_value (parse_qsl dec keep qs) []"

text \<open>\<^verbatim>\<open>urlparse\<close>: the parameters after a semicolon of the last segment leave the path, for the schemes
  that have them.\<close>

definition uses_params :: "string list" where
  "uses_params = [[], ''ftp'', ''hdl'', ''prospero'', ''http'', ''https'', ''shttp'', ''rtsp'', ''rtsps'', ''rtspu'',
     ''sip'', ''sips'', ''mms'', ''sftp'', ''tel'']"

definition path_of :: "string \<Rightarrow> string" where
  "path_of url =
     (case rpartition_at CHR ''/'' url of
        (before, found, final) \<Rightarrow> (if found then before @ ''/'' else []) @ fst (partition_at CHR '';'' final))"

definition urlparse :: "(string \<Rightarrow> bool) \<Rightarrow> string \<Rightarrow> split_url result" where
  "urlparse bracket_ok raw =
     rbind (urlsplit bracket_ok raw) (\<lambda>u.
       Inr (if scheme u \<in> set uses_params \<and> CHR '';'' \<in> set (upath u) then u\<lparr>upath := path_of (upath u)\<rparr> else u))"

subsection \<open>Encodings\<close>

text \<open>\<open>encodes t s\<close>: the text \<open>t\<close> of a query stands for the bytes \<open>s\<close>; \<open>plain\<close> characters may stand for
  themselves, any byte may be escaped.\<close>

definition plain :: "char \<Rightarrow> bool" where
  "plain c \<longleftrightarrow> 32 < (of_char c :: nat) \<and> (of_char c :: nat) < 127 \<and>
     c \<notin> {CHR ''%'', CHR ''+'', CHR ''&'', CHR ''='', CHR ''#''}"

inductive encodes :: "string \<Rightarrow> string \<Rightarrow> bool" where
  encodes_Nil: "encodes [] []"
| encodes_plain: "plain c \<Longrightarrow> encodes t s \<Longrightarrow> encodes (c # t) (c # s)"
| encodes_plus: "encodes t s \<Longrightarrow> encodes (CHR ''+'' # t) (CHR '' '' # s)"
| encodes_escape: "hex_val a = Some h \<Longrightarrow> hex_val b = Some l \<Longrightarrow> encodes t s \<Longrightarrow>
    encodes (CHR ''%'' # a # b # t) (char_of (16 * h + l) # s)"

definition ascii_safe :: "(string \<Rightarrow> string) \<Rightarrow> bool" where
  "ascii_safe dec \<longleftrightarrow> (\<forall>s. (\<forall>c \<in> set s. ascii_char c) \<longrightarrow> dec s = s)"

definition field_text :: "string \<times> string \<Rightarrow> string" where
  "field_text kv = fst kv @ CHR ''='' # snd kv"

definition encodes_field :: "string \<times> string \<Rightarrow> string \<times> string \<Rightarrow> bool" where
  "encodes_field t kv \<longleftrightarrow> encodes (fst t) (fst kv) \<and> encodes (snd t) (snd kv)"

text \<open>The query \<open>q\<close> encodes the fields \<open>kvs\<close>, names and values as bytes.\<close>

definition encodes_query :: "string \<Rightarrow> (string \<times> string) list \<Rightarrow> bool" where
  "encodes_query q kvs \<longleftrightarrow> (\<exists>ts. q = join ''&'' (map field_text ts) \<and> list_all2 encodes_field ts kvs)"

definition field_values :: "(string \<Rightarrow> string) \<Rightarrow> bool \<Rightarrow> (string \<times> string) list \<Rightarrow> string \<Rightarrow> string list" where
  "field_values dec keep kvs k =
     map (dec \<circ> snd) (filter (\<lambda>kv. dec (fst kv) = k \<and> (keep \<or> snd kv \<noteq> [])) kvs)"

subsection \<open>Decoding an encoding\<close>

lemma hex_val_char: "hex_val c = Some h \<Longrightarrow> ascii_char c \<and> 32 < (of_char c :: nat) \<and> (of_char c :: nat) < 127 \<and> plain c \<and> h < 16"
  by (auto simp: hex_val_def ascii_char_def plain_def Let_def split: if_splits)

lemma plus_to_space_simps [simp]:
  "plus_to_space [] = []"
  "plus_to_space (c # s) = (if c = CHR ''+'' then CHR '' '' else c) # plus_to_space s"
  by (simp_all add: plus_to_space_def)

lemma plain_not: "plain c \<Longrightarrow> c \<noteq> CHR ''%'' \<and> c \<noteq> CHR ''+'' \<and> c \<noteq> CHR ''&'' \<and> c \<noteq> CHR ''='' \<and> c \<noteq> CHR ''#''"
  by (simp add: plain_def)

lemma percent_bytes_encodes: "encodes t s \<Longrightarrow> percent_bytes (plus_to_space t) = s"
proof (induction rule: encodes.induct)
  case (encodes_plain c t s)
  then show ?case using plain_not [of c] by simp
next
  case (encodes_escape a h b l t s)
  have "a \<noteq> CHR ''+''" "b \<noteq> CHR ''+''"
    using encodes_escape(1,2) hex_val_char plain_not by blast+
  with encodes_escape show ?case by (simp add: escape_at_def)
qed simp_all

lemma encodes_text:
  "encodes t s \<Longrightarrow> c \<in> set t \<Longrightarrow> ascii_char c \<and> 32 < (of_char c :: nat) \<and> c \<noteq> CHR ''&'' \<and> c \<noteq> CHR ''='' \<and> c \<noteq> CHR ''#''"
  by (induction rule: encodes.induct) (auto simp: plain_def ascii_char_def dest!: hex_val_char)

lemma encodes_blank: "encodes t s \<Longrightarrow> t = [] \<longleftrightarrow> s = []"
  by (auto elim: encodes.cases)

lemma encodes_unescaped: "encodes t s \<Longrightarrow> CHR ''%'' \<notin> set t \<Longrightarrow> plus_to_space t = s \<and> (\<forall>c \<in> set s. ascii_char c)"
  by (induction rule: encodes.induct) (auto simp: plain_def ascii_char_def)

lemma set_plus_to_space: "CHR ''%'' \<in> set (plus_to_space t) \<longleftrightarrow> CHR ''%'' \<in> set t"
  by (auto simp: plus_to_space_def)

lemma unquote_ascii:
  assumes "\<forall>c \<in> set s. ascii_char c" "s \<noteq> []"
  shows "unquote_runs dec s = dec (percent_bytes s)"
proof -
  obtain c t where s: "s = c # t" using assms(2) by (cases s) auto
  have tw: "takeWhile ascii_char t = t" using assms(1) s by simp
  have dw: "dropWhile ascii_char t = []" using assms(1) s by simp
  have "ascii_char c" using assms(1) s by simp
  then show ?thesis unfolding s unquote_runs.simps(2) tw dw by simp
qed

lemma unquote_encodes:
  assumes "ascii_safe dec" "encodes t s"
  shows "unquote dec (plus_to_space t) = dec s"
proof (cases "CHR ''%'' \<in> set t")
  case True
  have "\<forall>c \<in> set (plus_to_space t). ascii_char c"
    using encodes_text [OF assms(2)] by (auto simp: plus_to_space_def ascii_char_def)
  moreover have "plus_to_space t \<noteq> []" using True by (auto simp: plus_to_space_def)
  ultimately show ?thesis
    using True by (simp add: unquote_def set_plus_to_space unquote_ascii percent_bytes_encodes [OF assms(2)])
next
  case False
  then have "CHR ''%'' \<notin> set s" using encodes_unescaped [OF assms(2)] set_plus_to_space [of t] by simp
  with False encodes_unescaped [OF assms(2)] assms(1) show ?thesis
    by (simp add: unquote_def set_plus_to_space ascii_safe_def)
qed

lemma ascii_safe_Nil [simp]: "ascii_safe dec \<Longrightarrow> dec [] = []"
  by (simp add: ascii_safe_def)

lemma encodes_field_in: "list_all2 encodes_field ts kvs \<Longrightarrow> t \<in> set ts \<Longrightarrow> \<exists>kv. encodes_field t kv"
  unfolding list_all2_conv_all_nth in_set_conv_nth by blast

lemma field_text_chars:
  assumes "encodes_field t kv" "c \<in> set (field_text t)"
  shows "32 < (of_char c :: nat) \<and> c \<noteq> CHR ''&'' \<and> c \<noteq> CHR ''#''"
proof -
  have e: "encodes (fst t) (fst kv)" "encodes (snd t) (snd kv)" using assms(1) by (auto simp: encodes_field_def)
  have "c \<in> set (fst t) \<or> c = CHR ''='' \<or> c \<in> set (snd t)" using assms(2) by (auto simp: field_text_def)
  then show ?thesis using encodes_text [OF e(1)] encodes_text [OF e(2)] by auto
qed

lemma query_field_encodes:
  assumes "ascii_safe dec" "encodes_field t kv"
  shows "query_field dec keep (field_text t) = (if keep \<or> snd kv \<noteq> [] then Some (dec (fst kv), dec (snd kv)) else None)"
proof -
  have e: "encodes (fst t) (fst kv)" "encodes (snd t) (snd kv)" using assms(2) by (auto simp: encodes_field_def)
  have "CHR ''='' \<notin> set (fst t)" using encodes_text [OF e(1)] by blast
  then show ?thesis
    using unquote_encodes [OF assms(1) e(1)] unquote_encodes [OF assms(1) e(2)] encodes_blank [OF e(2)]
    by (simp add: query_field_def field_text_def partition_at_append)
qed

lemma split_at_notin: "c \<notin> set a \<Longrightarrow> split_at c a = [a]"
  by (induction a) auto

lemma split_at_append: "c \<notin> set a \<Longrightarrow> split_at c (a @ c # b) = a # split_at c b"
  by (induction a) auto

lemma split_at_join:
  "ts \<noteq> [] \<Longrightarrow> \<forall>t \<in> set ts. CHR ''&'' \<notin> set t \<Longrightarrow> split_at CHR ''&'' (join ''&'' ts) = ts"
  by (induction "''&''" ts rule: join.induct) (auto simp: split_at_notin split_at_append)

lemma map_filter_fields:
  assumes "ascii_safe dec" "list_all2 encodes_field ts kvs"
  shows "List.map_filter (query_field dec keep) (map field_text ts) =
    map (\<lambda>kv. (dec (fst kv), dec (snd kv))) (filter (\<lambda>kv. keep \<or> snd kv \<noteq> []) kvs)"
  using assms(2) by (induction rule: list_all2_induct) (auto simp: map_filter_simps query_field_encodes [OF assms(1)])

lemma parse_qsl_encodes:
  assumes "ascii_safe dec" "encodes_query q kvs"
  shows "parse_qsl dec keep q = map (\<lambda>kv. (dec (fst kv), dec (snd kv))) (filter (\<lambda>kv. keep \<or> snd kv \<noteq> []) kvs)"
proof -
  obtain ts where ts: "q = join ''&'' (map field_text ts)" "list_all2 encodes_field ts kvs"
    using assms(2) by (auto simp: encodes_query_def)
  have amp: "CHR ''&'' \<notin> set (field_text t)" if "t \<in> set ts" for t
    using encodes_field_in [OF ts(2) that] field_text_chars by blast
  show ?thesis
  proof (cases "ts = []")
    case True
    with ts show ?thesis by (simp add: parse_qsl_def)
  next
    case False
    then have "q \<noteq> []" using ts(1) by (cases ts rule: remdups_adj.cases) (auto simp: field_text_def)
    moreover have "split_at CHR ''&'' q = map field_text ts"
      unfolding ts(1) using False amp by (intro split_at_join) auto
    ultimately show ?thesis using map_filter_fields [OF assms(1) ts(2)] by (simp add: parse_qsl_def)
  qed
qed

text \<open>Grouping: a name maps to its values, in order.\<close>

definition values_of :: "(string \<times> string) list \<Rightarrow> string \<Rightarrow> string list" where
  "values_of nvs k = map snd (filter (\<lambda>nv. fst nv = k) nvs)"

lemma fold_add_value:
  "dget (fold add_value nvs d) k =
     (if values_of nvs k = [] then dget d k
      else Some ((case dget d k of Some vs \<Rightarrow> vs | None \<Rightarrow> []) @ values_of nvs k))"
  by (induction nvs arbitrary: d) (auto simp: values_of_def add_value_def dict_simps split: option.splits)

lemma dget_parse_qs:
  "dget (parse_qs dec keep q) k =
     (if values_of (parse_qsl dec keep q) k = [] then None else Some (values_of (parse_qsl dec keep q) k))"
  by (simp add: parse_qs_def fold_add_value)

lemma parse_qs_encodes:
  assumes "ascii_safe dec" "encodes_query q kvs"
  shows "dget (parse_qs dec keep q) k =
    (if field_values dec keep kvs k = [] then None else Some (field_values dec keep kvs k))"
proof -
  have "values_of (parse_qsl dec keep q) k = field_values dec keep kvs k"
    unfolding parse_qsl_encodes [OF assms]
    by (simp add: values_of_def field_values_def filter_map comp_def conj_commute)
  then show ?thesis by (simp add: dget_parse_qs)
qed

lemma encodes_query_text:
  assumes "encodes_query q kvs"
  shows "\<forall>c \<in> set q. 32 < (of_char c :: nat) \<and> c \<noteq> CHR ''#''"
proof -
  obtain ts where ts: "q = join ''&'' (map field_text ts)" "list_all2 encodes_field ts kvs"
    using assms by (auto simp: encodes_query_def)
  have j: "set (join sep ss) \<subseteq> set sep \<union> (\<Union>s \<in> set ss. set s)" for sep :: string and ss
    by (induction sep ss rule: join.induct) auto
  show ?thesis
  proof
    fix c assume c: "c \<in> set q"
    have "c = CHR ''&'' \<or> (\<exists>t \<in> set ts. c \<in> set (field_text t))"
      using subsetD [OF j c [unfolded ts(1)]] by simp
    then show "32 < (of_char c :: nat) \<and> c \<noteq> CHR ''#''"
    proof (elim disjE bexE)
      fix t assume "t \<in> set ts" "c \<in> set (field_text t)"
      then show ?thesis using encodes_field_in [OF ts(2)] field_text_chars by blast
    qed simp
  qed
qed

end
