(* ===== verification/Services.thy ===== *)
theory Services
  imports Web_Query Agent_Clients
begin

text \<open>
  The two read-only fixture services: the request handlers of \<^verbatim>\<open>examples/catalog_service.py\<close> and
  \<^verbatim>\<open>examples/support_service.py\<close>, their start, and the server class of
  \<^verbatim>\<open>examples/local_http_server.py\<close>. A handler is a function from the request target to its answer;
  the support handler also returns what it wrote to its trace.
\<close>

subsection \<open>Answers\<close>

text \<open>\<open>Answered\<close> is a response with its headers and body, \<open>Error_Page\<close> is \<^verbatim>\<open>send_error\<close>; \<open>Crashed\<close> is an
  exception that leaves the handler: the server closes the connection without an answer.\<close>

datatype served =
    Answered int "(string \<times> string) list" string
  | Error_Page int "string option"
  | Crashed exn

definition json_answer :: "int \<Rightarrow> json \<Rightarrow> served" where
  "json_answer status v =
     (case dumps (\<lambda>_. []) v of
        Inl e \<Rightarrow> Crashed e
      | Inr body \<Rightarrow>
          Answered status [(''Content-Type'', ''application/json''), (''Content-Length'', nat_str (length body))] body)"

text \<open>\<^verbatim>\<open>params[name][0]\<close>.\<close>

definition first_param :: "(string, string list) dict \<Rightarrow> string \<Rightarrow> string result" where
  "first_param params name =
     (case dget params name of
        None \<Rightarrow> Inl (KeyError name)
      | Some [] \<Rightarrow> Inl IndexError
      | Some (v # _) \<Rightarrow> Inr v)"

text \<open>\<^verbatim>\<open>params.get(name, [''])[0]\<close>.\<close>

definition param_or_blank :: "(string, string list) dict \<Rightarrow> string \<Rightarrow> string result" where
  "param_or_blank params name =
     (case dget params name of None \<Rightarrow> Inr [] | Some [] \<Rightarrow> Inl IndexError | Some (v # _) \<Rightarrow> Inr v)"

fun bad_id :: "exn \<Rightarrow> bool" where
  "bad_id (KeyError _) = True"
| "bad_id e = is_value_error e"

definition or_null :: "json option \<Rightarrow> json" where
  "or_null v = (case v of Some w \<Rightarrow> w | None \<Rightarrow> JNull)"

subsection \<open>The catalog\<close>

definition a_product :: "int \<Rightarrow> string \<Rightarrow> int \<Rightarrow> json" where
  "a_product i name price = JDict [(''id'', JInt i), (''name'', JStr name), (''price'', JInt price)]"

definition PRODUCTS :: "json list" where
  "PRODUCTS = [a_product 1 ''Black boots'' 150, a_product 2 ''Brown boots'' 180, a_product 3 ''White sneakers'' 120]"

definition catalog_GET :: "(string \<Rightarrow> bool) \<Rightarrow> (string \<Rightarrow> string) \<Rightarrow> string \<Rightarrow> served" where
  "catalog_GET bracket_ok dec target =
     (case urlparse bracket_ok target of
        Inl e \<Rightarrow> Crashed e
      | Inr url \<Rightarrow>
          if upath url = ''/products/get'' then
            (case rbind (first_param (parse_qs dec False (uquery url)) ''id'') py_int of
               Inl e \<Rightarrow> if bad_id e then Error_Page 400 (Some ''Expected integer id'') else Crashed e
             | Inr product_id \<Rightarrow>
                 json_answer 200 (JDict [(''product'',
                   or_null (find (\<lambda>item. py_eq (field item ''id'') (JInt product_id)) PRODUCTS))]))
          else if upath url \<noteq> ''/products/search'' then Error_Page 404 None
          else
            (case param_or_blank (parse_qs dec False (uquery url)) ''query'' of
               Inl e \<Rightarrow> Crashed e
             | Inr raw \<Rightarrow>
                 json_answer 200 (JDict [(''products'',
                   JList (filter (\<lambda>item. contains_text (py_lower (str_field item ''name'')) (py_lower raw)) PRODUCTS))])))"

text \<open>\<^verbatim>\<open>main\<close>: the port it listens on.\<close>

definition catalog_port :: "(string, string) dict \<Rightarrow> int result" where
  "catalog_port env = py_int (case dget env ''CATALOG_PORT'' of Some v \<Rightarrow> v | None \<Rightarrow> ''4000'')"

subsection \<open>The support service\<close>

definition ticket :: "int \<Rightarrow> string \<Rightarrow> string \<Rightarrow> string \<Rightarrow> json" where
  "ticket i subject message status =
     JDict [(''id'', JInt i), (''subject'', JStr subject), (''message'', JStr message), (''status'', JStr status)]"

text \<open>The content of \<^verbatim>\<open>examples/support_tickets.json\<close>.\<close>

definition TICKETS :: "json list" where
  "TICKETS =
     [ticket 101 ''Password reset email missing'' ''The reset link has not arrived in my inbox.'' ''open'',
      ticket 102 ''Invoice address correction'' ''Please update the address on the latest invoice.'' ''pending'',
      ticket 103 ''Password reset resolved'' ''The reset email was found in the spam folder.'' ''closed'']"

text \<open>\<^verbatim>\<open>str.casefold\<close> below code point 256: \<^verbatim>\<open>lower\<close>, with the sharp s unfolded. (The micro sign folds to a
  letter above that range, which no other character of the range does, so it stays as it is.)\<close>

definition py_casefold :: "string \<Rightarrow> string" where
  "py_casefold s = concat (map (\<lambda>c. if (of_char c :: nat) = 223 then ''ss'' else [lower_char c]) s)"

definition ticket_text :: "json \<Rightarrow> string" where
  "ticket_text t = py_casefold (str_field t ''subject'' @ '' '' @ str_field t ''message'')"

text \<open>\<open>has_header\<close> says whether the request carries an \<^verbatim>\<open>Authorization\<close> header, \<open>write_trace path line\<close> is the
  write to the trace file.\<close>

definition trace_line :: "string \<Rightarrow> bool \<Rightarrow> string result" where
  "trace_line path has_header =
     rbind (dumps (\<lambda>_. []) (JDict [(''path'', JStr path), (''authorization_present'', JBool has_header)]))
       (\<lambda>line. Inr (line @ [CHR 0x0A]))"

definition support_body :: "(string \<Rightarrow> string) \<Rightarrow> split_url \<Rightarrow> (int \<times> json) result" where
  "support_body dec url =
     (let params = parse_qs dec True (uquery url)
      in if upath url = ''/api/tickets/search'' then
           rbind (param_or_blank params ''text'') (\<lambda>raw.
             Inr (200, JDict [(''tickets'', JList (filter (\<lambda>t. contains_text (ticket_text t) (py_casefold raw)) TICKETS))]))
         else if upath url = ''/api/tickets/get'' then
           (case rbind (first_param params ''ticket_id'') py_int of
              Inl e \<Rightarrow> if bad_id e then Inr (400, JDict [(''error'', JStr ''Invalid ticket ID'')]) else Inl e
            | Inr ticket_id \<Rightarrow>
                Inr (200, JDict [(''ticket'', or_null (find (\<lambda>t. py_eq (field t ''id'') (JInt ticket_id)) TICKETS))]))
         else Inr (404, JDict [(''error'', JStr ''Not found'')]))"

definition support_GET ::
  "(string \<Rightarrow> bool) \<Rightarrow> (string \<Rightarrow> string) \<Rightarrow> (string, string) dict \<Rightarrow> (string \<Rightarrow> string \<Rightarrow> unit result) \<Rightarrow>
   bool \<Rightarrow> string \<Rightarrow> (string \<times> string) list \<times> served" where
  "support_GET bracket_ok dec env write_trace has_header target =
     (case urlsplit bracket_ok target of
        Inl e \<Rightarrow> ([], Crashed e)
      | Inr url \<Rightarrow>
          let trace = getenv env ''SUPPORT_TRACE_PATH'';
              answer = (case support_body dec url of Inl e \<Rightarrow> Crashed e | Inr (status, body) \<Rightarrow> json_answer status body)
          in if trace = [] then ([], answer)
             else (case trace_line (upath url) has_header of
                     Inl e \<Rightarrow> ([], Crashed e)
                   | Inr line \<Rightarrow>
                       (case write_trace trace line of
                          Inl e \<Rightarrow> ([], Crashed e)
                        | Inr _ \<Rightarrow> ([(trace, line)], answer))))"

definition support_port :: "(string, string) dict \<Rightarrow> int result" where
  "support_port env = py_int (case dget env ''SUPPORT_PORT'' of Some v \<Rightarrow> v | None \<Rightarrow> ''4100'')"

subsection \<open>The server\<close>

text \<open>\<^verbatim>\<open>LocalHTTPServer.server_bind\<close>: after the socket is bound to \<open>address\<close>, its name and port are the first
  two components of that address; no name is looked up.\<close>

record http_server =
  server_address :: "string \<times> int"
  server_name :: string
  server_port :: int

definition server_bind :: "(string \<times> int \<Rightarrow> (string \<times> int) result) \<Rightarrow> string \<times> int \<Rightarrow> http_server result" where
  "server_bind bind_socket address =
     rbind (bind_socket address) (\<lambda>bound.
       Inr \<lparr>server_address = bound, server_name = fst bound, server_port = snd bound\<rparr>)"

subsection \<open>Answers are always given\<close>

definition is_answer :: "served \<Rightarrow> bool" where
  "is_answer r =
     (case r of
        Answered status headers body \<Rightarrow>
          status \<in> {200, 400, 404} \<and>
          headers = [(''Content-Type'', ''application/json''), (''Content-Length'', nat_str (length body))] \<and> printable body
      | Error_Page status _ \<Rightarrow> status \<in> {400, 404}
      | Crashed _ \<Rightarrow> False)"

definition serial :: "json \<Rightarrow> bool" where
  "serial v \<longleftrightarrow> (\<exists>s. dumps (\<lambda>_. []) v = Inr s)"

lemma serial_list: "(\<And>x. x \<in> set xs \<Longrightarrow> serial x) \<Longrightarrow> serial (JList xs)"
proof -
  assume "\<And>x. x \<in> set xs \<Longrightarrow> serial x"
  then have "\<exists>ss. dumps_list (\<lambda>_. []) xs = Inr ss" by (induction xs) (force simp: serial_def)+
  then show ?thesis by (auto simp: serial_def)
qed

lemma serial_simps [simp]: "serial JNull" "serial (JBool b)" "serial (JStr s)"
  "serial (JDict [(k, v)]) \<longleftrightarrow> serial v"
  by (auto simp: serial_def result_simps)

lemma serial_fixtures: "x \<in> set PRODUCTS \<Longrightarrow> serial x" "x \<in> set TICKETS \<Longrightarrow> serial x"
proof -
  have l: "list_all (\<lambda>v. case dumps (\<lambda>_. []) v of Inr _ \<Rightarrow> True | Inl _ \<Rightarrow> False) (PRODUCTS @ TICKETS)" by code_simp
  have "serial x" if "x \<in> set PRODUCTS \<or> x \<in> set TICKETS"
  proof -
    have "case dumps (\<lambda>_. []) x of Inr _ \<Rightarrow> True | Inl _ \<Rightarrow> False"
      using l that unfolding list_all_iff set_append by blast
    then show ?thesis by (cases "dumps (\<lambda>_. []) x") (simp_all add: serial_def)
  qed
  then show "x \<in> set PRODUCTS \<Longrightarrow> serial x" "x \<in> set TICKETS \<Longrightarrow> serial x" by blast+
qed

lemma serial_or_null: "(\<And>x. x \<in> set xs \<Longrightarrow> serial x) \<Longrightarrow> serial (or_null (find p xs))"
  by (auto simp: or_null_def dest: find_SomeD split: option.splits)

lemma json_answer_is_answer: "serial v \<Longrightarrow> status \<in> {200, 400, 404} \<Longrightarrow> is_answer (json_answer status v)"
  using dumps_printable(1) [of "\<lambda>_. []"] by (auto simp: serial_def json_answer_def is_answer_def)

lemma py_int_error: "py_int s = Inl e \<Longrightarrow> is_value_error e"
  by (auto simp: py_int_def py_int_digits_def result_simps Let_def split: if_splits)

lemma parse_qs_nonempty: "dget (parse_qs dec keep q) k \<noteq> Some []"
  by (auto simp: dget_parse_qs)

lemma first_param_error: "first_param (parse_qs dec keep q) k = Inl e \<Longrightarrow> e = KeyError k"
  using parse_qs_nonempty [of dec keep q k] by (auto simp: first_param_def split: option.splits list.splits)

lemma param_or_blank_Inr: "\<exists>v. param_or_blank (parse_qs dec keep q) k = Inr v"
  using parse_qs_nonempty [of dec keep q k] by (auto simp: param_or_blank_def split: option.splits list.splits)

lemma id_error: "rbind (first_param (parse_qs dec keep q) k) py_int = Inl e \<Longrightarrow> bad_id e"
proof -
  assume "rbind (first_param (parse_qs dec keep q) k) py_int = Inl e"
  then have "e = KeyError k \<or> is_value_error e"
    by (auto simp: result_simps dest: first_param_error py_int_error)
  then show ?thesis by (cases e) auto
qed

lemma urlparse_error: "urlparse bk target = Inl e \<longleftrightarrow> urlsplit bk target = Inl e"
  by (auto simp: urlparse_def result_simps)

lemma trace_line_Inr: "\<exists>line. trace_line path h = Inr (line @ [CHR 0x0A]) \<and> printable line"
proof -
  obtain s where s: "dumps (\<lambda>_. []) (JDict [(''path'', JStr path), (''authorization_present'', JBool h)]) = Inr s"
    by simp
  then have "printable s" by (rule dumps_printable(1) [rotated]) simp
  with s show ?thesis by (simp add: trace_line_def)
qed

lemma support_body_serial: "\<exists>status v. support_body dec url = Inr (status, v) \<and> status \<in> {200, 400, 404} \<and> serial v"
proof -
  obtain raw where raw: "param_or_blank (parse_qs dec True (uquery url)) ''text'' = Inr raw"
    using param_or_blank_Inr by blast
  have l: "serial (JList (filter p TICKETS))" for p by (rule serial_list) (auto intro: serial_fixtures)
  have o: "serial (or_null (find p TICKETS))" for p by (rule serial_or_null) (rule serial_fixtures)
  show ?thesis
    using raw l o id_error [of dec True "uquery url" "''ticket_id''"]
    by (auto simp: support_body_def Let_def split: sum.splits)
qed

text \<open>
  The fixture services answer every request: whatever the request target, the only
  exception that leaves a handler is the one of \<^verbatim>\<open>urlsplit\<close> on a malformed authority (or of the trace
  file); otherwise the answer has status 200, 400 or 404, and a JSON answer declares the length of
  the printable text it sends.
\<close>

theorem fixtures_answer:
  assumes "\<And>path line. write_trace path line = Inr ()"
  shows "(\<exists>e. urlsplit bk target = Inl e \<and> catalog_GET bk dec target = Crashed e \<and>
       support_GET bk dec env write_trace has_header target = ([], Crashed e)) \<or>
    (\<exists>url. urlsplit bk target = Inr url \<and> is_answer (catalog_GET bk dec target) \<and>
       is_answer (snd (support_GET bk dec env write_trace has_header target)))"
proof (cases "urlsplit bk target")
  case (Inl e)
  then show ?thesis by (simp add: catalog_GET_def support_GET_def urlparse_def)
next
  case (Inr url)
  then obtain url' where url': "urlparse bk target = Inr url'" by (simp add: urlparse_def)
  have l: "serial (JList (filter p PRODUCTS))" for p by (rule serial_list) (auto intro: serial_fixtures)
  have o: "serial (or_null (find p PRODUCTS))" for p by (rule serial_or_null) (rule serial_fixtures)
  obtain raw where raw: "param_or_blank (parse_qs dec False (uquery url')) ''query'' = Inr raw"
    using param_or_blank_Inr by blast
  have "is_answer (catalog_GET bk dec target)"
    using url' raw l o id_error [of dec False "uquery url'" "''id''"]
    by (auto simp: catalog_GET_def is_answer_def intro!: json_answer_is_answer [unfolded is_answer_def] split: sum.splits)
  moreover have "is_answer (snd (support_GET bk dec env write_trace has_header target))"
  proof -
    obtain status v where b: "support_body dec url = Inr (status, v)" "status \<in> {200, 400, 404}" "serial v"
      using support_body_serial by blast
    obtain line where "trace_line (upath url) has_header = Inr line" using trace_line_Inr by blast
    with Inr b assms json_answer_is_answer [OF b(3,2)] show ?thesis by (simp add: support_GET_def Let_def)
  qed
  ultimately show ?thesis using Inr by blast
qed

subsection \<open>What is answered\<close>

definition target_path :: "string \<Rightarrow> bool" where
  "target_path p \<longleftrightarrow> path_text p \<and> \<not> startswith p ''//'' \<and> CHR '';'' \<notin> set p"

lemma split_scheme_path: "hd u = CHR ''/'' \<Longrightarrow> split_scheme u = ([], u)"
proof (cases rule: partition_at_cases [of "CHR '':''" u])
  case (2 a b)
  moreover assume "hd u = CHR ''/''"
  ultimately have "a = [] \<or> hd a = CHR ''/''" by (cases a) auto
  with 2 show ?thesis by (auto simp: split_scheme_def in_class_def char_in_def)
qed (simp add: split_scheme_def)

lemma urlsplit_target:
  assumes "target_path p" "encodes_query q kvs"
  shows "urlsplit bk (p @ ''?'' @ q) = Inr \<lparr>scheme = [], netloc = [], upath = p, uquery = q, ufragment = []\<rparr>"
proof -
  let ?u = "p @ ''?'' @ q"
  have p: "hd p = CHR ''/''" "p \<noteq> []" "\<forall>c \<in> set p. 32 < (of_char c :: nat) \<and> c \<noteq> CHR ''?'' \<and> c \<noteq> CHR ''#''"
    using assms(1) unfolding target_path_def path_text_def by blast+
  have q: "\<forall>c \<in> set q. 32 < (of_char c :: nat) \<and> c \<noteq> CHR ''#''" using assms(2) by (rule encodes_query_text)
  have "clean ?u = ?u"
  proof (rule clean_id)
    fix c assume "c \<in> set ?u"
    then have "c \<in> set p \<or> c = CHR ''?'' \<or> c \<in> set q" by auto
    then show "32 < (of_char c :: nat)" using p(3) q by (elim disjE) (blast, simp, blast)
  qed
  moreover have "split_scheme ?u = ([], ?u)" using p(1,2) by (intro split_scheme_path) simp
  moreover have "split_netloc ?u = ([], ?u)"
  proof -
    have "\<not> startswith ?u ''//''"
      using assms(1) p(2) by (cases p; cases "tl p") (auto simp: target_path_def startswith_def)
    then show ?thesis by (simp add: split_netloc_def)
  qed
  moreover have "split_once CHR ''#'' ?u = (?u, [])"
  proof (rule split_once_notin)
    have "CHR ''#'' \<notin> set p" "CHR ''#'' \<notin> set q" using p(3) q by blast+
    then show "CHR ''#'' \<notin> set ?u" by simp
  qed
  moreover have "split_once CHR ''?'' ?u = (p, q)"
  proof -
    have "CHR ''?'' \<notin> set p" using p(3) by blast
    from split_once_append [OF this] show ?thesis by simp
  qed
  ultimately show ?thesis by (simp add: urlsplit_def brackets_ok_def)
qed

lemma urlparse_target:
  assumes "target_path p" "encodes_query q kvs"
  shows "urlparse bk (p @ ''?'' @ q) = Inr \<lparr>scheme = [], netloc = [], upath = p, uquery = q, ufragment = []\<rparr>"
  using urlsplit_target [OF assms] assms(1) by (simp add: urlparse_def target_path_def)

lemma cut_found: "cut sep s \<noteq> None \<longleftrightarrow> (\<exists>a b. s = a @ sep @ b)"
proof (induction sep s rule: cut.induct)
  case (1 sep)
  then show ?case by simp
next
  case (2 sep c s)
  show ?case
  proof (cases "startswith (c # s) sep")
    case True
    then obtain b where "c # s = [] @ sep @ b" by (auto simp: startswith_iff)
    then have "\<exists>a b. c # s = a @ sep @ b" by blast
    moreover have "cut sep (c # s) \<noteq> None" using True by simp
    ultimately show ?thesis by blast
  next
    case False
    then have "(\<exists>a b. c # s = a @ sep @ b) \<longleftrightarrow> (\<exists>a b. s = a @ sep @ b)"
      by (metis append_Cons append_Nil list.exhaust list.inject startswith_iff)
    with 2 False show ?thesis by auto
  qed
qed

lemma contains_text_iff: "contains_text s sep \<longleftrightarrow> (\<exists>a b. s = a @ sep @ b)"
  unfolding contains_text_def by (rule cut_found)

lemma params_encoded:
  assumes "ascii_safe dec" "encodes_query q kvs"
  shows "first_param (parse_qs dec keep q) k =
      (case field_values dec keep kvs k of [] \<Rightarrow> Inl (KeyError k) | v # _ \<Rightarrow> Inr v)"
    and "param_or_blank (parse_qs dec keep q) k =
      Inr (case field_values dec keep kvs k of [] \<Rightarrow> [] | v # _ \<Rightarrow> v)"
  by (auto simp: first_param_def param_or_blank_def parse_qs_encodes [OF assms] split: list.splits)

lemma num_eq_int: "num_eq (JInt i) (JInt j) \<longleftrightarrow> i = j"
  by (simp add: num_eq_def)

text \<open>
  The catalog answers by the fields that the query encodes, however they are encoded:
  a search finds the products whose name contains the first non-blank \<^verbatim>\<open>query\<close> field regardless of
  case (all products without one), a lookup reads the first non-blank \<^verbatim>\<open>id\<close> field as an integer and
  gives the product with that number, \<^verbatim>\<open>null\<close> when there is none and 400 when it is no integer, and
  any other path is refused with 404.
\<close>

theorem catalog_answers:
  assumes "ascii_safe dec" and "target_path p" and "encodes_query q kvs"
  shows "catalog_GET bk dec (p @ ''?'' @ q) =
    (if p = ''/products/search'' then
       (let text = py_lower (case field_values dec False kvs ''query'' of [] \<Rightarrow> [] | v # _ \<Rightarrow> v)
        in json_answer 200 (JDict [(''products'',
             JList (filter (\<lambda>item. \<exists>a b. py_lower (str_field item ''name'') = a @ text @ b) PRODUCTS))]))
     else if p = ''/products/get'' then
       (case (case field_values dec False kvs ''id'' of [] \<Rightarrow> None | v # _ \<Rightarrow> Some (py_int v)) of
          Some (Inr i) \<Rightarrow> json_answer 200 (JDict [(''product'',
             if i = 1 then a_product 1 ''Black boots'' 150 else if i = 2 then a_product 2 ''Brown boots'' 180
             else if i = 3 then a_product 3 ''White sneakers'' 120 else JNull)])
        | _ \<Rightarrow> Error_Page 400 (Some ''Expected integer id''))
     else Error_Page 404 None)"
proof -
  have f: "or_null (find (\<lambda>item. py_eq (field item ''id'') (JInt i)) PRODUCTS) =
      (if i = 1 then a_product 1 ''Black boots'' 150 else if i = 2 then a_product 2 ''Brown boots'' 180
       else if i = 3 then a_product 3 ''White sneakers'' 120 else JNull)" for i
    by (simp add: PRODUCTS_def a_product_def field_def get_def or_null_def num_eq_int)
  have e: "bad_id e" if "py_int v = Inl e" for v e
    using py_int_error [OF that] by (cases e) auto
  have g: "urlparse bk (p @ ''?'' @ q) = Inr \<lparr>scheme = [], netloc = [], upath = p, uquery = q, ufragment = []\<rparr>"
    by (rule urlparse_target [OF assms(2,3)])
  consider (search) "p = ''/products/search''" | (look) "p = ''/products/get''"
    | (other) "p \<noteq> ''/products/search''" "p \<noteq> ''/products/get''" by blast
  then show ?thesis
  proof cases
    case search
    then show ?thesis unfolding catalog_GET_def g
      by (simp add: params_encoded [OF assms(1,3)] contains_text_iff Let_def del: append.simps split: list.split)
  next
    case look
    then show ?thesis unfolding catalog_GET_def g
      using e by (simp add: params_encoded [OF assms(1,3)] f split: list.split sum.split)
  next
    case other
    then show ?thesis unfolding catalog_GET_def g by simp
  qed
qed

definition ticket_found :: "string \<Rightarrow> json \<Rightarrow> bool" where
  "ticket_found text t \<longleftrightarrow>
     (\<exists>a b. py_casefold (str_field t ''subject'' @ '' '' @ str_field t ''message'') = a @ text @ b)"

lemma support_body_answers:
  assumes "ascii_safe dec" and "encodes_query q kvs" and "upath url = p" "uquery url = q"
  shows "support_body dec url = Inr
    (if p = ''/api/tickets/search'' then
       (let text = py_casefold (case field_values dec True kvs ''text'' of [] \<Rightarrow> [] | v # _ \<Rightarrow> v)
        in (200, JDict [(''tickets'', JList (filter (ticket_found text) TICKETS))]))
     else if p = ''/api/tickets/get'' then
       (case (case field_values dec True kvs ''ticket_id'' of [] \<Rightarrow> None | v # _ \<Rightarrow> Some (py_int v)) of
          Some (Inr i) \<Rightarrow> (200, JDict [(''ticket'', or_null (find (\<lambda>t. field t ''id'' = JInt i) TICKETS))])
        | _ \<Rightarrow> (400, JDict [(''error'', JStr ''Invalid ticket ID'')]))
     else (404, JDict [(''error'', JStr ''Not found'')]))"
proof -
  have f: "find (\<lambda>t. py_eq (field t ''id'') (JInt i)) TICKETS = find (\<lambda>t. field t ''id'' = JInt i) TICKETS" for i
    by (simp add: TICKETS_def ticket_def field_def get_def num_eq_int)
  have e: "bad_id e" if "py_int v = Inl e" for v e
    using py_int_error [OF that] by (cases e) auto
  have c: "contains_text (ticket_text t) s = ticket_found s t" for t s
    by (simp only: contains_text_iff ticket_text_def ticket_found_def)
  consider (search) "p = ''/api/tickets/search''" | (look) "p = ''/api/tickets/get''"
    | (other) "p \<noteq> ''/api/tickets/search''" "p \<noteq> ''/api/tickets/get''" by blast
  then show ?thesis
  proof cases
    case search
    then show ?thesis unfolding support_body_def c
      by (simp add: assms(3,4) params_encoded [OF assms(1,2)] Let_def split: list.split)
  next
    case look
    then show ?thesis unfolding support_body_def c
      using e by (simp add: assms(3,4) params_encoded [OF assms(1,2)] f split: list.split sum.split)
  next
    case other
    then show ?thesis unfolding support_body_def by (simp add: assms(3,4))
  qed
qed

text \<open>
  Claim C26. The support service answers by the fields that the query encodes, blank ones included:
  a search finds the tickets whose subject and message contain the first \<^verbatim>\<open>text\<close> field up to case
  folding, a lookup reads the first \<^verbatim>\<open>ticket_id\<close> field as an integer, and every error is a JSON
  answer. Its trace gets exactly one line per request, with the path and whether a credential came
  along, and nothing of the query.
\<close>

theorem support_answers:
  assumes "ascii_safe dec" and "target_path p" and "encodes_query q kvs" and "\<And>path line. write_trace path line = Inr ()"
  shows "support_GET bk dec env write_trace has_header (p @ ''?'' @ q) =
    (let trace = getenv env ''SUPPORT_TRACE_PATH''
     in if trace = [] then []
        else [(trace, ''{'' @ join '', '' [quote ''path'' @ '': '' @ quote p,
               quote ''authorization_present'' @ '': '' @ (if has_header then ''true'' else ''false'')] @ ''}'' @ [CHR 0x0A])],
     if p = ''/api/tickets/search'' then
       (let text = py_casefold (case field_values dec True kvs ''text'' of [] \<Rightarrow> [] | v # _ \<Rightarrow> v)
        in json_answer 200 (JDict [(''tickets'', JList (filter (ticket_found text) TICKETS))]))
     else if p = ''/api/tickets/get'' then
       (case (case field_values dec True kvs ''ticket_id'' of [] \<Rightarrow> None | v # _ \<Rightarrow> Some (py_int v)) of
          Some (Inr i) \<Rightarrow> json_answer 200 (JDict [(''ticket'', or_null (find (\<lambda>t. field t ''id'' = JInt i) TICKETS))])
        | _ \<Rightarrow> json_answer 400 (JDict [(''error'', JStr ''Invalid ticket ID'')]))
     else json_answer 404 (JDict [(''error'', JStr ''Not found'')]))"
proof -
  let ?url = "\<lparr>scheme = [], netloc = [], upath = p, uquery = q, ufragment = []\<rparr>"
  have g: "urlsplit bk (p @ ''?'' @ q) = Inr ?url" by (rule urlsplit_target [OF assms(2,3)])
  have t: "trace_line p has_header = Inr (''{'' @ join '', '' [quote ''path'' @ '': '' @ quote p,
      quote ''authorization_present'' @ '': '' @ (if has_header then ''true'' else ''false'')] @ ''}'' @ [CHR 0x0A])"
    by (simp add: trace_line_def)
  show ?thesis
    unfolding support_GET_def g Let_def sum.case split_url.select_convs t assms(4)
      support_body_answers [OF assms(1,3) split_url.select_convs(3,4)]
    by (simp del: join.simps append.simps split: option.split sum.split)
qed

subsection \<open>Sample requests\<close>

lemma ascii_safe_id: "ascii_safe (\<lambda>s. s)"
  by (simp add: ascii_safe_def)

lemma sample_query: "encodes_query ''query=B%72own'' [(''query'', ''Brown'')]"
proof -
  have r: "CHR ''r'' = char_of (16 * 7 + 2 :: nat)" by code_simp
  have "encodes ''query'' ''query''" by (intro encodes.intros) (code_simp)+
  moreover have "encodes ''B%72own'' ''Brown''"
    unfolding r by (rule encodes_plain, code_simp, rule encodes_escape, code_simp, code_simp, intro encodes.intros) (code_simp)+
  ultimately have "list_all2 encodes_field [(''query'', ''B%72own'')] [(''query'', ''Brown'')]" by (simp add: encodes_field_def)
  moreover have "''query=B%72own'' = join ''&'' (map field_text [(''query'', ''B%72own'')])" by code_simp
  ultimately show ?thesis unfolding encodes_query_def by blast
qed

theorem catalog_answers_witness:
  "catalog_GET (\<lambda>_. True) (\<lambda>s. s) (''/products/search'' @ ''?'' @ ''query=B%72own'') =
     json_answer 200 (JDict [(''products'', JList [a_product 2 ''Brown boots'' 180])])"
proof -
  have p: "target_path ''/products/search''" by code_simp
  have v: "field_values (\<lambda>s. s) False [(''query'', ''Brown'')] ''query'' = [''Brown'']" by code_simp
  have f: "filter (\<lambda>item. contains_text (py_lower (str_field item ''name'')) (py_lower ''Brown'')) PRODUCTS =
      [a_product 2 ''Brown boots'' 180]" by code_simp
  show ?thesis
    using catalog_answers [OF ascii_safe_id p sample_query, of "\<lambda>_. True"] f
    by (simp only: v list.case Let_def if_True simp_thms contains_text_iff)
qed

theorem support_answers_witness:
  "support_GET (\<lambda>_. True) (\<lambda>s. s) [] (\<lambda>_ _. Inr ()) True (''/api/tickets/get'' @ ''?'' @ ''query=B%72own'') =
     ([], json_answer 400 (JDict [(''error'', JStr ''Invalid ticket ID'')]))"
proof -
  have p: "target_path ''/api/tickets/get''" by code_simp
  have v: "field_values (\<lambda>s. s) True [(''query'', ''Brown'')] ''ticket_id'' = []" by code_simp
  have n: "''/api/tickets/get'' \<noteq> ''/api/tickets/search''" by code_simp
  have e: "getenv [] ''SUPPORT_TRACE_PATH'' = []" by code_simp
  have w: "(\<lambda>_ _. Inr ()) path line = Inr ()" for path line :: string by simp
  show ?thesis
    using support_answers [OF ascii_safe_id p sample_query w, of "\<lambda>_. True" "[]" True]
    by (simp only: v n e list.case option.case Let_def if_True if_False simp_thms)
qed

theorem fixtures_answer_witness:
  "is_answer (catalog_GET (\<lambda>_. True) (\<lambda>s. s) ''/x'')"
proof -
  have u: "urlsplit (\<lambda>_. True) ''/x'' = Inr \<lparr>scheme = [], netloc = [], upath = ''/x'', uquery = [], ufragment = []\<rparr>"
    by code_simp
  have w: "(\<lambda>_ _. Inr ()) path line = Inr ()" for path line :: string by simp
  from fixtures_answer [OF w, of "\<lambda>_. True" "''/x''" "\<lambda>s. s" "[]" False] u show ?thesis by simp
qed

end
