(* ===== verification/Owned.thy ===== *)
theory Owned
  imports Protocol
begin

text \<open>
  Programs that start processes. A \<open>task\<close> extends the history of what the run did and saw, and
  returns a value or raises; \<open>None\<close> is a task that never returns. The processes of \<^verbatim>\<open>subprocess\<close> are
  numbered by their start, and the exit code that a \<^verbatim>\<open>Popen\<close> object remembers is read off the history.

  Modelled here: \<^verbatim>\<open>child\<close> of \<^verbatim>\<open>examples/quickstart.py\<close>, \<^verbatim>\<open>free_port\<close> and \<^verbatim>\<open>until\<close> of
  \<^verbatim>\<open>examples/service_integration_demo.py\<close>, \<^verbatim>\<open>stop_process\<close> of \<^verbatim>\<open>examples/dynamic_demo.py\<close>. The laws are
  stated once for every reflexive and transitive relation of histories (locale \<open>history_rel\<close> of \<open>Owned_Props\<close>).
\<close>

subsection \<open>Histories and tasks\<close>

datatype signal = SIGTERM | SIGINT | SIGKILL

datatype deed =
    Started nat "string list" "(string, string) dict"
  | Polled nat "int option"
  | Signalled nat signal
  | Waited nat nat "int option"
  | Reaped nat int
  | Napped rat
  | Bound_port int
  | Asked "string option" string
  | Called string string json
  | Made_dir string
  | Removed_dir string
  | Saved string string
  | Copied string string
  | Ran "string list" "(string, string) dict"
  | Made_subdir string
  | Selected nat nat
  | Read_line nat
  | Closed_output nat
  | Read_errors nat
  | Did string
  | Patched string string json
  | Handed string string json json
  | Opened_log string
  | Closed_log string

type_synonym history = "deed list"
type_synonym 'a task = "history \<Rightarrow> (history \<times> 'a result) option"

definition give :: "'a result \<Rightarrow> 'a task" where
  "give r h = Some (h, r)"

definition ask :: "(history \<Rightarrow> 'a result) \<Rightarrow> 'a task" where
  "ask q h = Some (h, q h)"

definition log :: "deed \<Rightarrow> 'a result \<Rightarrow> 'a task" where
  "log d r h = Some (h @ [d], r)"

text \<open>An event inside the program: a \<^verbatim>\<open>threading.Event\<close>, a server or a pool that it drives.\<close>

abbreviation did :: "string \<Rightarrow> unit task" where
  "did what \<equiv> log (Did what) (Inr ())"

definition tbind :: "'a task \<Rightarrow> ('a \<Rightarrow> 'b task) \<Rightarrow> 'b task" where
  "tbind m f h =
     (case m h of
        None \<Rightarrow> None
      | Some (g, Inl e) \<Rightarrow> Some (g, Inl e)
      | Some (g, Inr x) \<Rightarrow> f x g)"

text \<open>\<^verbatim>\<open>try: m finally: f\<close>. An exception of \<open>f\<close> replaces the outcome of \<open>m\<close>.\<close>

definition tfinally :: "'a task \<Rightarrow> unit task \<Rightarrow> 'a task" where
  "tfinally m f h =
     (case m h of
        None \<Rightarrow> None
      | Some (g, r) \<Rightarrow>
          (case f g of
             None \<Rightarrow> None
           | Some (k, Inl e) \<Rightarrow> Some (k, Inl e)
           | Some (k, Inr _) \<Rightarrow> Some (k, r)))"

text \<open>\<^verbatim>\<open>try: m except <caught>: f\<close>.\<close>

definition texcept :: "'a task \<Rightarrow> (exn \<Rightarrow> bool) \<Rightarrow> 'a task \<Rightarrow> 'a task" where
  "texcept m caught f h =
     (case m h of
        None \<Rightarrow> None
      | Some (g, Inl e) \<Rightarrow> if caught e then f g else Some (g, Inl e)
      | Some (g, Inr x) \<Rightarrow> Some (g, Inr x))"

fun teach :: "('a \<Rightarrow> unit task) \<Rightarrow> 'a list \<Rightarrow> unit task" where
  "teach f [] = give (Inr ())"
| "teach f (x # xs) = tbind (f x) (\<lambda>_. teach f xs)"

definition check :: "bool \<Rightarrow> string \<Rightarrow> unit task" where
  "check b message = give (if b then Inr () else Inl (AssertionError message))"

subsection \<open>The machine\<close>

text \<open>What the operating system and the services answer, given the history.\<close>

record host =
  variables :: "(string, string) dict"
  interpreter :: string
  root_dir :: string
  private_dir :: "history \<Rightarrow> string"
  fresh_token :: "history \<Rightarrow> string \<Rightarrow> string"
  bind_any :: "history \<Rightarrow> int result"
  popen :: "history \<Rightarrow> string list \<Rightarrow> unit result"
  os_status :: "history \<Rightarrow> nat \<Rightarrow> int option"
  os_wait :: "history \<Rightarrow> nat \<Rightarrow> nat \<Rightarrow> int option"
  os_reap :: "history \<Rightarrow> nat \<Rightarrow> int option"
  clock :: "history \<Rightarrow> rat"
  nap :: "history \<Rightarrow> unit result"
  fetch :: "history \<Rightarrow> string option \<Rightarrow> string \<Rightarrow> response result"
  path_exists :: "history \<Rightarrow> string \<Rightarrow> bool"
  save :: "history \<Rightarrow> string \<Rightarrow> unit result"

subsection \<open>Processes\<close>

fun started_in :: "history \<Rightarrow> nat" where
  "started_in [] = 0"
| "started_in (Started p c v # h) = Suc (started_in h)"
| "started_in (_ # h) = started_in h"

text \<open>The exit code that the run has seen of a process: \<^verbatim>\<open>Popen.returncode\<close>.\<close>

fun seen_exit :: "nat \<Rightarrow> deed \<Rightarrow> int option" where
  "seen_exit p (Polled q r) = (if q = p then r else None)"
| "seen_exit p (Waited q t r) = (if q = p then r else None)"
| "seen_exit p (Reaped q c) = (if q = p then Some c else None)"
| "seen_exit p _ = None"

fun returncode :: "history \<Rightarrow> nat \<Rightarrow> int option" where
  "returncode [] p = None"
| "returncode (d # h) p = (case seen_exit p d of Some c \<Rightarrow> Some c | None \<Rightarrow> returncode h p)"

definition spawn :: "'w host_scheme \<Rightarrow> string list \<Rightarrow> (string, string) dict \<Rightarrow> nat task" where
  "spawn w command env h =
     (case popen w h command of
        Inl e \<Rightarrow> Some (h, Inl e)
      | Inr _ \<Rightarrow> Some (h @ [Started (started_in h) command env], Inr (started_in h)))"

definition poll :: "'w host_scheme \<Rightarrow> nat \<Rightarrow> int option task" where
  "poll w p h =
     (let r = (case returncode h p of Some c \<Rightarrow> Some c | None \<Rightarrow> os_status w h p)
      in Some (h @ [Polled p r], Inr r))"

text \<open>\<^verbatim>\<open>Popen.send_signal\<close> polls first and signals only a process that has not been reaped.\<close>

definition send_signal :: "'w host_scheme \<Rightarrow> nat \<Rightarrow> signal \<Rightarrow> unit task" where
  "send_signal w p s =
     tbind (poll w p) (\<lambda>r. if r = None then log (Signalled p s) (Inr ()) else give (Inr ()))"

definition TimeoutExpired :: exn where
  "TimeoutExpired = OtherError ''TimeoutExpired''"

definition wait_for :: "'w host_scheme \<Rightarrow> nat \<Rightarrow> nat \<Rightarrow> int task" where
  "wait_for w p seconds h =
     (let r = (case returncode h p of Some c \<Rightarrow> Some c | None \<Rightarrow> os_wait w h p seconds)
      in Some (h @ [Waited p seconds r], case r of Some c \<Rightarrow> Inr c | None \<Rightarrow> Inl TimeoutExpired))"

text \<open>\<^verbatim>\<open>wait()\<close> without a limit returns only when the process has ended.\<close>

definition wait_ended :: "'w host_scheme \<Rightarrow> nat \<Rightarrow> unit task" where
  "wait_ended w p h =
     (case (case returncode h p of Some c \<Rightarrow> Some c | None \<Rightarrow> os_reap w h p) of
        None \<Rightarrow> None
      | Some c \<Rightarrow> Some (h @ [Reaped p c], Inr ()))"

text \<open>The end of \<^verbatim>\<open>child\<close>, and \<^verbatim>\<open>stop_process\<close> for \<^verbatim>\<open>SIGTERM\<close>.\<close>

definition stop_child :: "'w host_scheme \<Rightarrow> signal \<Rightarrow> nat \<Rightarrow> unit task" where
  "stop_child w s p =
     tbind (poll w p) (\<lambda>r.
       if r = None then
         tbind (send_signal w p s) (\<lambda>_.
           texcept (tbind (wait_for w p 5) (\<lambda>_. give (Inr ()))) (\<lambda>e. e = TimeoutExpired)
             (tbind (send_signal w p SIGKILL) (\<lambda>_. wait_ended w p)))
       else give (Inr ()))"

definition stop_process :: "'w host_scheme \<Rightarrow> nat \<Rightarrow> unit task" where
  "stop_process w p = stop_child w SIGTERM p"

text \<open>\<^verbatim>\<open>with child(command, environment, s) as p: body\<close>; entering it on an \<^verbatim>\<open>ExitStack\<close> makes \<open>body\<close> the
  rest of the stack's block.\<close>

definition child ::
  "'w host_scheme \<Rightarrow> string list \<Rightarrow> (string, string) dict \<Rightarrow> signal \<Rightarrow> (nat \<Rightarrow> 'a task) \<Rightarrow> 'a task" where
  "child w command env s body = tbind (spawn w command env) (\<lambda>p. tfinally (body p) (stop_child w s p))"

fun children ::
  "'w host_scheme \<Rightarrow> (string list \<times> (string, string) dict) list \<Rightarrow> (nat list \<Rightarrow> 'a task) \<Rightarrow> 'a task" where
  "children w [] body = body []"
| "children w (c # cs) body = child w (fst c) (snd c) SIGTERM (\<lambda>p. children w cs (\<lambda>ps. body (p # ps)))"

subsection \<open>Ports, waiting, directories\<close>

definition free_port :: "'w host_scheme \<Rightarrow> int task" where
  "free_port w h = (case bind_any w h of Inl e \<Rightarrow> Some (h, Inl e) | Inr p \<Rightarrow> Some (h @ [Bound_port p], Inr p))"

text \<open>\<^verbatim>\<open>while len(ports) < n: ports.add(free_port())\<close>.\<close>

partial_function (option) some_ports ::
  "'w host_scheme \<Rightarrow> nat \<Rightarrow> int list \<Rightarrow> history \<Rightarrow> (history \<times> int list result) option" where
  "some_ports w n ports h =
     (if n \<le> length ports then Some (h, Inr ports)
      else case free_port w h of
             None \<Rightarrow> None
           | Some (g, r) \<Rightarrow>
               (case r of
                  Inl e \<Rightarrow> Some (g, Inl e)
                | Inr p \<Rightarrow> some_ports w n (List.insert p ports) g))"

fun any_exited :: "'w host_scheme \<Rightarrow> nat list \<Rightarrow> bool task" where
  "any_exited w [] = give (Inr False)"
| "any_exited w (p # ps) = tbind (poll w p) (\<lambda>r. if r \<noteq> None then give (Inr True) else any_exited w ps)"

definition until_caught :: "exn \<Rightarrow> bool" where
  "until_caught e \<longleftrightarrow> e = HTTPError \<or> is_os_error e"

text \<open>One round of \<^verbatim>\<open>until\<close>: the outcome that ends it, or \<open>None\<close> before the sleep.\<close>

definition until_round :: "'w host_scheme \<Rightarrow> bool task \<Rightarrow> nat list \<Rightarrow> bool task" where
  "until_round w holds ps =
     tbind (any_exited w ps) (\<lambda>gone.
       if gone then give (Inl (RuntimeError ''An owned demo process exited; inspect output logs''))
       else texcept holds until_caught (give (Inr False)))"

partial_function (option) until_loop ::
  "'w host_scheme \<Rightarrow> bool task \<Rightarrow> nat list \<Rightarrow> rat \<Rightarrow> history \<Rightarrow> (history \<times> unit result) option" where
  "until_loop w holds ps deadline h =
     (if deadline \<le> clock w h
      then Some (h, Inl (TimeoutError ''Demo startup or cleanup deadline exceeded''))
      else case until_round w holds ps h of
             None \<Rightarrow> None
           | Some (g, r) \<Rightarrow>
               (case r of
                  Inl e \<Rightarrow> Some (g, Inl e)
                | Inr held \<Rightarrow>
                    if held then Some (g, Inr ())
                    else (case nap w g of
                            Inl e \<Rightarrow> Some (g @ [Napped (3/100)], Inl e)
                          | Inr _ \<Rightarrow> until_loop w holds ps deadline (g @ [Napped (3/100)]))))"

definition until :: "'w host_scheme \<Rightarrow> bool task \<Rightarrow> nat list \<Rightarrow> unit task" where
  "until w holds ps h = until_loop w holds ps (clock w h + 10) h"

text \<open>\<^verbatim>\<open>while True: time.sleep(1)\<close>: it ends when the sleep is interrupted.\<close>

partial_function (option) sleep_forever :: "'w host_scheme \<Rightarrow> history \<Rightarrow> (history \<times> 'a result) option" where
  "sleep_forever w h =
     (case nap w h of
        Inl e \<Rightarrow> Some (h @ [Napped 1], Inl e)
      | Inr _ \<Rightarrow> sleep_forever w (h @ [Napped 1]))"

text \<open>\<^verbatim>\<open>with tempfile.TemporaryDirectory(...) as directory: body\<close>.\<close>

definition in_private_dir :: "'w host_scheme \<Rightarrow> (string \<Rightarrow> 'a task) \<Rightarrow> 'a task" where
  "in_private_dir w body h =
     (let d = private_dir w h
      in tbind (log (Made_dir d) (Inr ())) (\<lambda>_. tfinally (body d) (log (Removed_dir d) (Inr ()))) h)"

definition request_get :: "'w host_scheme \<Rightarrow> string option \<Rightarrow> string \<Rightarrow> response task" where
  "request_get w credential url h = Some (h @ [Asked credential url], fetch w h credential url)"

definition save_file :: "'w host_scheme \<Rightarrow> string \<Rightarrow> string \<Rightarrow> unit task" where
  "save_file w path content h =
     (case save w h path of Inl e \<Rightarrow> Some (h, Inl e) | Inr _ \<Rightarrow> Some (h @ [Saved path content], Inr ()))"

end
