(* ===== verification/Owned_Props.thy ===== *)
theory Owned_Props
  imports Owned
begin

text \<open>
  Laws of tasks. \<open>runs R m\<close> says that every run of \<open>m\<close> that ends relates the history it found to the
  one it left, whether it returned or raised; for a reflexive and transitive \<open>R\<close> it goes through
  every combinator (locale \<open>history_rel\<close>). Two relations instantiate it: \<open>grows ok\<close>, where each new
  deed is allowed after what came before it, and \<open>tidy\<close>, where every process started in between has
  been seen to end. Then: \<open>until\<close> ends, on every machine whose clock advances with its sleeps.
\<close>

definition runs :: "(history \<Rightarrow> history \<Rightarrow> bool) \<Rightarrow> 'a task \<Rightarrow> bool" where
  "runs R m \<longleftrightarrow> (\<forall>h g r. m h = Some (g, r) \<longrightarrow> R h g)"

lemma runsD: "runs R m \<Longrightarrow> m h = Some (g, r) \<Longrightarrow> R h g"
  by (auto simp: runs_def)

lemma runs_case_prod: "(\<And>x y. runs R (f x y)) \<Longrightarrow> runs R (case z of (x, y) \<Rightarrow> f x y)"
  by (cases z) simp

lemma runsI: "(\<And>h g r. m h = Some (g, r) \<Longrightarrow> R h g) \<Longrightarrow> runs R m"
  by (auto simp: runs_def)

locale history_rel =
  fixes R :: "history \<Rightarrow> history \<Rightarrow> bool"
  assumes refl: "R h h"
    and trans: "R h g \<Longrightarrow> R g k \<Longrightarrow> R h k"
begin

lemma runs_quiet: "runs R (give r)" "runs R (ask q)" "runs R (check b message)"
  by (auto simp: runs_def give_def ask_def check_def refl)

lemma runs_bind: "runs R m \<Longrightarrow> (\<And>x. runs R (f x)) \<Longrightarrow> runs R (tbind m f)"
  unfolding runs_def tbind_def by (fastforce split: option.splits prod.splits sum.splits intro: trans)

lemma runs_bind_known:
  "runs R m \<Longrightarrow> (\<And>x h g. m h = Some (g, Inr x) \<Longrightarrow> runs R (f x)) \<Longrightarrow> runs R (tbind m f)"
  unfolding runs_def tbind_def by (fastforce split: option.splits prod.splits sum.splits intro: trans)

lemma runs_finally: "runs R m \<Longrightarrow> runs R f \<Longrightarrow> runs R (tfinally m f)"
  unfolding runs_def tfinally_def by (fastforce split: option.splits prod.splits sum.splits intro: trans)

lemma runs_except: "runs R m \<Longrightarrow> runs R f \<Longrightarrow> runs R (texcept m caught f)"
  unfolding runs_def texcept_def by (fastforce split: option.splits prod.splits sum.splits if_splits intro: trans)

lemma runs_each: "(\<And>x. x \<in> set xs \<Longrightarrow> runs R (f x)) \<Longrightarrow> runs R (teach f xs)"
  by (induction xs) (auto intro: runs_bind runs_quiet)

lemma runs_if: "(b \<Longrightarrow> runs R m) \<Longrightarrow> (\<not> b \<Longrightarrow> runs R n) \<Longrightarrow> runs R (if b then m else n)"
  by simp

lemma runs_any_exited: "(\<And>p. runs R (poll w p)) \<Longrightarrow> runs R (any_exited w ps)"
  by (induction ps) (auto intro: runs_bind runs_quiet runs_if)

lemma runs_until_loop:
  assumes p: "\<And>p. runs R (poll w p)" and c: "runs R holds" and n: "\<And>h. R h (h @ [Napped (3/100)])"
    and r: "until_loop w holds ps deadline h = Some (g, r)"
  shows "R h g"
proof -
  have "w = w \<and> holds = holds \<longrightarrow> R h (fst (g, r))"
  proof (rule until_loop.raw_induct [where P = "\<lambda>w' holds' ps d h s. w' = w \<and> holds' = holds \<longrightarrow> R h (fst s)", OF _ r])
    fix loop w' holds' and ps :: "nat list" and d :: rat and h and s :: "history \<times> unit result"
    assume IH: "\<And>w' holds' (ps :: nat list) (d :: rat) h (s :: history \<times> unit result). loop w' holds' ps d h = Some s \<Longrightarrow> w' = w \<and> holds' = holds \<longrightarrow> R h (fst s)"
    assume eq: "(if d \<le> clock w' h
        then Some (h, Inl (TimeoutError ''Demo startup or cleanup deadline exceeded''))
        else case until_round w' holds' ps h of
               None \<Rightarrow> None
             | Some (g, Inl e) \<Rightarrow> Some (g, Inl e)
             | Some (g, Inr held) \<Rightarrow>
                 if held then Some (g, Inr ())
                 else (case nap w' g of
                         Inl e \<Rightarrow> Some (g @ [Napped (3/100)], Inl e)
                       | Inr _ \<Rightarrow> loop w' holds' ps d (g @ [Napped (3/100)]))) = Some s"
    show "w' = w \<and> holds' = holds \<longrightarrow> R h (fst s)"
    proof
      assume w: "w' = w \<and> holds' = holds"
      have round: "R h g \<and> R h (g @ [Napped (3/100)])" if "until_round w holds ps h = Some (g, x)" for g x
      proof -
        have "runs R (until_round w holds ps)"
          unfolding until_round_def by (intro runs_bind runs_any_exited runs_if runs_quiet runs_except p c)
        from runsD [OF this that] show ?thesis using n trans by blast
      qed
      show "R h (fst s)"
        using eq w by (auto simp: refl split: if_splits option.splits prod.splits sum.splits
          dest!: round IH intro: trans)
    qed
  qed
  then show ?thesis by simp
qed

lemma runs_until:
  "(\<And>p. runs R (poll w p)) \<Longrightarrow> runs R holds \<Longrightarrow> (\<And>h. R h (h @ [Napped (3/100)])) \<Longrightarrow> runs R (until w holds ps)"
  unfolding until_def by (rule runsI) (rule runs_until_loop)

lemma runs_ports:
  assumes n: "\<And>h p. R h (h @ [Bound_port p])" and r: "some_ports w n ports h = Some (g, r)"
  shows "R h g"
proof -
  have "w = w \<longrightarrow> R h (fst (g, r))"
  proof (rule some_ports.raw_induct [where P = "\<lambda>w' n ports h s. w' = w \<longrightarrow> R h (fst s)", OF _ r])
    fix loop w' and n :: nat and ports :: "int list" and h and s :: "history \<times> int list result"
    assume IH: "\<And>w' (n :: nat) (ports :: int list) h (s :: history \<times> int list result). loop w' n ports h = Some s \<Longrightarrow> w' = w \<longrightarrow> R h (fst s)"
    assume eq: "(if n \<le> length ports then Some (h, Inr ports)
        else case free_port w' h of
               None \<Rightarrow> None
             | Some (g, Inl e) \<Rightarrow> Some (g, Inl e)
             | Some (g, Inr p) \<Rightarrow> loop w' n (List.insert p ports) g) = Some s"
    have port: "R h g" if "free_port w h = Some (g, x)" for g x
      using that n by (auto simp: free_port_def refl split: sum.splits)
    show "w' = w \<longrightarrow> R h (fst s)"
      using eq by (auto simp: refl split: if_splits option.splits prod.splits sum.splits dest!: port IH intro: trans)
  qed
  then show ?thesis by simp
qed

lemma runs_some_ports: "(\<And>h p. R h (h @ [Bound_port p])) \<Longrightarrow> runs R (some_ports w n ports)"
  by (rule runsI) (rule runs_ports)

lemma runs_sleep_forever:
  assumes n: "\<And>h. R h (h @ [Napped 1])"
  shows "runs R (sleep_forever w)"
proof (rule runsI)
  fix h g r assume r: "sleep_forever w h = Some (g, r)"
  have "w = w \<longrightarrow> R h (fst (g, r))"
  proof (rule sleep_forever.raw_induct [where P = "\<lambda>w' h s. w' = w \<longrightarrow> R h (fst s)", OF _ r])
    fix loop w' h and s :: "history \<times> 'c result"
    assume IH: "\<And>w' h (s :: history \<times> 'c result). loop w' h = Some s \<Longrightarrow> w' = w \<longrightarrow> R h (fst s)"
    assume eq: "(case nap w' h of Inl e \<Rightarrow> Some (h @ [Napped 1], Inl e) | Inr _ \<Rightarrow> loop w' (h @ [Napped 1])) = Some s"
    show "w' = w \<longrightarrow> R h (fst s)"
      using eq by (auto simp: n split: sum.splits dest!: IH intro: trans [OF n])
  qed
  then show "R h g" by simp
qed

lemma runs_in_private_dir:
  "(\<And>h d. R h (h @ [Made_dir d])) \<Longrightarrow> (\<And>h d. R h (h @ [Removed_dir d])) \<Longrightarrow> (\<And>d. runs R (body d)) \<Longrightarrow>
   runs R (in_private_dir w body)"
proof (rule runsI)
  fix h g r
  assume R: "\<And>h d. R h (h @ [Made_dir d])" "\<And>h d. R h (h @ [Removed_dir d])" "\<And>d. runs R (body d)"
    and r: "in_private_dir w body h = Some (g, r)"
  have l: "runs R (log (Made_dir d) (Inr ()))" "runs R (log (Removed_dir d) (Inr ()))" for d
    using R(1,2) by (auto simp: runs_def log_def)
  have "runs R (tbind (log (Made_dir d) (Inr ())) (\<lambda>_. tfinally (body d) (log (Removed_dir d) (Inr ()))))" for d
    by (intro runs_bind runs_finally l R(3))
  from runsD [OF this r [unfolded in_private_dir_def Let_def]] show "R h g" .
qed

lemma runs_child:
  "(\<And>h. R h (h @ [Started (started_in h) command env])) \<Longrightarrow> (\<And>p. runs R (body p)) \<Longrightarrow> (\<And>p. runs R (stop_child w s p)) \<Longrightarrow>
   runs R (child w command env s body)"
  unfolding child_def
  by (intro runs_bind runs_finally) (auto simp: runs_def spawn_def refl split: sum.splits)

lemma runs_children:
  assumes "\<And>h c. c \<in> set cs \<Longrightarrow> R h (h @ [Started (started_in h) (fst c) (snd c)])" "\<And>ps. runs R (body ps)"
    "\<And>p. runs R (stop_child w SIGTERM p)"
  shows "runs R (children w cs body)"
  using assms(1,2) by (induction cs arbitrary: body) (auto intro!: runs_child assms(3))

end

subsection \<open>Deeds that are allowed\<close>

inductive grows :: "(history \<Rightarrow> deed \<Rightarrow> bool) \<Rightarrow> history \<Rightarrow> history \<Rightarrow> bool" for ok where
  stays: "grows ok h h"
| adds: "grows ok h g \<Longrightarrow> ok g d \<Longrightarrow> grows ok h (g @ [d])"

lemma grows_trans: "grows ok g k \<Longrightarrow> grows ok h g \<Longrightarrow> grows ok h k"
  by (induction rule: grows.induct) (auto intro: grows.intros)

interpretation grow: history_rel "grows ok" for ok
  by unfold_locales (auto intro: grows.stays grows_trans)

lemma grows_one: "ok h d \<Longrightarrow> grows ok h (h @ [d])"
  by (intro grows.intros)

lemma grows_extends: "grows ok h g \<Longrightarrow> \<exists>k. g = h @ k"
  by (induction rule: grows.induct) auto

lemma append_snoc_cases:
  "k @ [x] = before @ d # after \<Longrightarrow> (after = [] \<and> before = k \<and> d = x) \<or> (\<exists>after'. after = after' @ [x] \<and> k = before @ d # after')"
  by (cases after rule: rev_cases) auto

lemma grows_each: "grows ok h g \<Longrightarrow> g = h @ before @ d # after \<Longrightarrow> ok (h @ before) d"
proof (induction arbitrary: before d after rule: grows.induct)
  case (adds h g x)
  obtain k where k: "g = h @ k" using grows_extends [OF adds(1)] by blast
  with adds.prems have "k @ [x] = before @ d # after" by simp
  from append_snoc_cases [OF this] show ?case
  proof (elim disjE exE conjE)
    assume "before = k" "d = x"
    with adds(2) k show ?thesis by simp
  next
    fix after' assume "k = before @ d # after'"
    with k adds.IH show ?thesis by simp
  qed
qed simp

text \<open>Deeds of bookkeeping: what \<open>stop_child\<close>, \<open>until\<close> and the port search leave in the history.\<close>

fun quiet :: "deed \<Rightarrow> bool" where
  "quiet (Polled _ _) = True"
| "quiet (Signalled _ _) = True"
| "quiet (Waited _ _ _) = True"
| "quiet (Reaped _ _) = True"
| "quiet (Napped _) = True"
| "quiet (Bound_port _) = True"
| "quiet (Did _) = True"
| "quiet _ = False"

definition quietly :: "(history \<Rightarrow> deed \<Rightarrow> bool) \<Rightarrow> bool" where
  "quietly ok \<longleftrightarrow> (\<forall>h d. quiet d \<longrightarrow> ok h d)"

lemma grows_quiet: "quietly ok \<Longrightarrow> quiet d \<Longrightarrow> grows ok h (h @ [d])"
  by (rule grows_one) (simp add: quietly_def)

lemma grows_log: "(\<And>h. ok h d) \<Longrightarrow> runs (grows ok) (log d r)"
  using grows_one [of ok _ d] by (simp add: runs_def log_def)

lemma grows_log_quiet: "quietly ok \<Longrightarrow> quiet d \<Longrightarrow> runs (grows ok) (log d r)"
  by (rule grows_log) (simp add: quietly_def)

lemma grows_poll: "quietly ok \<Longrightarrow> runs (grows ok) (poll w p)"
  by (simp add: runs_def poll_def Let_def grows_quiet)

lemma grows_wait: "quietly ok \<Longrightarrow> runs (grows ok) (wait_for w p t)" "quietly ok \<Longrightarrow> runs (grows ok) (wait_ended w p)"
  by (simp_all add: runs_def wait_for_def wait_ended_def Let_def grows_quiet split: option.split)

lemma grows_send_signal: "quietly ok \<Longrightarrow> runs (grows ok) (send_signal w p s)"
  unfolding send_signal_def by (intro grow.runs_bind grow.runs_if grow.runs_quiet grows_poll grows_log_quiet) simp_all

lemma grows_stop_child: "quietly ok \<Longrightarrow> runs (grows ok) (stop_child w s p)"
  unfolding stop_child_def
  by (intro grow.runs_bind grow.runs_if grow.runs_quiet grow.runs_except grows_poll grows_wait grows_send_signal)

lemma grows_child:
  "quietly ok \<Longrightarrow> (\<And>h p. ok h (Started p command env)) \<Longrightarrow> (\<And>p. runs (grows ok) (body p)) \<Longrightarrow>
   runs (grows ok) (child w command env s body)"
  by (rule grow.runs_child) (rule grows_one, simp, simp, rule grows_stop_child)

lemma grows_children:
  "quietly ok \<Longrightarrow> (\<And>h p c. c \<in> set cs \<Longrightarrow> ok h (Started p (fst c) (snd c))) \<Longrightarrow> (\<And>ps. runs (grows ok) (body ps)) \<Longrightarrow>
   runs (grows ok) (children w cs body)"
  by (rule grow.runs_children) (rule grows_one, simp, simp, rule grows_stop_child)

lemma grows_until: "quietly ok \<Longrightarrow> runs (grows ok) holds \<Longrightarrow> runs (grows ok) (until w holds ps)"
  by (rule grow.runs_until) (simp_all add: grows_poll grows_quiet)

lemma grows_waits: "quietly ok \<Longrightarrow> runs (grows ok) (some_ports w n ports)" "quietly ok \<Longrightarrow> runs (grows ok) (sleep_forever w)"
  by (rule grow.runs_some_ports grow.runs_sleep_forever, simp add: grows_quiet)+

lemma grows_request_get: "(\<And>h. ok h (Asked c url)) \<Longrightarrow> runs (grows ok) (request_get w c url)"
  using grows_one [of ok _ "Asked c url"] by (simp add: runs_def request_get_def)

lemma grows_save_file: "(\<And>h. ok h (Saved path content)) \<Longrightarrow> runs (grows ok) (save_file w path content)"
  using grows_one [of ok _ "Saved path content"] by (auto simp: runs_def save_file_def grows.stays split: sum.splits)

lemmas grows_rules =
  grow.runs_bind grow.runs_if grow.runs_quiet grow.runs_except grow.runs_each grows_poll grows_wait
  grows_send_signal grows_stop_child grows_child grows_children grows_until grows_waits
  grows_log grows_request_get grows_save_file

subsection \<open>Every process is stopped\<close>

text \<open>A signal goes only to a process this run started and has not seen end.\<close>

fun signal_owned :: "history \<Rightarrow> deed \<Rightarrow> bool" where
  "signal_owned h (Signalled p s) \<longleftrightarrow> p < started_in h \<and> returncode h p = None"
| "signal_owned h d = True"

definition tidy :: "history \<Rightarrow> history \<Rightarrow> bool" where
  "tidy h g \<longleftrightarrow> grows signal_owned h g \<and> (\<forall>p. started_in h \<le> p \<and> p < started_in g \<longrightarrow> returncode g p \<noteq> None)"

lemma started_in_append: "started_in (h @ k) = started_in h + started_in k"
  by (induction h rule: started_in.induct) auto

lemma returncode_append: "returncode (h @ k) p = (case returncode h p of Some c \<Rightarrow> Some c | None \<Rightarrow> returncode k p)"
  by (induction h) (auto split: option.splits)

lemma returncode_mono: "returncode h p \<noteq> None \<Longrightarrow> grows ok h g \<Longrightarrow> returncode g p \<noteq> None"
  by (auto simp: returncode_append dest!: grows_extends)

lemma started_in_mono: "grows ok h g \<Longrightarrow> started_in h \<le> started_in g"
  by (auto simp: started_in_append dest!: grows_extends)

interpretation tidied: history_rel tidy
proof
  show "tidy h h" for h by (auto simp: tidy_def grows.stays)
  fix h g k assume a: "tidy h g" "tidy g k"
  then have "grows signal_owned h k" by (auto simp: tidy_def intro: grows_trans)
  moreover have "returncode k p \<noteq> None" if "started_in h \<le> p" "p < started_in k" for p
    using a that returncode_mono [of g p signal_owned k] by (cases "p < started_in g") (auto simp: tidy_def)
  ultimately show "tidy h k" by (simp add: tidy_def)
qed

lemma tidy_one: "signal_owned h d \<Longrightarrow> started_in [d] = 0 \<Longrightarrow> tidy h (h @ [d])"
  unfolding tidy_def by (rule conjI, rule grows_one, assumption, auto simp: started_in_append)

lemma poll_out: "poll w p h = Some (g, r) \<Longrightarrow> \<exists>c. r = Inr c \<and> g = h @ [Polled p c] \<and> returncode g p = c"
  by (auto simp: poll_def Let_def returncode_append split: option.splits)

lemma tidy_poll: "runs tidy (poll w p)"
  by (simp add: runs_def poll_def Let_def tidy_one)

lemma tidy_wait: "runs tidy (wait_for w p t)" "runs tidy (wait_ended w p)"
  by (simp_all add: runs_def wait_for_def wait_ended_def Let_def tidy_one split: option.split)

text \<open>Stopping a child ends with its exit code seen, and signals it only while it is running.\<close>

lemma tbind_Some: "tbind m f h = Some (g, r) \<longleftrightarrow>
    (\<exists>e. m h = Some (g, Inl e) \<and> r = Inl e) \<or> (\<exists>k x. m h = Some (k, Inr x) \<and> f x k = Some (g, r))"
  by (auto simp: tbind_def split: option.splits prod.splits sum.splits)

lemma tbind_cases:
  assumes "tbind m f h = Some (g, r)"
  obtains e where "m h = Some (g, Inl e)" "r = Inl e" | k x where "m h = Some (k, Inr x)" "f x k = Some (g, r)"
  using assms unfolding tbind_Some by blast

lemma send_signal_out:
  assumes "send_signal w p s h = Some (g, r)" "p < started_in h"
  shows "tidy h g \<and> r = Inr () \<and> started_in g = started_in h"
proof -
  obtain k c where k: "k = h @ [Polled p c]" "returncode k p = c" "(if c = None then log (Signalled p s) (Inr ()) else give (Inr ())) k = Some (g, r)"
    using assms(1) by (auto simp: send_signal_def tbind_Some dest!: poll_out)
  have h: "tidy h k" "started_in k = started_in h" using k(1) by (simp_all add: tidy_one started_in_append)
  show ?thesis
  proof (cases c)
    case None
    then have "g = k @ [Signalled p s]" "r = Inr ()" using k(3) by (simp_all add: log_def)
    moreover have "tidy k (k @ [Signalled p s])" using None k(2) h(2) assms(2) by (intro tidy_one) simp_all
    ultimately show ?thesis using h by (auto simp: started_in_append intro: tidied.trans)
  next
    case (Some x)
    with k(3) h show ?thesis by (simp add: give_def)
  qed
qed

lemma wait_out:
  assumes "texcept (tbind (wait_for w p t) (\<lambda>_. give (Inr ()))) (\<lambda>e. e = TimeoutExpired)
      (tbind (send_signal w p SIGKILL) (\<lambda>_. wait_ended w p)) h = Some (g, r)" "p < started_in h"
  shows "tidy h g \<and> r = Inr () \<and> returncode g p \<noteq> None"
proof -
  let ?c = "case returncode h p of Some c \<Rightarrow> Some c | None \<Rightarrow> os_wait w h p t"
  have t: "tidy h (h @ [Waited p t ?c])" by (rule tidy_one) simp_all
  show ?thesis
  proof (cases ?c)
    case (Some c)
    then have "g = h @ [Waited p t (Some c)]" "r = Inr ()"
      using assms(1) by (auto simp: texcept_def tbind_def wait_for_def give_def Let_def split: option.splits)
    then show ?thesis using t Some by (simp add: returncode_append split: option.splits)
  next
    case None
    let ?h = "h @ [Waited p t None]"
    obtain k x where k: "send_signal w p SIGKILL ?h = Some (k, x)" "tbind (give x) (\<lambda>_. wait_ended w p) k = Some (g, r)"
      using assms(1) None by (auto simp: texcept_def tbind_def wait_for_def give_def Let_def split: option.splits prod.splits sum.splits)
    from send_signal_out [OF k(1)] assms(2) have s: "tidy ?h k" "x = Inr ()" by (simp_all add: started_in_append)
    then have e: "wait_ended w p k = Some (g, r)" using k(2) by (simp add: tbind_def give_def)
    then have "r = Inr () \<and> returncode g p \<noteq> None"
      by (auto simp: wait_ended_def returncode_append split: option.splits)
    moreover have "tidy k g" using tidy_wait(2) e by (rule runsD)
    ultimately show ?thesis using t None s(1) by (auto intro: tidied.trans)
  qed
qed

lemma stop_child_out:
  assumes "stop_child w s p h = Some (g, r)" "p < started_in h"
  shows "tidy h g \<and> r = Inr () \<and> returncode g p \<noteq> None"
proof -
  let ?wait = "texcept (tbind (wait_for w p 5) (\<lambda>_. give (Inr ()))) (\<lambda>e. e = TimeoutExpired)
      (tbind (send_signal w p SIGKILL) (\<lambda>_. wait_ended w p))"
  obtain k c where k: "k = h @ [Polled p c]" "returncode k p = c"
      "(if c = None then tbind (send_signal w p s) (\<lambda>_. ?wait) else give (Inr ())) k = Some (g, r)"
    using assms(1) by (auto simp: stop_child_def tbind_Some dest!: poll_out)
  have h: "tidy h k" "started_in k = started_in h" using k(1) by (simp_all add: tidy_one started_in_append)
  show ?thesis
  proof (cases c)
    case None
    then obtain j x where j: "send_signal w p s k = Some (j, x)" "tbind (give x) (\<lambda>_. ?wait) j = Some (g, r)"
      using k(3) by (auto simp: tbind_def give_def split: option.splits prod.splits sum.splits)
    have o: "tidy k j" "x = Inr ()" "started_in j = started_in k"
      using send_signal_out [OF j(1)] h(2) assms(2) by simp_all
    then have "?wait j = Some (g, r)" using j(2) by (simp add: tbind_def give_def)
    from wait_out [OF this] o h assms(2) show ?thesis by (auto intro: tidied.trans)
  next
    case (Some x)
    with k h show ?thesis by (simp add: give_def)
  qed
qed

text \<open>A process is stopped however the block that owns it ends, when the block's end sees it ended.\<close>

definition ends :: "(nat \<Rightarrow> unit task) \<Rightarrow> bool" where
  "ends fin \<longleftrightarrow> (\<forall>p h g r. fin p h = Some (g, r) \<longrightarrow> p < started_in h \<longrightarrow> tidy h g \<and> returncode g p \<noteq> None)"

lemma ends_stop_child: "ends (stop_child w s)"
  using stop_child_out unfolding ends_def by blast

lemma ends_then:
  assumes "ends fin" "\<And>p. runs tidy (m p)"
  shows "ends (\<lambda>p. tbind (fin p) (\<lambda>_. m p))"
  unfolding ends_def
proof (intro allI impI)
  fix p h g r assume r: "tbind (fin p) (\<lambda>_. m p) h = Some (g, r)" and p: "p < started_in h"
  from r show "tidy h g \<and> returncode g p \<noteq> None"
  proof (cases rule: tbind_cases)
    case (1 e)
    with assms(1) p show ?thesis unfolding ends_def by blast
  next
    case (2 k x)
    have k: "tidy h k" "returncode k p \<noteq> None" using assms(1) 2(1) p unfolding ends_def by blast+
    have "tidy k g" using assms(2) 2(2) by (rule runsD)
    with k show ?thesis using returncode_mono unfolding tidy_def by (meson tidied.trans tidy_def)
  qed
qed

text \<open>A block that also signals the process it owns is tidy from there on.\<close>

definition tidy_from :: "nat \<Rightarrow> history \<Rightarrow> history \<Rightarrow> bool" where
  "tidy_from p h g \<longleftrightarrow> (p < started_in h \<longrightarrow> tidy h g)"

interpretation owned: history_rel "tidy_from p" for p
proof
  show "tidy_from p h h" for h by (simp add: tidy_from_def tidied.refl)
  show "tidy_from p h k" if "tidy_from p h g" "tidy_from p g k" for h g k
    using that started_in_mono [of signal_owned h g] unfolding tidy_from_def tidy_def
    by (meson less_le_trans tidied.trans tidy_def)
qed

lemma tidy_from_tidy: "runs tidy m \<Longrightarrow> runs (tidy_from p) m"
  by (simp add: runs_def tidy_from_def)

lemma tidy_from_signal: "runs (tidy_from p) (send_signal w p s)"
  using send_signal_out unfolding runs_def tidy_from_def by blast

lemma tidy_owned:
  assumes "\<And>p. runs (tidy_from p) (body p)" "ends fin"
  shows "runs tidy (tbind (spawn w command env) (\<lambda>p. tfinally (body p) (fin p)))"
proof (rule runsI)
  fix h g r assume c: "tbind (spawn w command env) (\<lambda>p. tfinally (body p) (fin p)) h = Some (g, r)"
  let ?p = "started_in h" and ?h = "h @ [Started (started_in h) command env]"
  have p: "?p < started_in ?h" by (simp add: started_in_append)
  show "tidy h g"
  proof (cases "popen w h command")
    case (Inl e)
    with c show ?thesis by (simp add: tbind_def spawn_def tidied.refl)
  next
    case (Inr u)
    obtain k x j y where b: "body ?p ?h = Some (k, x)" "fin ?p k = Some (j, y)" "g = j"
      using c Inr by (auto simp: tbind_def spawn_def tfinally_def split: option.splits prod.splits sum.splits)
    have t: "tidy ?h k" using runsD [OF assms(1) b(1)] p by (simp add: tidy_from_def)
    then have "?p < started_in k" using p started_in_mono unfolding tidy_def by (meson less_le_trans)
    then have o: "tidy k g" "returncode g ?p \<noteq> None" using assms(2) b(2,3) unfolding ends_def by blast+
    have l: "tidy ?h g" using t o(1) by (rule tidied.trans)
    have "returncode g q \<noteq> None" if "?p \<le> q" "q < started_in g" for q
    proof (cases "q = ?p")
      case False
      with that have "started_in ?h \<le> q" by (simp add: started_in_append)
      with l that(2) show ?thesis by (simp add: tidy_def)
    qed (use o(2) in simp)
    moreover have "grows signal_owned h g"
      using l grows_one [of signal_owned h "Started ?p command env"] by (auto simp: tidy_def intro: grows_trans)
    ultimately show ?thesis by (simp add: tidy_def)
  qed
qed

lemma tidy_child: "(\<And>p. runs tidy (body p)) \<Longrightarrow> runs tidy (child w command env s body)"
  unfolding child_def by (rule tidy_owned [OF _ ends_stop_child]) (rule tidy_from_tidy)

lemma tidy_children: "(\<And>ps. runs tidy (body ps)) \<Longrightarrow> runs tidy (children w cs body)"
  by (induction cs arbitrary: body) (auto intro!: tidy_child)

lemma tidy_log: "signal_owned [] d \<Longrightarrow> started_in [d] = 0 \<Longrightarrow> runs tidy (log d r)"
  by (cases d) (simp_all add: runs_def log_def tidy_one)

lemma tidy_until: "runs tidy holds \<Longrightarrow> runs tidy (until w holds ps)"
  by (rule tidied.runs_until) (simp_all add: tidy_poll tidy_one)

lemma tidy_waits: "runs tidy (some_ports w n ports)" "runs tidy (sleep_forever w)"
  by (rule tidied.runs_some_ports tidied.runs_sleep_forever, simp add: tidy_one)+

lemma tidy_in_private_dir: "(\<And>d. runs tidy (body d)) \<Longrightarrow> runs tidy (in_private_dir w body)"
  by (rule tidied.runs_in_private_dir) (simp_all add: tidy_one)

lemma tidy_request_get: "runs tidy (request_get w c url)"
  by (simp add: runs_def request_get_def tidy_one)

lemma tidy_save_file: "runs tidy (save_file w path content)"
  by (auto simp: runs_def save_file_def tidied.refl tidy_one split: sum.splits)

lemmas tidy_rules =
  tidied.runs_bind tidied.runs_if tidied.runs_quiet tidied.runs_except tidied.runs_each tidy_poll tidy_wait
  tidy_child tidy_children tidy_until tidy_waits tidy_in_private_dir tidy_log tidy_request_get tidy_save_file

subsection \<open>Waiting ends\<close>

fun naps :: "history \<Rightarrow> nat" where
  "naps [] = 0"
| "naps (Napped t # h) = Suc (naps h)"
| "naps (_ # h) = naps h"

lemma naps_append: "naps (h @ k) = naps h + naps k"
  by (induction h rule: naps.induct) auto

text \<open>The clock never goes back, and a sleep lasts at least as long as it was asked to.\<close>

definition steady_clock :: "'w host_scheme \<Rightarrow> bool" where
  "steady_clock w \<longleftrightarrow> (\<forall>h k. clock w h \<le> clock w (h @ k)) \<and> (\<forall>h t. clock w h + t \<le> clock w (h @ [Napped t]))"

text \<open>A condition that comes back and does not sleep.\<close>

definition prompt :: "'a task \<Rightarrow> bool" where
  "prompt m \<longleftrightarrow> (\<forall>h. \<exists>k r. m h = Some (h @ k, r) \<and> naps k = 0)"

lemma promptE:
  assumes "prompt m" obtains k r where "m h = Some (h @ k, r)" "naps k = 0"
  using assms unfolding prompt_def by blast

lemma prompt_give: "prompt (give r)"
  unfolding prompt_def give_def by (intro allI exI [of _ "[]"]) simp

lemma prompt_poll: "prompt (poll w p)"
  by (simp add: prompt_def poll_def Let_def)

lemma prompt_bind:
  assumes m: "prompt m" and f: "\<And>x. prompt (f x)" shows "prompt (tbind m f)"
  unfolding prompt_def
proof
  fix h
  obtain k r where k: "m h = Some (h @ k, r)" "naps k = 0" by (rule promptE [OF m])
  show "\<exists>k r. tbind m f h = Some (h @ k, r) \<and> naps k = 0"
  proof (cases r)
    case (Inl e)
    with k show ?thesis by (simp add: tbind_def)
  next
    case (Inr x)
    obtain j y where "f x (h @ k) = Some ((h @ k) @ j, y)" "naps j = 0" by (rule promptE [OF f])
    with k Inr show ?thesis by (intro exI [of _ "k @ j"] exI [of _ y]) (simp add: tbind_def naps_append)
  qed
qed

lemma prompt_except: "prompt m \<Longrightarrow> prompt (texcept m caught (give r))"
  unfolding prompt_def
proof
  fix h assume "\<forall>h. \<exists>k r. m h = Some (h @ k, r) \<and> naps k = 0"
  then obtain k r' where "m h = Some (h @ k, r')" "naps k = 0" by blast
  then show "\<exists>k r''. texcept m caught (give r) h = Some (h @ k, r'') \<and> naps k = 0"
    by (cases r') (auto simp: texcept_def give_def)
qed

lemma prompt_any_exited: "prompt (any_exited w ps)"
  by (induction ps) (auto intro!: prompt_give prompt_bind prompt_poll)

lemma prompt_until_round: "prompt holds \<Longrightarrow> prompt (until_round w holds ps)"
  unfolding until_round_def by (intro prompt_bind prompt_any_exited) (auto intro!: prompt_give prompt_except)

lemma until_loop_returns:
  assumes w: "steady_clock w" and c: "prompt holds"
  shows "deadline - clock w h \<le> of_nat n * (3/100) \<Longrightarrow>
    \<exists>k r. until_loop w holds ps deadline h = Some (h @ k, r) \<and> naps k \<le> n"
proof (induction n arbitrary: h)
  case 0
  then show ?case by (subst until_loop.simps) (auto intro: exI [of _ "[]"])
next
  case (Suc n)
  show ?case
  proof (cases "deadline \<le> clock w h")
    case True
    then show ?thesis by (subst until_loop.simps) (auto intro: exI [of _ "[]"])
  next
    case False
    obtain k r where k: "until_round w holds ps h = Some (h @ k, r)" "naps k = 0"
      by (rule promptE [OF prompt_until_round [OF c]])
    let ?g = "h @ k @ [Napped (3/100)]"
    have "clock w h + 3/100 \<le> clock w ?g"
    proof -
      have "clock w h \<le> clock w (h @ k)" "clock w (h @ k) + 3/100 \<le> clock w ((h @ k) @ [Napped (3/100)])"
        using w unfolding steady_clock_def by blast+
      then show ?thesis by simp
    qed
    then have "deadline - clock w ?g \<le> of_nat n * (3/100)" using Suc.prems by (simp add: algebra_simps)
    then obtain j y where j: "until_loop w holds ps deadline ?g = Some (?g @ j, y)" "naps j \<le> n" using Suc.IH by blast
    show ?thesis
    proof (cases "r = Inr False \<and> (\<exists>u. nap w (h @ k) = Inr u)")
      case True
      then have "until_loop w holds ps deadline h = Some (?g @ j, y)"
        using k j False by (subst until_loop.simps) auto
      with j k show ?thesis
        by (intro exI [of _ "k @ [Napped (3/100)] @ j"] exI [of _ y]) (simp add: naps_append)
    next
      case F: False
      show ?thesis
      proof (cases "r = Inr False")
        case True
        with F obtain e where "nap w (h @ k) = Inl e" by (cases "nap w (h @ k)") auto
        then have "until_loop w holds ps deadline h = Some (h @ (k @ [Napped (3/100)]), Inl e)"
          using k True False by (subst until_loop.simps) simp
        with k show ?thesis by (intro exI [of _ "k @ [Napped (3/100)]"] exI) (auto simp: naps_append)
      next
        case False
        then have "\<exists>s. until_loop w holds ps deadline h = Some (h @ k, s)"
          using k \<open>\<not> deadline \<le> clock w h\<close> by (subst until_loop.simps) (cases r; auto)
        with k show ?thesis by force
      qed
    qed
  qed
qed

text \<open>
  Claim C33. Waiting for a condition ends: on any machine whose clock advances at least by the
  requested sleeps, and with a condition that comes back, \<^verbatim>\<open>until\<close> returns or raises after at most 334
  sleeps (ten seconds in steps of three hundredths).
\<close>

theorem until_ends:
  assumes "steady_clock w" and "prompt holds"
  shows "\<exists>k r. until w holds ps h = Some (h @ k, r) \<and> naps k \<le> 334"
  unfolding until_def using assms by (rule until_loop_returns) simp

text \<open>A machine on which only sleeping takes time, and a condition that never holds.\<close>

fun elapsed :: "history \<Rightarrow> rat" where
  "elapsed [] = 0"
| "elapsed (Napped t # h) = max 0 t + elapsed h"
| "elapsed (_ # h) = elapsed h"

definition waiting_host :: host where
  "waiting_host =
     \<lparr>variables = [], interpreter = [], root_dir = [], private_dir = (\<lambda>_. []), fresh_token = (\<lambda>_ _. []),
      bind_any = (\<lambda>_. Inl OSError), popen = (\<lambda>_ _. Inl OSError), os_status = (\<lambda>_ _. None), os_wait = (\<lambda>_ _ _. None),
      os_reap = (\<lambda>_ _. None), clock = elapsed, nap = (\<lambda>_. Inr ()), fetch = (\<lambda>_ _ _. Inl HTTPError),
      path_exists = (\<lambda>_ _. False), save = (\<lambda>_ _. Inr ())\<rparr>"

lemma elapsed_append: "elapsed (h @ k) = elapsed h + elapsed k" "0 \<le> elapsed h"
  by (induction h rule: elapsed.induct) auto

theorem until_ends_witness:
  "\<exists>k r. until waiting_host (ask (\<lambda>h. Inr (path_exists waiting_host h ''s''))) [] [] = Some ([] @ k, r) \<and> naps k \<le> 334"
proof (rule until_ends)
  show "steady_clock waiting_host"
    by (auto simp: steady_clock_def waiting_host_def elapsed_append)
  show "prompt (ask (\<lambda>h. Inr (path_exists waiting_host h ''s'')))"
    unfolding prompt_def ask_def by (intro allI exI [of _ "[]"]) simp
qed

text \<open>What it means when \<^verbatim>\<open>until\<close> returns: the condition held, and no process given was gone.\<close>

lemma until_holds:
  assumes "until w holds ps h = Some (g, Inr ())"
  shows "\<exists>k. holds k = Some (g, Inr True)"
proof -
  let ?P = "\<lambda>w' holds' (ps :: nat list) (d :: rat) (h :: history) (s :: history \<times> unit result).
    snd s = Inr () \<longrightarrow> (\<exists>k. until_round w' holds' ps k = Some (fst s, Inr True))"
  have "?P w holds ps (clock w h + 10) h (g, Inr ())"
  proof (rule until_loop.raw_induct [where P = ?P, OF _ assms [unfolded until_def]])
    fix loop w' holds' and ps :: "nat list" and d :: rat and h and s :: "history \<times> unit result"
    assume IH: "\<And>w' holds' (ps :: nat list) (d :: rat) h (s :: history \<times> unit result). loop w' holds' ps d h = Some s \<Longrightarrow> ?P w' holds' ps d h s"
    assume eq: "(if d \<le> clock w' h
        then Some (h, Inl (TimeoutError ''Demo startup or cleanup deadline exceeded''))
        else case until_round w' holds' ps h of
               None \<Rightarrow> None
             | Some (g, Inl e) \<Rightarrow> Some (g, Inl e)
             | Some (g, Inr held) \<Rightarrow>
                 if held then Some (g, Inr ())
                 else (case nap w' g of
                         Inl e \<Rightarrow> Some (g @ [Napped (3/100)], Inl e)
                       | Inr _ \<Rightarrow> loop w' holds' ps d (g @ [Napped (3/100)]))) = Some s"
    show "?P w' holds' ps d h s"
      using eq by (auto split: if_splits option.splits prod.splits sum.splits dest!: IH)
  qed
  then obtain k where "until_round w holds ps k = Some (g, Inr True)" by auto
  then show ?thesis
    by (auto simp: until_round_def tbind_Some texcept_def give_def split: if_splits option.splits prod.splits sum.splits)
qed

lemma in_private_dir_out:
  assumes "in_private_dir w body h = Some (g, r)"
  shows "\<exists>k. body (private_dir w h) (h @ [Made_dir (private_dir w h)]) = Some (k, r) \<and> g = k @ [Removed_dir (private_dir w h)]"
  using assms by (auto simp: in_private_dir_def Let_def tbind_def tfinally_def log_def split: option.splits prod.splits)

lemma grows_set: "grows (\<lambda>_. P) h g \<Longrightarrow> \<exists>k. g = h @ k \<and> (\<forall>d \<in> set k. P d)"
  by (induction rule: grows.induct) auto

text \<open>Results of combinations, and the deeds of a block without directories of its own.\<close>

lemma bind_Inr: "tbind m f h = Some (g, Inr y) \<longleftrightarrow> (\<exists>k x. m h = Some (k, Inr x) \<and> f x k = Some (g, Inr y))"
  by (auto simp: tbind_Some)

lemma check_Inr: "check b m h = Some (g, Inr u) \<longleftrightarrow> b \<and> g = h"
  by (auto simp: check_def give_def)

lemma give_Inr: "give r h = Some (g, Inr x) \<longleftrightarrow> r = Inr x \<and> g = h"
  by (auto simp: give_def)

lemma give_cases:
  assumes "tbind (give s) m h = Some (g, r)"
  obtains e where "s = Inl e" "g = h" "r = Inl e" | x where "s = Inr x" "m x h = Some (g, r)"
  using assms by (cases s) (auto simp: tbind_def give_def)

lemma ask_bind: "tbind (ask q) m h = (case q h of Inl e \<Rightarrow> Some (h, Inl e) | Inr x \<Rightarrow> m x h)"
  by (simp add: tbind_def ask_def split: sum.split)

lemma bind_give: "tbind (give r) f h = (case r of Inl e \<Rightarrow> Some (h, Inl e) | Inr x \<Rightarrow> f x h)"
  by (simp add: tbind_def give_def split: sum.split)

lemma bind_known: "m h = Some (k, Inr x) \<Longrightarrow> tbind m f h = f x k"
  by (simp add: tbind_def)

lemma check_bind: "tbind (check b m) f h = (if b then f () h else Some (h, Inl (AssertionError m)))"
  by (simp add: tbind_def check_def give_def)

lemma log_bind: "tbind (log d (Inr x)) f h = f x (h @ [d])"
  by (simp add: tbind_def log_def)

lemma grows_permitted: "runs (grows (\<lambda>_. P)) m \<Longrightarrow> m h = Some (g, r) \<Longrightarrow> \<exists>k. g = h @ k \<and> (\<forall>x \<in> set k. P x)"
  by (drule runsD, assumption, drule grows_set) blast

lemma extends_stop_child: "stop_child w s p h = Some (g, r) \<Longrightarrow> \<exists>k. g = h @ k"
proof -
  assume "stop_child w s p h = Some (g, r)"
  moreover have "runs (grows (\<lambda>_ _. True)) (stop_child w s p)" by (rule grows_stop_child) (simp add: quietly_def)
  ultimately show ?thesis by (blast dest: runsD grows_extends)
qed

end
