(* ===== verification/Quickstart.thy ===== *)
theory Quickstart
  imports Owned_Props Agent_Clients Conformance Jobs
begin

text \<open>
  \<^verbatim>\<open>examples/quickstart.py\<close>, the private demonstration of a first call and three dispatched clients, and
  \<^verbatim>\<open>examples/setup_demo.py\<close>, whose token names it uses. The gateway, the dispatcher and the clients are
  processes; what they answer is the \<open>demo_host\<close>.

  Shown: every process is stopped on every path; credentials and settings reach the processes and
  requests that need them and no others; and what a returning run has checked.
\<close>

record demo_host = host +
  schemas :: schema_check
  validator :: schema_validate
  call_clock :: "history \<Rightarrow> moment \<Rightarrow> rat"
  call_answers :: "history \<Rightarrow> nat \<Rightarrow> response result"

subsection \<open>setup_demo.py\<close>

definition TOKENS :: "string list" where
  "TOKENS = [''AGENT_TOKEN_1'', ''AGENT_TOKEN_2'', ''PRODUCT_ONLY_TOKEN'', ''INTERACTIVE_TOKEN'', ''OTHER_AGENT_TOKEN'', ''ADMIN_TOKEN'']"

definition FileExistsError :: exn where
  "FileExistsError = OtherError ''FileExistsError''"

definition export_line :: "string \<Rightarrow> string \<Rightarrow> string" where
  "export_line name v = ''export '' @ name @ ''='' @ v @ [CHR 0x0A]"

definition new_tokens :: "'w host_scheme \<Rightarrow> (string, string) dict task" where
  "new_tokens w = ask (\<lambda>h. Inr (map (\<lambda>name. (name, fresh_token w h name)) TOKENS))"

definition setup_main :: "'w host_scheme \<Rightarrow> unit task" where
  "setup_main w =
     texcept (tbind (new_tokens w) (\<lambda>tokens.
         save_file w (child_path (root_dir w) ''.env.demo'') (concat (map (\<lambda>(name, token). export_line name token) tokens))))
       (\<lambda>e. e = FileExistsError)
       (give (Inl (OtherError ''SystemExit: .env.demo already exists; credentials were not changed'')))"

subsection \<open>Environments and commands\<close>

text \<open>\<^verbatim>\<open>d | e\<close>.\<close>

definition merge :: "(string, string) dict \<Rightarrow> (string, string) dict \<Rightarrow> (string, string) dict" where
  "merge d e = fold (\<lambda>(k, v) d. dset d k v) e d"

definition base_env :: "'w host_scheme \<Rightarrow> (string, string) dict result" where
  "base_env w =
     (case dget (variables w) ''PATH'' of
        None \<Rightarrow> Inl (KeyError ''PATH'')
      | Some path \<Rightarrow> Inr [(''PATH'', path), (''PYTHONUNBUFFERED'', ''1'')])"

definition token :: "(string, string) dict \<Rightarrow> string \<Rightarrow> string" where
  "token tokens name = (case dget tokens name of Some t \<Rightarrow> t | None \<Rightarrow> [])"

definition catalog_env :: "(string, string) dict \<Rightarrow> string \<Rightarrow> (string, string) dict" where
  "catalog_env base catalog_port = merge base [(''CATALOG_PORT'', catalog_port)]"

definition gateway_env ::
  "(string, string) dict \<Rightarrow> (string, string) dict \<Rightarrow> string \<Rightarrow> string \<Rightarrow> (string, string) dict" where
  "gateway_env base tokens catalog_port gateway_port =
     merge (merge base tokens) [(''CATALOG_PORT'', catalog_port), (''GATEWAY_PORT'', gateway_port)]"

definition dispatcher_env ::
  "(string, string) dict \<Rightarrow> (string, string) dict \<Rightarrow> string \<Rightarrow> string \<Rightarrow> (string, string) dict" where
  "dispatcher_env base tokens origin socket_path =
     merge (merge base tokens) [(''SERVICE_URL'', origin), (''DISPATCH_SOCKET'', socket_path),
       (''DISPATCH_TOKEN_VARS'', ''AGENT_TOKEN_1,AGENT_TOKEN_2,PRODUCT_ONLY_TOKEN'')]"

definition client_env :: "(string, string) dict \<Rightarrow> string \<Rightarrow> string \<Rightarrow> (string, string) dict" where
  "client_env base tok socket_path = merge base [(''AGENT_TOKEN_1'', tok), (''DISPATCH_SOCKET'', socket_path)]"

definition catalog_command :: "'w host_scheme \<Rightarrow> string list" where
  "catalog_command w = [interpreter w, ''examples/catalog_service.py'']"

definition binary :: "'w host_scheme \<Rightarrow> string \<Rightarrow> string list" where
  "binary w name = [child_path (root_dir w) (''target/debug/'' @ name)]"

definition client_names :: "string list" where
  "client_names = [''AGENT_TOKEN_1'', ''AGENT_TOKEN_2'', ''PRODUCT_ONLY_TOKEN'']"

definition client_command :: "'w host_scheme \<Rightarrow> string \<Rightarrow> string list" where
  "client_command w operation =
     [interpreter w, ''examples/dispatch_client.py'', operation, CHR ''{'' # quote ''id'' @ '':2}'']"

subsection \<open>Requests\<close>

definition gets_ok :: "'w host_scheme \<Rightarrow> string option \<Rightarrow> string \<Rightarrow> bool task" where
  "gets_ok w credential url = tbind (request_get w credential url) (\<lambda>r. give (Inr (status_code r = 200)))"

definition get_json :: "'w host_scheme \<Rightarrow> string option \<Rightarrow> string \<Rightarrow> json task" where
  "get_json w credential url = tbind (request_get w credential url) (\<lambda>r. give (response_json r))"

definition discover_at :: "'w demo_host_scheme \<Rightarrow> string \<Rightarrow> string \<Rightarrow> json list task" where
  "discover_at w credential origin h =
     (let url = url_for (base_url (variables w)) (Some origin) ''/agent-policy''
      in Some (h @ [Asked (Some credential) url], discover (schemas w) (fetch w h (Some credential) url)))"

fun called :: "string \<Rightarrow> action list \<Rightarrow> history" where
  "called credential [] = []"
| "called credential (Send m url body t # acts) = Called credential url body # called credential acts"
| "called credential (_ # acts) = called credential acts"

definition execute_at :: "'w demo_host_scheme \<Rightarrow> string \<Rightarrow> string \<Rightarrow> json \<Rightarrow> json \<Rightarrow> json task" where
  "execute_at w credential origin operation params h =
     (let run = execute (schemas w) (validator w) (call_clock w h) (call_answers w h) (base_url (variables w))
                  (Some origin) operation params 120
      in Some (h @ called credential (fst run),
               case snd run of Inl e \<Rightarrow> Inl e | Inr (Some v) \<Rightarrow> Inr v | Inr None \<Rightarrow> Inr JNull))"

definition in_service :: "'w host_scheme \<Rightarrow> string \<Rightarrow> (string \<Rightarrow> 'a task) \<Rightarrow> 'a task" where
  "in_service w tok body = tbind (give (service_client (variables w) (Some tok))) (\<lambda>http. body (auth_header http))"

subsection \<open>quickstart.py\<close>

text \<open>The direct call, after the catalog and the gateway are up.\<close>

definition first_call :: "demo_host \<Rightarrow> string \<Rightarrow> string \<Rightarrow> string \<Rightarrow> nat list \<Rightarrow> json task" where
  "first_call w tok origin catalog_port processes =
     in_service w tok (\<lambda>http.
       tbind (until w (gets_ok w (Some http) (origin @ ''/agent-policy'')) processes) (\<lambda>_.
       tbind (until w (gets_ok w None (''http://127.0.0.1:'' @ catalog_port @ ''/products/search'')) processes) (\<lambda>_.
       tbind (get_json w (Some http) (origin @ ''/agent-policy'')) (\<lambda>_.
       tbind (discover_at w http origin) (\<lambda>operations.
         case find (\<lambda>op. py_eq (field op ''name'') (JStr ''get_product'')) operations of
           None \<Rightarrow> give (Inl StopIteration)
         | Some operation \<Rightarrow>
             tbind (execute_at w http origin operation (JDict [(''id'', JInt 2)])) (\<lambda>result.
             tbind (give (rbind (subscript result ''product'') (\<lambda>p. subscript p ''name''))) (\<lambda>name.
             tbind (check (py_eq name (JStr ''Brown boots'')) []) (\<lambda>_.
             give (Inr operation)))))))))"

definition no_outstanding :: "demo_host \<Rightarrow> string \<Rightarrow> string \<Rightarrow> unit task" where
  "no_outstanding w tok origin =
     in_service w tok (\<lambda>http.
       tbind (get_json w (Some http) (origin @ ''/agent-policy'')) (\<lambda>policy.
       tbind (give (subscript policy ''outstanding'')) (\<lambda>n. check (py_eq n (JInt 0)) [])))"

definition keep_open :: "'w host_scheme \<Rightarrow> string \<Rightarrow> string \<Rightarrow> string \<Rightarrow> string \<Rightarrow> 'a task" where
  "keep_open w directory tok origin socket_path =
     tbind (save_file w (child_path directory ''agent.env'')
         (concat (map (\<lambda>(key, v). ''export '' @ key @ ''='' @ [CHR 0x27] @ v @ [CHR 0x27, CHR 0x0A])
           [(''AGENT_TOKEN_1'', tok), (''SERVICE_URL'', origin), (''DISPATCH_SOCKET'', socket_path)])))
       (\<lambda>_. sleep_forever w)"

definition await_clients :: "'w host_scheme \<Rightarrow> nat list \<Rightarrow> unit task" where
  "await_clients w clients =
     teach (\<lambda>c. tbind (wait_for w c 15) (\<lambda>code. check (code = 0) ''A dispatched client failed'')) clients"

text \<open>The dispatcher, its three clients, and the rest of the block.\<close>

definition dispatched ::
  "demo_host \<Rightarrow> bool \<Rightarrow> (string, string) dict \<Rightarrow> (string, string) dict \<Rightarrow> string \<Rightarrow> string \<Rightarrow> string \<Rightarrow> nat list \<Rightarrow> nat list task" where
  "dispatched w keep_running base tokens origin directory operation processes =
     (let socket_path = child_path directory ''dispatcher.sock''
      in child w (binary w ''dispatcher'') (dispatcher_env base tokens origin socket_path) SIGINT (\<lambda>d.
           tbind (until w (ask (\<lambda>h. Inr (path_exists w h socket_path))) (processes @ [d])) (\<lambda>_.
           children w (map (\<lambda>name. (client_command w operation, client_env base (token tokens name) socket_path)) client_names)
             (\<lambda>clients.
               tbind (await_clients w clients) (\<lambda>_.
               tbind (no_outstanding w (token tokens ''AGENT_TOKEN_1'') origin) (\<lambda>_.
               if keep_running then keep_open w directory (token tokens ''AGENT_TOKEN_1'') origin socket_path
               else give (Inr (processes @ [d] @ clients))))))))"

fun all_exited :: "'w host_scheme \<Rightarrow> nat list \<Rightarrow> bool task" where
  "all_exited w [] = give (Inr True)"
| "all_exited w (p # ps) = tbind (poll w p) (\<lambda>r. if r = None then give (Inr False) else all_exited w ps)"

definition quickstart_block ::
  "demo_host \<Rightarrow> bool \<Rightarrow> string \<Rightarrow> string \<Rightarrow> (string, string) dict \<Rightarrow> (string, string) dict \<Rightarrow> (string \<times> nat list) task" where
  "quickstart_block w keep_running catalog_port gateway_port base tokens =
     (let origin = ''http://127.0.0.1:'' @ gateway_port
      in in_private_dir w (\<lambda>directory.
           child w (catalog_command w) (catalog_env base catalog_port) SIGTERM (\<lambda>c.
           child w (binary w ''ai-protocol'') (gateway_env base tokens catalog_port gateway_port) SIGTERM (\<lambda>g.
             tbind (first_call w (token tokens ''AGENT_TOKEN_1'') origin catalog_port [c, g]) (\<lambda>operation.
             tbind (dispatched w keep_running base tokens origin directory (str_field operation ''name'') [c, g])
               (\<lambda>ps. give (Inr (child_path directory ''dispatcher.sock'', ps))))))))"

definition quickstart :: "demo_host \<Rightarrow> bool \<Rightarrow> unit task" where
  "quickstart w keep_running =
     tbind (some_ports w 2 []) (\<lambda>ports.
     tbind (give (int_str (sort ports ! 0))) (\<lambda>catalog_port.
     tbind (give (int_str (sort ports ! 1))) (\<lambda>gateway_port.
     tbind (give (base_env w)) (\<lambda>base.
     tbind (new_tokens w) (\<lambda>tokens.
     tbind (quickstart_block w keep_running catalog_port gateway_port base tokens) (\<lambda>(socket_path, processes).
     tbind (ask (\<lambda>h. Inr (path_exists w h socket_path))) (\<lambda>there.
     tbind (check (\<not> there) []) (\<lambda>_.
     tbind (all_exited w processes) (\<lambda>gone.
     check gone [])))))))))"

definition KeyboardInterrupt :: exn where
  "KeyboardInterrupt = OtherError ''KeyboardInterrupt''"

text \<open>The script: an interrupt ends it as a normal exit, after the block has been left.\<close>

definition quickstart_program :: "demo_host \<Rightarrow> bool \<Rightarrow> unit task" where
  "quickstart_program w keep_running =
     texcept (quickstart w keep_running) (\<lambda>e. e = KeyboardInterrupt) (give (Inr ()))"

end
