(* ===== verification/Quickstart_Props.thy ===== *)
theory Quickstart_Props
  imports Quickstart
begin

text \<open>
  The properties of \<^verbatim>\<open>examples/quickstart.py\<close>: every process is stopped however the run ends, the
  private directory is removed, credentials and settings go where they are needed only, and a
  returning run has seen what it promises.
\<close>

subsection \<open>Every process is stopped\<close>

lemma tidy_execute_at: "runs tidy (execute_at w http origin op params)"
proof -
  have c: "tidy h (h @ called http acts)" for h acts
  proof (induction acts arbitrary: h)
    case (Cons a acts)
    show ?case
    proof (cases a)
      case (Send m url body t)
      have "tidy h (h @ [Called http url body])" by (rule tidy_one) simp_all
      with Cons [of "h @ [Called http url body]"] Send show ?thesis by (auto intro: tidied.trans)
    qed (use Cons in simp_all)
  qed (simp add: tidied.refl)
  show ?thesis by (simp add: runs_def execute_at_def Let_def c)
qed

lemma tidy_gets: "runs tidy (gets_ok w c url)" "runs tidy (get_json w c url)"
  unfolding gets_ok_def get_json_def by (intro tidy_rules)+

lemma tidy_discover: "runs tidy (discover_at w http origin)"
  by (simp add: runs_def discover_at_def Let_def tidy_one)

lemma tidy_in_service: "(\<And>http. runs tidy (body http)) \<Longrightarrow> runs tidy (in_service w tok body)"
  unfolding in_service_def by (intro tidy_rules)

lemma tidy_first_call: "runs tidy (first_call w tok origin port ps)"
  unfolding first_call_def
  by (intro tidy_in_service tidy_rules tidy_gets tidy_discover; (split option.split)?)
     (auto intro!: tidy_rules tidy_execute_at)

lemma tidy_dispatched: "runs tidy (dispatched w keep base tokens origin directory op ps)"
  unfolding dispatched_def Let_def await_clients_def no_outstanding_def keep_open_def
  by (intro tidy_in_service tidy_rules tidy_gets)

lemma tidy_all_exited: "runs tidy (all_exited w ps)"
  by (induction ps) (simp_all add: tidy_rules)

lemma tidy_quickstart: "runs tidy (quickstart_program w keep)"
proof -
  have b: "runs tidy (quickstart_block w keep c g base tokens)" for c g base tokens
    unfolding quickstart_block_def Let_def by (intro tidy_rules tidy_first_call tidy_dispatched)
  have e: "runs tidy (case x of (socket, ps) \<Rightarrow> f socket ps)" if "\<And>socket ps. runs tidy (f socket ps)"
    for x :: "string \<times> nat list" and f :: "string \<Rightarrow> nat list \<Rightarrow> unit task"
    using that by (cases x) simp
  show ?thesis
    unfolding quickstart_program_def quickstart_def new_tokens_def
    by (intro tidy_rules b e tidy_all_exited)
qed

subsection \<open>What reaches whom\<close>

abbreviation local_url :: "string \<Rightarrow> bool" where
  "local_url url \<equiv> startswith url ''http://127.0.0.1:''"

definition inherits_path_only :: "'w host_scheme \<Rightarrow> (string, string) dict \<Rightarrow> bool" where
  "inherits_path_only w env \<longleftrightarrow> dget env ''PATH'' = dget (variables w) ''PATH''"

text \<open>What the run may do, when \<open>f name\<close> is the token made for that name.\<close>

fun role_permitted :: "demo_host \<Rightarrow> (string \<Rightarrow> string) \<Rightarrow> deed \<Rightarrow> bool" where
  "role_permitted w f (Started p c env) \<longleftrightarrow> inherits_path_only w env \<and>
     (c = catalog_command w \<and> dkeys env = [''PATH'', ''PYTHONUNBUFFERED'', ''CATALOG_PORT''] \<or>
      c = binary w ''ai-protocol'' \<and>
        dkeys env = [''PATH'', ''PYTHONUNBUFFERED''] @ TOKENS @ [''CATALOG_PORT'', ''GATEWAY_PORT''] \<or>
      c = binary w ''dispatcher'' \<and>
        dkeys env = [''PATH'', ''PYTHONUNBUFFERED''] @ TOKENS @ [''SERVICE_URL'', ''DISPATCH_SOCKET'', ''DISPATCH_TOKEN_VARS''] \<or>
      (\<exists>operation name. name \<in> set client_names \<and> c = client_command w operation \<and>
        dkeys env = [''PATH'', ''PYTHONUNBUFFERED'', ''AGENT_TOKEN_1'', ''DISPATCH_SOCKET''] \<and>
        dget env ''AGENT_TOKEN_1'' = Some (f name)))"
| "role_permitted w f (Asked credential url) \<longleftrightarrow>
     local_url url \<and> (credential = None \<or> credential = Some (''Bearer '' @ f ''AGENT_TOKEN_1''))"
| "role_permitted w f (Called credential url body) \<longleftrightarrow>
     local_url url \<and> credential = ''Bearer '' @ f ''AGENT_TOKEN_1'' \<and> body = JDict [(''id'', JInt 2)]"
| "role_permitted w f (Saved path content) \<longleftrightarrow>
     (\<exists>origin socket. content =
        concat (map (\<lambda>(key, v). ''export '' @ key @ ''='' @ [CHR 0x27] @ v @ [CHR 0x27, CHR 0x0A])
          [(''AGENT_TOKEN_1'', f ''AGENT_TOKEN_1''), (''SERVICE_URL'', origin), (''DISPATCH_SOCKET'', socket)]))"
| "role_permitted w f d \<longleftrightarrow> quiet d"

lemma role_permitted_quietly: "quietly (\<lambda>_. role_permitted w f)"
  unfolding quietly_def
proof (intro allI impI)
  fix d assume "quiet d"
  then show "role_permitted w f d" by (cases d) simp_all
qed

lemma local_url_append: "local_url (''http://127.0.0.1:'' @ s)"
  by (rule startswith_append)

lemma local_url_more: "local_url url \<Longrightarrow> local_url (url @ s)"
  unfolding startswith_iff by (metis append.assoc)

lemma rstrip_of_keep: "\<not> p (last a) \<Longrightarrow> a \<noteq> [] \<Longrightarrow> rstrip_of p (a @ s) = a @ rstrip_of p s"
proof (induction s rule: rev_induct)
  case Nil
  then show ?case by (simp add: rstrip_of_def rstrip_of_id [of a p, unfolded rstrip_of_def])
next
  case (snoc c s)
  then show ?case using rstrip_of_snoc [of p "a @ s" c] rstrip_of_snoc [of p s c] by simp
qed

lemma local_url_for: "local_url (url_for B (Some (''http://127.0.0.1:'' @ s)) path)"
proof -
  have "rstrip_of (\<lambda>c. c = CHR ''/'') (''http://127.0.0.1:'' @ s) = ''http://127.0.0.1:'' @ rstrip_of (\<lambda>c. c = CHR ''/'') s"
    by (rule rstrip_of_keep) simp_all
  then show ?thesis by (simp add: url_for_def startswith_def)
qed

lemma grows_called:
  assumes "\<And>m url body t. Send m url body t \<in> set acts \<Longrightarrow> P (Called http url body)"
  shows "grows (\<lambda>_. P) h (h @ called http acts)"
  using assms
proof (induction acts arbitrary: h)
  case (Cons a acts)
  have r: "grows (\<lambda>_. P) g (g @ called http acts)" for g by (rule Cons.IH) (use Cons.prems in auto)
  show ?case
  proof (cases a)
    case (Send m url body t)
    have "grows (\<lambda>_. P) h (h @ [Called http url body])"
      using Cons.prems [of m url body t] Send by (intro grows_one) simp
    from grows_trans [OF r this] Send show ?thesis by simp
  qed (use r in simp_all)
qed (simp add: grows.stays)

text \<open>The parts of the run, when the tokens are \<open>f\<close> and a client on the first of them sends it.\<close>

definition tokens_of :: "(string \<Rightarrow> string) \<Rightarrow> (string, string) dict" where
  "tokens_of f = map (\<lambda>name. (name, f name)) TOKENS"

lemma token_of: "token (tokens_of f) name = (if name \<in> set TOKENS then f name else [])"
  by (simp add: token_def tokens_of_def TOKENS_def)

lemma service_header: "t \<noteq> [] \<Longrightarrow> service_client env (Some t) = Inr http \<Longrightarrow> auth_header http = ''Bearer '' @ t"
  by (auto simp: service_client_def split: if_splits)

lemma grows_in_service:
  assumes "tok \<noteq> []" "runs (grows ok) (body (''Bearer '' @ tok))"
  shows "runs (grows ok) (in_service w tok body)"
  unfolding in_service_def
proof (rule grow.runs_bind_known [OF grow.runs_quiet(1)])
  fix http h g assume "give (service_client (variables w) (Some tok)) h = Some (g, Inr http)"
  then have "service_client (variables w) (Some tok) = Inr http" by (simp add: give_def)
  from service_header [OF assms(1) this] assms(2) show "runs (grows ok) (body (auth_header http))" by simp
qed

lemma grows_execute_at:
  assumes "\<And>path. ok (Called http (url_for (base_url (variables w)) (Some origin) path) params)"
  shows "runs (grows (\<lambda>_. ok)) (execute_at w http origin op params)"
proof (rule runsI)
  fix h g r assume "execute_at w http origin op params h = Some (g, r)"
  then have g: "g = h @ called http (fst (execute (schemas w) (validator w) (call_clock w h) (call_answers w h)
      (base_url (variables w)) (Some origin) op params 120))" (is "_ = h @ called http ?acts")
    by (simp add: execute_at_def Let_def)
  show "grows (\<lambda>_. ok) h g" unfolding g
  proof (rule grows_called)
    fix m url body t assume "Send m url body t \<in> set ?acts"
    from execute_send [OF this] assms show "ok (Called http url body)" by simp
  qed
qed

lemma grows_gets:
  "(\<And>h. ok h (Asked c url)) \<Longrightarrow> runs (grows ok) (gets_ok w c url)"
  "(\<And>h. ok h (Asked c url)) \<Longrightarrow> runs (grows ok) (get_json w c url)"
  unfolding gets_ok_def get_json_def by (intro grows_rules; simp)+

lemma grows_discover:
  "ok (Asked (Some http) (url_for (base_url (variables w)) (Some origin) ''/agent-policy'')) \<Longrightarrow>
   runs (grows (\<lambda>_. ok)) (discover_at w http origin)"
  by (simp add: runs_def discover_at_def Let_def grows_one)

lemma grows_first_call:
  assumes "f ''AGENT_TOKEN_1'' \<noteq> []" "origin = ''http://127.0.0.1:'' @ gp"
  shows "runs (grows (\<lambda>_. role_permitted w f)) (first_call w (f ''AGENT_TOKEN_1'') origin cp ps)"
proof -
  let ?R = "grows (\<lambda>_. role_permitted w f)" and ?http = "''Bearer '' @ f ''AGENT_TOKEN_1''"
  have a: "role_permitted w f (Asked (Some ?http) (origin @ ''/agent-policy''))"
    "role_permitted w f (Asked None (''http://127.0.0.1:'' @ cp @ ''/products/search''))"
    "role_permitted w f (Asked (Some ?http) (url_for (base_url (variables w)) (Some origin) ''/agent-policy''))"
    "role_permitted w f (Called ?http (url_for (base_url (variables w)) (Some origin) path) (JDict [(''id'', JInt 2)]))" for path
    unfolding assms(2) append.assoc role_permitted.simps by (simp_all only: local_url_append local_url_for simp_thms)
  have c: "runs ?R (case x of None \<Rightarrow> give (Inl StopIteration) | Some op \<Rightarrow> m op)" if "\<And>op. runs ?R (m op)"
    for x and m :: "json \<Rightarrow> json task"
    using that by (cases x) (simp_all add: grow.runs_quiet)
  show ?thesis
    unfolding first_call_def
    by (intro grows_in_service assms(1) grow.runs_bind grow.runs_quiet grows_until role_permitted_quietly grows_gets
        grows_discover grows_execute_at c a)
qed

lemma environments:
  assumes "dget (variables w) ''PATH'' = Some path"
  defines "base \<equiv> [(''PATH'', path), (''PYTHONUNBUFFERED'', ''1'')]"
  shows "role_permitted w f (Started p (catalog_command w) (catalog_env base cp))"
    and "role_permitted w f (Started p (binary w ''ai-protocol'') (gateway_env base (tokens_of f) cp gp))"
    and "role_permitted w f (Started p (binary w ''dispatcher'') (dispatcher_env base (tokens_of f) origin socket))"
    and "name \<in> set client_names \<Longrightarrow>
      role_permitted w f (Started p (client_command w operation) (client_env base (f name) socket))"
proof -
  have i: "inherits_path_only w (catalog_env base cp)" "inherits_path_only w (gateway_env base (tokens_of f) cp gp)"
    "inherits_path_only w (dispatcher_env base (tokens_of f) origin socket)" "inherits_path_only w (client_env base (f name) socket)"
    by (simp_all add: inherits_path_only_def assms base_def catalog_env_def gateway_env_def dispatcher_env_def
        client_env_def merge_def tokens_of_def TOKENS_def)
  have k: "dkeys (catalog_env base cp) = [''PATH'', ''PYTHONUNBUFFERED'', ''CATALOG_PORT'']"
    "dkeys (gateway_env base (tokens_of f) cp gp) = [''PATH'', ''PYTHONUNBUFFERED''] @ TOKENS @ [''CATALOG_PORT'', ''GATEWAY_PORT'']"
    "dkeys (dispatcher_env base (tokens_of f) origin socket) =
       [''PATH'', ''PYTHONUNBUFFERED''] @ TOKENS @ [''SERVICE_URL'', ''DISPATCH_SOCKET'', ''DISPATCH_TOKEN_VARS'']"
    "dkeys (client_env base (f name) socket) = [''PATH'', ''PYTHONUNBUFFERED'', ''AGENT_TOKEN_1'', ''DISPATCH_SOCKET'']"
    by (simp_all add: base_def catalog_env_def gateway_env_def dispatcher_env_def client_env_def merge_def
        tokens_of_def TOKENS_def dkeys_def)
  have t: "dget (client_env base (f name) socket) ''AGENT_TOKEN_1'' = Some (f name)"
    by (simp add: base_def client_env_def merge_def)
  show "role_permitted w f (Started p (catalog_command w) (catalog_env base cp))"
    "role_permitted w f (Started p (binary w ''ai-protocol'') (gateway_env base (tokens_of f) cp gp))"
    "role_permitted w f (Started p (binary w ''dispatcher'') (dispatcher_env base (tokens_of f) origin socket))"
    unfolding role_permitted.simps by (intro conjI i, simp only: k simp_thms)+
  show "role_permitted w f (Started p (client_command w operation) (client_env base (f name) socket))"
    if "name \<in> set client_names"
    unfolding role_permitted.simps by (intro conjI i disjI2 exI [of _ operation] exI [of _ name] that refl k(4) t)
qed

lemma grows_keep_open:
  "runs (grows (\<lambda>_. role_permitted w f)) (keep_open w directory (f ''AGENT_TOKEN_1'') origin socket)"
proof -
  have "role_permitted w f (Saved path (concat (map (\<lambda>(key, v). ''export '' @ key @ ''='' @ [CHR 0x27] @ v @ [CHR 0x27, CHR 0x0A])
      [(''AGENT_TOKEN_1'', f ''AGENT_TOKEN_1''), (''SERVICE_URL'', origin), (''DISPATCH_SOCKET'', socket)])))" for path
    unfolding role_permitted.simps by (intro exI) (rule refl)
  then show ?thesis unfolding keep_open_def by (intro grow.runs_bind grows_save_file grows_waits role_permitted_quietly)
qed

lemma grows_dispatched:
  assumes "dget (variables w) ''PATH'' = Some path" "f ''AGENT_TOKEN_1'' \<noteq> []" "origin = ''http://127.0.0.1:'' @ gp"
  shows "runs (grows (\<lambda>_. role_permitted w f))
    (dispatched w keep [(''PATH'', path), (''PYTHONUNBUFFERED'', ''1'')] (tokens_of f) origin directory operation ps)"
proof -
  have t: "token (tokens_of f) ''AGENT_TOKEN_1'' = f ''AGENT_TOKEN_1''" by (simp add: token_of TOKENS_def)
  have a: "role_permitted w f (Asked (Some (''Bearer '' @ f ''AGENT_TOKEN_1'')) (origin @ ''/agent-policy''))"
    unfolding assms(3) append.assoc role_permitted.simps by (simp only: local_url_append simp_thms)
  have c: "role_permitted w f (Started p (fst c) (snd c))"
    if "c \<in> set (map (\<lambda>name. (client_command w operation, client_env [(''PATH'', path), (''PYTHONUNBUFFERED'', ''1'')]
        (token (tokens_of f) name) socket)) client_names)" for c p socket
  proof -
    from that obtain name where n: "name \<in> set client_names" "c = (client_command w operation,
        client_env [(''PATH'', path), (''PYTHONUNBUFFERED'', ''1'')] (token (tokens_of f) name) socket)" by auto
    moreover have "name \<in> set TOKENS" using n(1) by (auto simp: client_names_def TOKENS_def)
    ultimately show ?thesis using environments(4) [OF assms(1)] by (simp add: token_of)
  qed
  show ?thesis
    unfolding dispatched_def Let_def t await_clients_def no_outstanding_def
    by (intro grows_child role_permitted_quietly environments(3) [OF assms(1)] grow.runs_bind grows_until grow.runs_quiet
        grows_children c grow.runs_each grows_wait grows_in_service assms(2) grows_gets a grow.runs_if grows_keep_open)
qed

lemma grows_all_exited: "quietly ok \<Longrightarrow> runs (grows ok) (all_exited w ps)"
  by (induction ps) (auto intro!: grow.runs_bind grow.runs_if grow.runs_quiet grows_poll)

text \<open>Outside the private directory there are only ports and polls; inside, only what is role_permitted.\<close>

lemma block_shape:
  assumes "quickstart_block w keep cp gp [(''PATH'', path), (''PYTHONUNBUFFERED'', ''1'')] (tokens_of f) h = Some (g, r)"
    and "dget (variables w) ''PATH'' = Some path" "f ''AGENT_TOKEN_1'' \<noteq> []"
  shows "\<exists>d k. g = h @ [Made_dir d] @ k @ [Removed_dir d] \<and> (\<forall>x \<in> set k. role_permitted w f x)"
proof -
  let ?base = "[(''PATH'', path), (''PYTHONUNBUFFERED'', ''1'')]" and ?origin = "''http://127.0.0.1:'' @ gp"
  have t: "token (tokens_of f) ''AGENT_TOKEN_1'' = f ''AGENT_TOKEN_1''" by (simp add: token_of TOKENS_def)
  have b: "runs (grows (\<lambda>_. role_permitted w f)) (child w (catalog_command w) (catalog_env ?base cp) SIGTERM (\<lambda>c.
      child w (binary w ''ai-protocol'') (gateway_env ?base (tokens_of f) cp gp) SIGTERM (\<lambda>g.
        tbind (first_call w (token (tokens_of f) ''AGENT_TOKEN_1'') ?origin cp [c, g]) (\<lambda>operation.
        tbind (dispatched w keep ?base (tokens_of f) ?origin directory (str_field operation ''name'') [c, g])
          (\<lambda>ps. give (Inr (child_path directory ''dispatcher.sock'', ps)))))))" for directory
    unfolding t
    by (intro grows_child role_permitted_quietly environments(1,2) [OF assms(2)] grow.runs_bind grow.runs_quiet
        grows_first_call [where gp = gp] assms(3) grows_dispatched [where f = f and path = path and gp = gp] assms(2) HOL.refl)
  from in_private_dir_out [OF assms(1) [unfolded quickstart_block_def Let_def]]
  obtain k d x where k: "g = k @ [Removed_dir d]" "grows (\<lambda>_. role_permitted w f) (h @ [Made_dir d]) k"
    using b unfolding runs_def by blast
  with grows_set [OF k(2)] show ?thesis by auto
qed

definition shaped :: "demo_host \<Rightarrow> (string \<Rightarrow> string) \<Rightarrow> history \<Rightarrow> bool" where
  "shaped w f g \<longleftrightarrow> (\<forall>x \<in> set g. role_permitted w f x) \<or>
     (\<exists>a d k z. g = a @ [Made_dir d] @ k @ [Removed_dir d] @ z \<and> (\<forall>x \<in> set (a @ k @ z). role_permitted w f x))"

lemma shaped_cleared: "shaped w f g \<Longrightarrow> \<forall>d. Made_dir d \<in> set g \<longrightarrow> Removed_dir d \<in> set g"
proof (intro allI impI)
  fix d assume g: "shaped w f g" "Made_dir d \<in> set g"
  have n: "\<not> role_permitted w f (Made_dir d)" by simp
  from g(1) show "Removed_dir d \<in> set g"
    unfolding shaped_def
  proof (elim disjE exE conjE)
    fix a e k z assume e: "g = a @ [Made_dir e] @ k @ [Removed_dir e] @ z" "\<forall>x \<in> set (a @ k @ z). role_permitted w f x"
    have "Made_dir d \<notin> set (a @ k @ z)" using e(2) n by blast
    with g(2) e(1) show ?thesis by auto
  qed (use g(2) n in blast)
qed

lemma quickstart_shape:
  assumes q: "quickstart w keep [] = Some (g, r)" and f: "\<And>h name. fresh_token w h name \<noteq> []"
  shows "\<exists>h. shaped w (fresh_token w h) g"
  using q unfolding quickstart_def
proof (cases rule: tbind_cases)
  case (1 e)
  have "runs (grows (\<lambda>_. role_permitted w (fresh_token w []))) (some_ports w 2 [])" by (rule grows_waits) (rule role_permitted_quietly)
  from grows_permitted [OF this 1(1)] show ?thesis unfolding shaped_def by auto
next
  case (2 h ports)
  have p: "\<forall>x \<in> set h. role_permitted w f x" for f
  proof -
    have "runs (grows (\<lambda>_. role_permitted w f)) (some_ports w 2 [])" by (rule grows_waits) (rule role_permitted_quietly)
    from grows_permitted [OF this 2(1)] show ?thesis by auto
  qed
  show ?thesis
    using 2(2)
  proof (cases rule: give_cases)
    case (2 cp)
    from 2(2) show ?thesis
    proof (cases rule: give_cases)
      case (2 gp)
      from 2(2) show ?thesis
      proof (cases rule: give_cases)
        case (2 base)
        let ?f = "fresh_token w h"
        from 2(1) obtain path where b: "base = [(''PATH'', path), (''PYTHONUNBUFFERED'', ''1'')]"
            "dget (variables w) ''PATH'' = Some path" by (auto simp: base_env_def split: option.splits)
        have "tbind (quickstart_block w keep cp gp base (tokens_of ?f)) (\<lambda>(socket_path, processes).
            tbind (ask (\<lambda>h. Inr (path_exists w h socket_path))) (\<lambda>there. tbind (check (\<not> there) []) (\<lambda>_.
            tbind (all_exited w processes) (\<lambda>gone. check gone [])))) h = Some (g, r)"
          using 2(2) unfolding new_tokens_def tokens_of_def ask_bind by simp
        then show ?thesis
        proof (cases rule: tbind_cases)
          case (1 e)
          from block_shape [OF 1(1) [unfolded b(1)] b(2) f] obtain d j where
            "g = h @ [Made_dir d] @ j @ [Removed_dir d]" "\<forall>y \<in> set j. role_permitted w ?f y" by blast
          with p show ?thesis
            unfolding shaped_def
            by (intro exI [of _ h] disjI2 exI [of _ h] exI [of _ d] exI [of _ j] exI [of _ "[]"] conjI) auto
        next
          case (2 k x)
          obtain socket ps where x: "x = (socket, ps)" by (cases x)
          have "runs (grows (\<lambda>_. role_permitted w ?f)) (tbind (ask (\<lambda>h. Inr (path_exists w h socket))) (\<lambda>there.
              tbind (check (\<not> there) []) (\<lambda>_. tbind (all_exited w ps) (\<lambda>gone. check gone []))))"
            by (intro grow.runs_bind grow.runs_quiet grows_all_exited role_permitted_quietly)
          from grows_permitted [OF this 2(2) [unfolded x prod.case]] obtain z where z: "g = k @ z"
            "\<forall>y \<in> set z. role_permitted w ?f y" by blast
          from block_shape [OF 2(1) [unfolded b(1)] b(2) f] obtain d j where
            "k = h @ [Made_dir d] @ j @ [Removed_dir d]" "\<forall>y \<in> set j. role_permitted w ?f y" by blast
          with z p show ?thesis
            unfolding shaped_def
            by (intro exI [of _ h] disjI2 exI [of _ h] exI [of _ d] exI [of _ j] exI [of _ z] conjI) auto
        qed
      qed (use p in \<open>auto simp: shaped_def\<close>)
    qed (use p in \<open>auto simp: shaped_def\<close>)
  qed (use p in \<open>auto simp: shaped_def\<close>)
qed

lemma program_history: "quickstart_program w keep h = Some (g, r) \<Longrightarrow> \<exists>s. quickstart w keep h = Some (g, s)"
  by (auto simp: quickstart_program_def texcept_def give_def split: option.splits prod.splits sum.splits if_splits)

text \<open>
  Claim C15. However a quickstart run ends (success, a failed check, a process that dies, an expired
  wait, an interrupt), every process it started has been seen to end, the private directory it made
  was removed, and it signalled only processes that it had started and that had not been seen to end.
\<close>

theorem quickstart_stops_children:
  assumes "quickstart_program w keep [] = Some (g, r)" and "\<And>h name. fresh_token w h name \<noteq> []"
  shows "(\<forall>p < started_in g. returncode g p \<noteq> None) \<and>
    (\<forall>d. Made_dir d \<in> set g \<longrightarrow> Removed_dir d \<in> set g) \<and>
    (\<forall>before p s after. g = before @ Signalled p s # after \<longrightarrow> p < started_in before \<and> returncode before p = None)"
proof (intro conjI)
  have t: "tidy [] g" using tidy_quickstart assms(1) by (rule runsD)
  then show "\<forall>p < started_in g. returncode g p \<noteq> None" by (simp add: tidy_def)
  show "\<forall>before p s after. g = before @ Signalled p s # after \<longrightarrow> p < started_in before \<and> returncode before p = None"
    using t grows_each [of signal_owned "[]" g] unfolding tidy_def by fastforce
  obtain s h where "shaped w (fresh_token w h) g"
    using program_history [OF assms(1)] quickstart_shape assms(2) by blast
  then show "\<forall>d. Made_dir d \<in> set g \<longrightarrow> Removed_dir d \<in> set g" by (rule shaped_cleared)
qed


subsection \<open>What a returning run has seen\<close>

lemma sleep_forever_raises: "sleep_forever (w :: 'b host_scheme) h = Some (g, r :: 'a result) \<Longrightarrow> \<exists>e. r = Inl e"
proof -
  assume s: "sleep_forever (w :: 'b host_scheme) h = Some (g, r :: 'a result)"
  have "\<exists>e. snd (g, r) = Inl e"
  proof (rule sleep_forever.raw_induct [where P = "\<lambda>w h s. \<exists>e. snd s = Inl e", OF _ s])
    fix loop and w' :: "'b host_scheme" and h :: history and s :: "history \<times> 'a result"
    assume IH: "\<And>(w' :: 'b host_scheme) (h :: history) (s :: history \<times> 'a result). loop w' h = Some s \<Longrightarrow> \<exists>e. snd s = Inl e"
    assume eq: "(case nap w' h of Inl e \<Rightarrow> Some (h @ [Napped 1], Inl e) | Inr _ \<Rightarrow> loop w' (h @ [Napped 1])) = Some s"
    show "\<exists>e. snd s = Inl e" using eq by (auto split: sum.splits dest: IH)
  qed
  then show ?thesis by simp
qed

lemma keep_open_raises: "keep_open w d t origin socket h = Some (g, r) \<Longrightarrow> r \<noteq> Inr x"
  unfolding keep_open_def by (erule tbind_cases) (auto dest: sleep_forever_raises)

lemma child_Inr:
  assumes "child w c e s body h = Some (g, Inr x)"
  shows "\<exists>k z. body (started_in h) (h @ [Started (started_in h) c e]) = Some (k, Inr x) \<and> g = k @ z"
proof -
  obtain k j u where b: "body (started_in h) (h @ [Started (started_in h) c e]) = Some (k, Inr x)"
      "stop_child w s (started_in h) k = Some (g, u)"
    using assms by (auto simp: child_def tbind_def spawn_def tfinally_def split: option.splits prod.splits sum.splits)
  from extends_stop_child [OF b(2)] b(1) show ?thesis by blast
qed

lemma children_Inr:
  "children w cs body h = Some (g, Inr x) \<Longrightarrow>
   \<exists>ps k z. length ps = length cs \<and> distinct ps \<and> (\<forall>p \<in> set ps. started_in h \<le> p) \<and> g = k @ z \<and>
     body ps (h @ map (\<lambda>(p, c). Started p (fst c) (snd c)) (zip ps cs)) = Some (k, Inr x)"
proof (induction cs arbitrary: h body g)
  case Nil
  then show ?case by (intro exI [of _ "[]"] exI [of _ g] exI [of _ "[]"]) simp
next
  case (Cons c cs)
  let ?p = "started_in h" and ?h = "h @ [Started (started_in h) (fst c) (snd c)]"
  from child_Inr [OF Cons.prems [unfolded children.simps]] obtain k z where
    k: "children w cs (\<lambda>ps. body (?p # ps)) ?h = Some (k, Inr x)" "g = k @ z" by blast
  from Cons.IH [OF k(1)] obtain ps j y where j: "length ps = length cs" "distinct ps" "\<forall>p \<in> set ps. started_in ?h \<le> p"
      "k = j @ y" "body (?p # ps) (?h @ map (\<lambda>(p, c). Started p (fst c) (snd c)) (zip ps cs)) = Some (j, Inr x)" by blast
  have s: "started_in ?h = Suc ?p" by (simp add: started_in_append)
  show ?case
    using j k(2) s
    by (intro exI [of _ "?p # ps"] exI [of _ j] exI [of _ "y @ z"]) fastforce
qed

lemma await_clients_Inr:
  "await_clients w ps h = Some (g, Inr u) \<Longrightarrow> (\<exists>z. g = h @ z) \<and> (\<forall>p \<in> set ps. Waited p 15 (Some 0) \<in> set g)"
  unfolding await_clients_def
proof (induction ps arbitrary: h)
  case Nil
  then show ?case by (simp add: give_Inr)
next
  case (Cons p ps)
  obtain k c where "wait_for w p 15 h = Some (k, Inr c)" "c = 0"
      and r: "teach (\<lambda>c. tbind (wait_for w c 15) (\<lambda>code. check (code = 0) ''A dispatched client failed'')) ps k = Some (g, Inr u)"
    using Cons.prems by (auto simp: bind_Inr check_Inr)
  then have k: "k = h @ [Waited p 15 (Some 0)]"
    by (auto simp: wait_for_def Let_def split: option.splits)
  with Cons.IH [OF r] show ?case by auto
qed

lemma get_json_Inr:
  "get_json w c url h = Some (g, Inr v) \<Longrightarrow> \<exists>r. fetch w h c url = Inr r \<and> resp_json r = Some v \<and> g = h @ [Asked c url]"
  by (auto simp: get_json_def bind_Inr give_Inr request_get_def response_json_def split: option.splits)

definition outstanding_zero :: "json \<Rightarrow> bool" where
  "outstanding_zero policy \<longleftrightarrow> (\<exists>n. subscript policy ''outstanding'' = Inr n \<and> py_eq n (JInt 0))"

lemma no_outstanding_Inr:
  assumes "no_outstanding w tok origin h = Some (g, Inr u)"
  shows "\<exists>http r v. fetch w h (Some http) (origin @ ''/agent-policy'') = Inr r \<and> resp_json r = Some v \<and> outstanding_zero v \<and>
    g = h @ [Asked (Some http) (origin @ ''/agent-policy'')]"
  using assms unfolding no_outstanding_def in_service_def
  by (auto simp: bind_Inr give_Inr check_Inr outstanding_zero_def dest!: get_json_Inr)

lemma dispatched_Inr:
  assumes "dispatched w keep base tokens origin directory operation ps h = Some (g, Inr xs)"
  shows "\<not> keep \<and> (\<exists>clients http k r v. length clients = 3 \<and> distinct clients \<and> (\<forall>c \<in> set clients.
      Waited c 15 (Some 0) \<in> set g \<and> (\<exists>env. Started c (client_command w operation) env \<in> set g)) \<and>
    fetch w k (Some http) (origin @ ''/agent-policy'') = Inr r \<and> resp_json r = Some v \<and> outstanding_zero v)"
proof -
  let ?socket = "child_path directory ''dispatcher.sock''"
  let ?cs = "map (\<lambda>name. (client_command w operation, client_env base (token tokens name) ?socket)) client_names"
  from child_Inr [OF assms [unfolded dispatched_def Let_def]] obtain h1 g1 z d where
    "g = g1 @ z" and c: "children w ?cs (\<lambda>clients. tbind (await_clients w clients) (\<lambda>_.
        tbind (no_outstanding w (token tokens ''AGENT_TOKEN_1'') origin) (\<lambda>_.
        if keep then keep_open w directory (token tokens ''AGENT_TOKEN_1'') origin ?socket
        else give (Inr (ps @ [d] @ clients))))) h1 = Some (g1, Inr xs)"
    by (auto simp: bind_Inr)
  have n: "length ?cs = 3" by (simp add: client_names_def)
  from children_Inr [OF c] obtain clients k y where cl: "length clients = 3" "distinct clients" "g1 = k @ y"
    and b: "tbind (await_clients w clients) (\<lambda>_. tbind (no_outstanding w (token tokens ''AGENT_TOKEN_1'') origin) (\<lambda>_.
        if keep then keep_open w directory (token tokens ''AGENT_TOKEN_1'') origin ?socket
        else give (Inr (ps @ [d] @ clients)))) (h1 @ map (\<lambda>(p, c). Started p (fst c) (snd c)) (zip clients ?cs)) = Some (k, Inr xs)"
    unfolding n by blast
  let ?h2 = "h1 @ map (\<lambda>(p, c). Started p (fst c) (snd c)) (zip clients ?cs)"
  from b obtain j i where j: "await_clients w clients ?h2 = Some (j, Inr ())"
      "no_outstanding w (token tokens ''AGENT_TOKEN_1'') origin j = Some (i, Inr ())"
      "(if keep then keep_open w directory (token tokens ''AGENT_TOKEN_1'') origin ?socket
        else give (Inr (ps @ [d] @ clients))) i = Some (k, Inr xs)"
    by (auto simp: bind_Inr)
  have nk: "\<not> keep" using j(3) by (cases keep) (auto dest: keep_open_raises [where x = xs])
  then have "k = i" using j(3) by (simp add: give_Inr)
  from no_outstanding_Inr [OF j(2)] obtain http r v where
    f: "fetch w j (Some http) (origin @ ''/agent-policy'') = Inr r" "resp_json r = Some v" "outstanding_zero v"
      "i = j @ [Asked (Some http) (origin @ ''/agent-policy'')]" by blast
  have "\<forall>p \<in> set clients. Waited p 15 (Some 0) \<in> set j" using await_clients_Inr [OF j(1)] by blast
  moreover have "\<exists>env. Started c (client_command w operation) env \<in> set ?h2" if "c \<in> set clients" for c
    using that cl(1) by (auto simp: client_names_def length_Suc_conv numeral_3_eq_3)
  moreover have "\<exists>y. g = i @ y" "\<exists>y. i = j @ y" "\<exists>y. j = ?h2 @ y"
    using cl(3) \<open>g = g1 @ z\<close> \<open>k = i\<close> await_clients_Inr [OF j(1)] no_outstanding_Inr [OF j(2)] by auto
  ultimately have "\<forall>c \<in> set clients. Waited c 15 (Some 0) \<in> set g \<and> (\<exists>env. Started c (client_command w operation) env \<in> set g)"
    by (elim exE) (simp only: set_append Un_iff, blast)
  with nk cl(1,2) f(1,2,3) show ?thesis
    by - (rule conjI, assumption, rule exI [of _ clients], rule exI [of _ http], rule exI [of _ j], rule exI [of _ r],
        rule exI [of _ v], intro conjI)
qed

text \<open>What the direct call has shown, in the histories at which the answers came.\<close>

definition bought_brown_boots :: "demo_host \<Rightarrow> string \<Rightarrow> json \<Rightarrow> bool" where
  "bought_brown_boots w origin operation \<longleftrightarrow>
     (\<exists>http h operations k result product.
        discover (schemas w) (fetch w h (Some http) (url_for (base_url (variables w)) (Some origin) ''/agent-policy'')) = Inr operations \<and>
        operation \<in> set operations \<and> field operation ''name'' = JStr ''get_product'' \<and>
        snd (execute (schemas w) (validator w) (call_clock w k) (call_answers w k) (base_url (variables w)) (Some origin)
          operation (JDict [(''id'', JInt 2)]) 120) = Inr (Some result) \<and>
        subscript result ''product'' = Inr product \<and> subscript product ''name'' = Inr (JStr ''Brown boots''))"

lemma execute_at_Inr:
  assumes "execute_at w http origin op params h = Some (g, Inr v)" "v \<noteq> JNull"
  shows "snd (execute (schemas w) (validator w) (call_clock w h) (call_answers w h) (base_url (variables w)) (Some origin)
    op params 120) = Inr (Some v)"
  using assms by (auto simp: execute_at_def Let_def split: sum.splits option.splits)

lemma first_call_Inr:
  assumes "first_call w tok origin cp ps h = Some (g, Inr operation)"
  shows "bought_brown_boots w origin operation"
proof -
  obtain http k operations j result i product name where
    d: "discover_at w http origin k = Some (j, Inr operations)"
    and f: "find (\<lambda>op. py_eq (field op ''name'') (JStr ''get_product'')) operations = Some operation"
    and e: "execute_at w http origin operation (JDict [(''id'', JInt 2)]) j = Some (i, Inr result)"
    and s: "subscript result ''product'' = Inr product" "subscript product ''name'' = Inr name" "name = JStr ''Brown boots''"
    using assms unfolding first_call_def in_service_def
    by (auto simp: bind_Inr give_Inr check_Inr result_simps split: option.splits)
  have "result \<noteq> JNull" using s(1) by (cases result) auto
  note ex = execute_at_Inr [OF e this]
  have "discover (schemas w) (fetch w k (Some http) (url_for (base_url (variables w)) (Some origin) ''/agent-policy'')) = Inr operations"
    using d by (simp add: discover_at_def Let_def)
  moreover have "operation \<in> set operations" "field operation ''name'' = JStr ''get_product''"
    using find_SomeD [OF f] by simp_all
  ultimately show ?thesis using ex s unfolding bought_brown_boots_def by blast
qed

text \<open>The direct call and the dispatched block of a returning run.\<close>

lemma quickstart_run:
  assumes "quickstart w keep [] = Some (g, Inr ())"
  obtains gp cp tok base tokens d p q op h3 h4 k3 ys where
    "first_call w tok (''http://127.0.0.1:'' @ gp) cp [p, q] h3 = Some (h4, Inr op)"
    "dispatched w keep base tokens (''http://127.0.0.1:'' @ gp) d (str_field op ''name'') [p, q] h4 = Some (k3, Inr ys)"
    "set k3 \<subseteq> set g"
proof -
  obtain h cp gp base tokens k xs where b: "quickstart_block w keep cp gp base tokens h = Some (k, Inr xs)"
      and r: "(case xs of (socket_path, processes) \<Rightarrow> tbind (ask (\<lambda>h. Inr (path_exists w h socket_path))) (\<lambda>there.
        tbind (check (\<not> there) []) (\<lambda>_. tbind (all_exited w processes) (\<lambda>gone. check gone [])))) k = Some (g, Inr ())"
    using assms unfolding quickstart_def bind_Inr give_Inr by blast
  let ?origin = "''http://127.0.0.1:'' @ gp"
  from in_private_dir_out [OF b [unfolded quickstart_block_def Let_def]] obtain k1 d h1 where
    k: "k = k1 @ [Removed_dir d]" and c1: "child w (catalog_command w) (catalog_env base cp) SIGTERM (\<lambda>c.
      child w (binary w ''ai-protocol'') (gateway_env base tokens cp gp) SIGTERM (\<lambda>g.
        tbind (first_call w (token tokens ''AGENT_TOKEN_1'') ?origin cp [c, g]) (\<lambda>operation.
        tbind (dispatched w keep base tokens ?origin d (str_field operation ''name'') [c, g])
          (\<lambda>ps. give (Inr (child_path d ''dispatcher.sock'', ps)))))) h1 = Some (k1, Inr xs)"
    by blast
  from child_Inr [OF c1] obtain k2 z1 h2 p where k1: "k1 = k2 @ z1" and c2: "child w (binary w ''ai-protocol'')
      (gateway_env base tokens cp gp) SIGTERM (\<lambda>g.
        tbind (first_call w (token tokens ''AGENT_TOKEN_1'') ?origin cp [p, g]) (\<lambda>operation.
        tbind (dispatched w keep base tokens ?origin d (str_field operation ''name'') [p, g])
          (\<lambda>ps. give (Inr (child_path d ''dispatcher.sock'', ps))))) h2 = Some (k2, Inr xs)"
    by blast
  from child_Inr [OF c2] obtain k3 z2 h3 q op h4 ys where k2: "k2 = k3 @ z2"
      and f: "first_call w (token tokens ''AGENT_TOKEN_1'') ?origin cp [p, q] h3 = Some (h4, Inr op)"
      and dd: "dispatched w keep base tokens ?origin d (str_field op ''name'') [p, q] h4 = Some (k3, Inr ys)"
    unfolding bind_Inr give_Inr by blast
  have "\<exists>z. g = k @ z"
  proof -
    have q: "quietly (\<lambda>_ _. True)" by (simp add: quietly_def)
    have "runs (grows (\<lambda>_ _. True)) (case xs of (socket_path, processes) \<Rightarrow> tbind (ask (\<lambda>h. Inr (path_exists w h socket_path)))
        (\<lambda>there. tbind (check (\<not> there) []) (\<lambda>_. tbind (all_exited w processes) (\<lambda>gone. check gone []))))"
      by (cases xs, simp only: prod.case) (intro grow.runs_bind grow.runs_quiet grows_all_exited q)
    from runsD [OF this r] show ?thesis by (rule grows_extends)
  qed
  then have "set k3 \<subseteq> set g" using k k1 k2 by auto
  with that f dd show thesis by blast
qed

text \<open>
  A quickstart that returns has shown what it announces: it was not asked to keep running;
  the gateway on the loopback port published \<^verbatim>\<open>get_product\<close> and its direct call returned the brown
  boots; three distinct dispatched clients, started for the same operation, ended with exit code 0;
  and the gateway then reported no outstanding operation.
\<close>

theorem quickstart_success:
  assumes "quickstart w keep [] = Some (g, Inr ())"
  shows "\<not> keep \<and> (\<exists>port operation clients http h r policy. bought_brown_boots w (''http://127.0.0.1:'' @ port) operation \<and>
    length clients = 3 \<and> distinct clients \<and>
    (\<forall>c \<in> set clients. Waited c 15 (Some 0) \<in> set g \<and>
       (\<exists>env. Started c (client_command w (str_field operation ''name'')) env \<in> set g)) \<and>
    fetch w h (Some http) (''http://127.0.0.1:'' @ port @ ''/agent-policy'') = Inr r \<and> resp_json r = Some policy \<and>
    outstanding_zero policy)"
proof -
  obtain gp cp tok base tokens d p q op h3 h4 k3 ys where
    f: "first_call w tok (''http://127.0.0.1:'' @ gp) cp [p, q] h3 = Some (h4, Inr op)"
    and dd: "dispatched w keep base tokens (''http://127.0.0.1:'' @ gp) d (str_field op ''name'') [p, q] h4 = Some (k3, Inr ys)"
    and sub: "set k3 \<subseteq> set g"
    by (rule quickstart_run [OF assms])
  from dispatched_Inr [OF dd, unfolded append.assoc] first_call_Inr [OF f] obtain clients http j rr v where
    "\<not> keep" "length clients = 3" "distinct clients" "\<forall>c \<in> set clients. Waited c 15 (Some 0) \<in> set k3 \<and>
      (\<exists>env. Started c (client_command w (str_field op ''name'')) env \<in> set k3)"
    "fetch w j (Some http) (''http://127.0.0.1:'' @ gp @ ''/agent-policy'') = Inr rr" "resp_json rr = Some v" "outstanding_zero v"
    "bought_brown_boots w (''http://127.0.0.1:'' @ gp) op" by blast
  moreover from this(4) sub have "\<forall>c \<in> set clients. Waited c 15 (Some 0) \<in> set g \<and>
      (\<exists>env. Started c (client_command w (str_field op ''name'')) env \<in> set g)" by blast
  ultimately show ?thesis
    by - (rule conjI, assumption, rule exI [of _ gp], rule exI [of _ op], rule exI [of _ clients], rule exI [of _ http],
        rule exI [of _ j], rule exI [of _ rr], rule exI [of _ v], intro conjI)
qed

subsection \<open>A sample run\<close>

declare some_ports.simps [code] until_loop.simps [code] sleep_forever.simps [code]

definition sample_policy_reply :: "response result" where
  "sample_policy_reply = Inr \<lparr>status_code = 200, resp_json = Some (JDict [(''version'', JInt 3), (''principal_id'', JStr ''p''),
     (''client_class'', JStr ''agent''), (''limits'', JDict [(''scope'', JStr ''principal''), (''max_outstanding'', JInt 1)]),
     (''operations'', JList [sample_operation]), (''outstanding'', JInt 0)]), retry_after = None\<rparr>"

definition sample_host :: demo_host where
  "sample_host =
     \<lparr>variables = [(''PATH'', ''/bin''), (''SERVICE_URL'', ''http://other'')], interpreter = ''python'', root_dir = ''/r'',
      private_dir = (\<lambda>_. ''/tmp/p''), fresh_token = (\<lambda>_ name. ''t'' @ name), bind_any = (\<lambda>h. Inr (1 + int (length h))),
      popen = (\<lambda>_ _. Inr ()), os_status = (\<lambda>_ _. None), os_wait = (\<lambda>_ _ _. Some 0), os_reap = (\<lambda>_ _. Some 0),
      clock = (\<lambda>_. 0), nap = (\<lambda>_. Inr ()), fetch = (\<lambda>_ _ _. sample_policy_reply),
      path_exists = (\<lambda>h _. case rev h of Removed_dir _ # _ \<Rightarrow> False | _ \<Rightarrow> True), save = (\<lambda>_ _. Inr ()),
      schemas = (\<lambda>_. None), validator = (\<lambda>_ _. None), call_clock = (\<lambda>_ _. 0),
      call_answers = (\<lambda>_ _. Inr \<lparr>status_code = 200,
        resp_json = Some (JDict [(''product'', JDict [(''name'', JStr ''Brown boots'')])]), retry_after = None\<rparr>)\<rparr>"

lemma sample_ports: "some_ports sample_host 2 [] [] = Some ([Bound_port 1, Bound_port 2], Inr [2, 1])"
  by code_simp

lemma sample_rest:
  "map_option (\<lambda>(g, r). (r, started_in g)) (tbind (quickstart_block sample_host False ''1'' ''2''
     [(''PATH'', ''/bin''), (''PYTHONUNBUFFERED'', ''1'')] (tokens_of (\<lambda>name. ''t'' @ name)))
     (\<lambda>(socket_path, processes).
        tbind (ask (\<lambda>h. Inr (path_exists sample_host h socket_path))) (\<lambda>there. tbind (check (\<not> there) []) (\<lambda>_.
        tbind (all_exited sample_host processes) (\<lambda>gone. check gone [])))) [Bound_port 1, Bound_port 2]) =
   Some (Inr (), 6)"
  by code_simp

lemma sample_quickstart: "\<exists>g. quickstart sample_host False [] = Some (g, Inr ()) \<and> started_in g = 6"
proof -
  have "char_of (49 :: nat) = CHR ''1''" "char_of (50 :: nat) = CHR ''2''" by code_simp+
  then have p: "int_str (sort [2, 1] ! 0) = Inr ''1''" "int_str (sort [2, 1] ! 1) = Inr ''2''"
    by (simp_all add: int_str_def nat_str.simps int_max_str_digits_def)
  have b: "base_env sample_host = Inr [(''PATH'', ''/bin''), (''PYTHONUNBUFFERED'', ''1'')]"
    by (simp add: base_env_def sample_host_def)
  have t: "map (\<lambda>name. (name, fresh_token sample_host h name)) TOKENS = tokens_of (\<lambda>name. ''t'' @ name)" for h
    by (simp add: tokens_of_def sample_host_def)
  obtain g where g: "started_in g = 6" "tbind (quickstart_block sample_host False ''1'' ''2''
     [(''PATH'', ''/bin''), (''PYTHONUNBUFFERED'', ''1'')] (tokens_of (\<lambda>name. ''t'' @ name)))
     (\<lambda>(socket_path, processes).
        tbind (ask (\<lambda>h. Inr (path_exists sample_host h socket_path))) (\<lambda>there. tbind (check (\<not> there) []) (\<lambda>_.
        tbind (all_exited sample_host processes) (\<lambda>gone. check gone [])))) [Bound_port 1, Bound_port 2] = Some (g, Inr ())"
    using sample_rest by (auto simp del: tokens_of_def)
  have "quickstart sample_host False [] = Some (g, Inr ())"
    unfolding quickstart_def
    by (simp only: bind_known [where m = "some_ports sample_host 2 []", OF sample_ports] bind_give p b new_tokens_def
        ask_bind t sum.case g(2))
  with g(1) show ?thesis by blast
qed

lemma sample_program: "quickstart w keep h = Some (g, Inr ()) \<Longrightarrow> quickstart_program w keep h = Some (g, Inr ())"
  by (simp add: quickstart_program_def texcept_def)

theorem quickstart_stops_children_witness:
  "\<exists>g. quickstart_program sample_host False [] = Some (g, Inr ()) \<and> started_in g = 6 \<and> (\<forall>p < 6. returncode g p \<noteq> None)"
proof -
  obtain g where g: "quickstart sample_host False [] = Some (g, Inr ())" "started_in g = 6" using sample_quickstart by blast
  have f: "fresh_token sample_host h name \<noteq> []" for h name by (simp add: sample_host_def)
  from quickstart_stops_children [OF sample_program [OF g(1)] f] g sample_program [OF g(1)] show ?thesis by auto
qed


theorem quickstart_success_witness:
  "\<exists>port operation. bought_brown_boots sample_host (''http://127.0.0.1:'' @ port) operation"
proof -
  obtain g where g: "quickstart sample_host False [] = Some (g, Inr ())" using sample_quickstart by blast
  from quickstart_success [OF g] show ?thesis by blast
qed

end
