(* ===== verification/Rust_Check.thy ===== *)
theory Rust_Check
  imports Owned_Props Conformance Jobs
begin

text \<open>
  \<^verbatim>\<open>scripts/check_rust_library.py\<close>: it builds a separate application on the public Rust interface, starts
  it, calls it directly and through an installed SDK, and stops it. Cargo, the application and the
  installed interpreter answer as the \<open>rust_host\<close>; \<open>sdk_check\<close> is the text of the script that the
  interpreter runs. Argument parsing is not modelled: \<open>crate_root\<close>, \<open>python\<close> and \<open>minimal_sdk\<close> are its results.
\<close>

record rust_host = host +
  resolved :: "string \<Rightarrow> string \<Rightarrow> string"
  read_toml :: "string \<Rightarrow> json result"
  copy_ends :: "history \<Rightarrow> string \<Rightarrow> string \<Rightarrow> unit result"
  run_ends :: "history \<Rightarrow> string list \<Rightarrow> unit result"
  readable :: "history \<Rightarrow> nat \<Rightarrow> bool"
  output_line :: "history \<Rightarrow> nat \<Rightarrow> string"
  opened :: "history \<Rightarrow> string \<Rightarrow> json option \<Rightarrow> json result"
  float_text :: "rat \<Rightarrow> string"

subsection \<open>The project\<close>

fun spec_items :: "(rat \<Rightarrow> string) \<Rightarrow> (string \<times> json) list \<Rightarrow> string list result" where
  "spec_items fr [] = Inr []"
| "spec_items fr ((key, v) # kvs) =
     rbind (dumps fr v) (\<lambda>s. rbind (spec_items fr kvs) (\<lambda>ss. Inr ((key @ '' = '' @ s) # ss)))"

definition spec_text :: "(rat \<Rightarrow> string) \<Rightarrow> json \<Rightarrow> string result" where
  "spec_text fr spec =
     (if is_str spec then dumps fr spec
      else case as_dict spec of
             None \<Rightarrow> Inl AttributeError
           | Some kvs \<Rightarrow> rbind (spec_items fr kvs) (\<lambda>ss. Inr (''{ '' @ join '', '' ss @ '' }'')))"

fun dependency_lines :: "(rat \<Rightarrow> string) \<Rightarrow> json \<Rightarrow> string list \<Rightarrow> string list result" where
  "dependency_lines fr dependencies [] = Inr []"
| "dependency_lines fr dependencies (name # names) =
     rbind (subscript dependencies name) (\<lambda>spec. rbind (spec_text fr spec) (\<lambda>v.
       rbind (dependency_lines fr dependencies names) (\<lambda>lines. Inr ((name @ '' = '' @ v) # lines))))"

definition manifest_text :: "(rat \<Rightarrow> string) \<Rightarrow> string \<Rightarrow> json \<Rightarrow> string result" where
  "manifest_text fr crate_root dependencies =
     rbind (dependency_lines fr dependencies [''axum'', ''serde'', ''serde_json'', ''tokio'']) (\<lambda>lines.
       Inr (join [CHR 0x0A]
         ([''[package]'', ''name = '' @ quote ''ai-protocol-library-consumer'', ''version = '' @ quote ''0.0.0'',
           ''edition = '' @ quote ''2024'', ''[dependencies]'', ''ai-protocol = { path = '' @ quote crate_root @ '' }'']
          @ lines) @ [CHR 0x0A]))"

definition copy_file :: "rust_host \<Rightarrow> string \<Rightarrow> string \<Rightarrow> unit task" where
  "copy_file w source dest h =
     (case copy_ends w h source dest of Inl e \<Rightarrow> Some (h, Inl e) | Inr _ \<Rightarrow> Some (h @ [Copied source dest], Inr ()))"

text \<open>\<^verbatim>\<open>subprocess.run(command, ..., check=True, timeout=...)\<close>: it raises unless the command ends in time with 0.\<close>

definition run_checked :: "rust_host \<Rightarrow> string list \<Rightarrow> (string, string) dict \<Rightarrow> unit task" where
  "run_checked w command env h = Some (h @ [Ran command env], run_ends w h command)"

definition build_project :: "rust_host \<Rightarrow> string \<Rightarrow> json \<Rightarrow> string \<Rightarrow> (string, string) dict \<Rightarrow> unit task" where
  "build_project w crate_root dependencies project env =
     tbind (log (Made_subdir (child_path project ''src'')) (Inr ())) (\<lambda>_.
     tbind (copy_file w (child_path crate_root ''examples/native_service.rs'') (child_path project ''src/main.rs'')) (\<lambda>_.
     tbind (copy_file w (child_path crate_root ''Cargo.lock'') (child_path project ''Cargo.lock'')) (\<lambda>_.
     tbind (give (manifest_text (float_text w) crate_root dependencies)) (\<lambda>manifest.
     tbind (save_file w (child_path project ''Cargo.toml'') manifest) (\<lambda>_.
     run_checked w [''cargo'', ''build'', ''--offline'', ''--manifest-path'', child_path project ''Cargo.toml''] env)))))"

subsection \<open>Talking to the application\<close>

text \<open>\<^verbatim>\<open>request(path, body)\<close>, on an opener without proxies.\<close>

definition open_json :: "rust_host \<Rightarrow> string \<Rightarrow> string \<Rightarrow> string \<Rightarrow> json option \<Rightarrow> json task" where
  "open_json w tok origin path body h =
     (let url = origin @ path; credential = ''Bearer '' @ tok
      in Some (h @ [case body of None \<Rightarrow> Asked (Some credential) url | Some b \<Rightarrow> Called credential url b],
               opened w h url body))"

fun first_item :: "json \<Rightarrow> json result" where
  "first_item (JList []) = Inl IndexError"
| "first_item (JList (v # _)) = Inr v"
| "first_item (JStr []) = Inl IndexError"
| "first_item (JStr (c # _)) = Inr (JStr [c])"
| "first_item (JDict _) = Inl (KeyError ''0'')"
| "first_item _ = Inl TypeError"

definition check_field :: "json result \<Rightarrow> json \<Rightarrow> unit task" where
  "check_field v expected = tbind (give v) (\<lambda>x. check (py_eq x expected) [])"

definition ready_prefix :: string where
  "ready_prefix = ''Native document service listening on ''"

definition announced_origin :: "rust_host \<Rightarrow> nat \<Rightarrow> string task" where
  "announced_origin w p =
     tbind (\<lambda>h. Some (h @ [Selected p 30],
        if readable w h p then Inr () else Inl (RuntimeError ''The external Rust application did not become ready''))) (\<lambda>_.
     tbind (\<lambda>h. Some (h @ [Read_line p], Inr (py_strip (output_line w h p)))) (\<lambda>line.
     give (if startswith line ready_prefix then Inr (''http://'' @ drop (length ready_prefix) line)
           else Inl (RuntimeError ''The external Rust application failed during startup''))))"

definition documents_found :: json where
  "documents_found = JDict [(''documents'', JList [JStr ''Rust introduction''])]"

definition direct_checks :: "rust_host \<Rightarrow> string \<Rightarrow> string \<Rightarrow> unit task" where
  "direct_checks w tok origin =
     tbind (open_json w tok origin ''/agent-policy'' None) (\<lambda>policy.
     tbind (check_field (subscript policy ''service_id'') (JStr ''documents'')) (\<lambda>_.
     tbind (check_field (subscript policy ''version'') (JInt 3)) (\<lambda>_.
     tbind (check_field (rbind (rbind (subscript policy ''operations'') first_item) (\<lambda>op. subscript op ''name''))
              (JStr ''find_documents'')) (\<lambda>_.
     tbind (open_json w tok origin ''/documents/find'' (Some (JDict [(''query'', JStr ''rust'')]))) (\<lambda>found.
     tbind (check (py_eq found documents_found) []) (\<lambda>_.
     tbind (open_json w tok origin ''/agent-policy'' None) (\<lambda>final.
     check_field (subscript final ''outstanding'') (JInt 0))))))))"

subsection \<open>main\<close>

definition sdk_environment :: "rust_host \<Rightarrow> (string, string) dict \<Rightarrow> string \<Rightarrow> string \<Rightarrow> bool \<Rightarrow> (string, string) dict" where
  "sdk_environment w env origin tok minimal_sdk =
     dset (dset (dset (dset env ''SERVICE_URL'' origin) ''AGENT_TOKEN_1'' tok)
       ''CHECK_MINIMAL_SDK'' (if minimal_sdk then ''1'' else ''0'')) ''CHECK_SOURCE_ROOT'' (root_dir w)"

definition with_application ::
  "rust_host \<Rightarrow> string \<Rightarrow> bool \<Rightarrow> string \<Rightarrow> (string, string) dict \<Rightarrow> string \<Rightarrow> nat \<Rightarrow> unit task" where
  "with_application w python minimal_sdk sdk_check env tok p =
     tbind (announced_origin w p) (\<lambda>origin.
     tbind (direct_checks w tok origin) (\<lambda>_.
     tbind (run_checked w [python, ''-I'', ''-c'', sdk_check] (sdk_environment w env origin tok minimal_sdk)) (\<lambda>_.
     tbind (send_signal w p SIGINT) (\<lambda>_.
     tbind (wait_for w p 10) (\<lambda>code. check (code = 0) [])))))"

definition stop_application :: "rust_host \<Rightarrow> nat \<Rightarrow> unit task" where
  "stop_application w p = tbind (stop_process w p) (\<lambda>_. log (Closed_output p) (Inr ()))"

definition check_rust_library :: "rust_host \<Rightarrow> string \<Rightarrow> string \<Rightarrow> bool \<Rightarrow> string \<Rightarrow> unit task" where
  "check_rust_library w crate_arg python minimal_sdk sdk_check =
     (let crate_root = resolved w crate_arg [] in
      tbind (give (rbind (read_toml w (child_path crate_root ''Cargo.toml'')) (\<lambda>t. subscript t ''dependencies''))) (\<lambda>dependencies.
      in_private_dir w (\<lambda>project.
        let target = resolved w (root_dir w) (case dget (variables w) ''CARGO_TARGET_DIR'' of Some d \<Rightarrow> d | None \<Rightarrow> ''target'');
            env = dset (variables w) ''CARGO_TARGET_DIR'' target
        in tbind (build_project w crate_root dependencies project env) (\<lambda>_.
           tbind (ask (\<lambda>h. Inr (fresh_token w h ''NATIVE_AGENT_TOKEN''))) (\<lambda>tok.
           let env = dset (dset env ''NATIVE_AGENT_TOKEN'' tok) ''NATIVE_LISTEN_ADDR'' ''127.0.0.1:0''
           in tbind (spawn w [child_path target ''debug/ai-protocol-library-consumer''] env) (\<lambda>p.
              tfinally (with_application w python minimal_sdk sdk_check env tok p) (stop_application w p)))))))"

subsection \<open>The application is stopped\<close>

lemma tidy_deeds:
  "runs tidy (copy_file w s d)" "runs tidy (run_checked w c e)" "runs tidy (open_json w t origin path body)"
  "runs tidy (\<lambda>h. Some (h @ [Selected p n], q h))" "runs tidy (\<lambda>h. Some (h @ [Read_line p], q h))"
proof -
  show "runs tidy (copy_file w s d)"
    by (auto simp: runs_def copy_file_def tidied.refl tidy_one split: sum.splits)
  show "runs tidy (run_checked w c e)" "runs tidy (\<lambda>h. Some (h @ [Selected p n], q h))" "runs tidy (\<lambda>h. Some (h @ [Read_line p], q h))"
    by (auto simp: runs_def run_checked_def tidy_one)
  show "runs tidy (open_json w t origin path body)"
    by (cases body) (auto simp: runs_def open_json_def Let_def tidy_one)
qed

lemma tidy_direct_checks: "runs tidy (direct_checks w tok origin)"
  unfolding direct_checks_def check_field_def by (intro tidy_rules tidy_deeds)

lemma tidy_announced: "runs tidy (announced_origin w p)"
  unfolding announced_origin_def by (intro tidy_rules tidy_deeds)

text \<open>The deeds of a run with the token \<open>tok\<close>: the credential goes to the address that the application
  printed, and the application starts with it on a loopback port of its choice.\<close>

definition announced :: "rust_host \<Rightarrow> string \<Rightarrow> bool" where
  "announced w url \<longleftrightarrow> (\<exists>h p rest path. py_strip (output_line w h p) = ready_prefix @ rest \<and> url = ''http://'' @ rest @ path)"

fun contained :: "rust_host \<Rightarrow> string \<Rightarrow> deed \<Rightarrow> bool" where
  "contained w tok (Asked credential url) \<longleftrightarrow> credential = Some (''Bearer '' @ tok) \<and> announced w url"
| "contained w tok (Called credential url body) \<longleftrightarrow> credential = ''Bearer '' @ tok \<and> announced w url"
| "contained w tok (Started p command env) \<longleftrightarrow>
     dget env ''NATIVE_AGENT_TOKEN'' = Some tok \<and> dget env ''NATIVE_LISTEN_ADDR'' = Some ''127.0.0.1:0''"
| "contained w tok (Made_dir d) = False"
| "contained w tok (Removed_dir d) = False"
| "contained w tok d = True"

lemma contained_quietly: "quietly (\<lambda>_. contained w tok)"
  unfolding quietly_def
proof (intro allI impI)
  fix d assume "quiet d"
  then show "contained w tok d" by (cases d) simp_all
qed

lemma grows_deeds:
  "contained w tok (Copied s d) \<Longrightarrow> runs (grows (\<lambda>_. contained w tok)) (copy_file w s d)"
  "runs (grows (\<lambda>_. contained w tok)) (run_checked w c e)"
  "runs (grows (\<lambda>_. contained w tok)) (\<lambda>h. Some (h @ [Selected p n], q h))"
  "runs (grows (\<lambda>_. contained w tok)) (\<lambda>h. Some (h @ [Read_line p], q' h))"
  "announced w (origin @ path) \<Longrightarrow> runs (grows (\<lambda>_. contained w tok)) (open_json w tok origin path body)"
  by (auto simp: runs_def copy_file_def run_checked_def open_json_def Let_def grows.stays grows_one
      split: sum.splits option.splits)

lemma origin_announced: "announced_origin w p h = Some (g, Inr origin) \<Longrightarrow> announced w (origin @ path)"
proof -
  assume "announced_origin w p h = Some (g, Inr origin)"
  then obtain k where "startswith (py_strip (output_line w k p)) ready_prefix"
      "origin = ''http://'' @ drop (length ready_prefix) (py_strip (output_line w k p))"
    unfolding announced_origin_def bind_Inr give_Inr by (auto split: if_splits)
  then obtain rest where "py_strip (output_line w k p) = ready_prefix @ rest" "origin = ''http://'' @ rest"
    unfolding startswith_iff by auto
  then have "py_strip (output_line w k p) = ready_prefix @ rest" "origin @ path = ''http://'' @ rest @ path" by simp_all
  then show ?thesis unfolding announced_def by blast
qed

lemma grows_announced: "runs (grows (\<lambda>_. contained w tok)) (announced_origin w p)"
  unfolding announced_origin_def by (intro grow.runs_bind grow.runs_quiet grows_deeds)

lemma grows_direct_checks:
  assumes "\<And>path. announced w (origin @ path)"
  shows "runs (grows (\<lambda>_. contained w tok)) (direct_checks w tok origin)"
  unfolding direct_checks_def check_field_def
  by (intro grow.runs_bind grow.runs_quiet grows_deeds assms)

lemma grows_application:
  "runs (grows (\<lambda>_. contained w tok)) (with_application w python minimal sdk env tok p)"
  unfolding with_application_def
proof (rule grow.runs_bind_known [OF grows_announced])
  fix origin h g assume o: "announced_origin w p h = Some (g, Inr origin)"
  show "runs (grows (\<lambda>_. contained w tok)) (tbind (direct_checks w tok origin) (\<lambda>_.
     tbind (run_checked w [python, ''-I'', ''-c'', sdk] (sdk_environment w env origin tok minimal)) (\<lambda>_.
     tbind (send_signal w p SIGINT) (\<lambda>_. tbind (wait_for w p 10) (\<lambda>code. check (code = 0) [])))))"
    by (intro grow.runs_bind grow.runs_quiet grows_deeds grows_direct_checks origin_announced [OF o]
        grows_send_signal grows_wait contained_quietly)
qed

lemma grows_build: "runs (grows (\<lambda>_. contained w tok)) (build_project w crate deps project env)"
  unfolding build_project_def
  by (intro grow.runs_bind grow.runs_quiet grows_deeds grows_log grows_save_file) simp_all

lemma tidy_application:
  "runs tidy (tbind (spawn w command e) (\<lambda>p. tfinally (with_application w python minimal sdk env tok p) (stop_application w p)))"
proof (rule tidy_owned)
  show "runs (tidy_from p) (with_application w python minimal sdk env tok p)" for p
    unfolding with_application_def
    by (intro owned.runs_bind owned.runs_quiet tidy_from_signal tidy_from_tidy [OF tidy_wait(1)]
        tidy_from_tidy [OF tidy_deeds(2)] tidy_from_tidy [OF tidy_direct_checks] tidy_from_tidy [OF tidy_announced])
  show "ends (stop_application w)"
    unfolding stop_application_def stop_process_def
    by (rule ends_then [OF ends_stop_child]) (simp add: runs_def log_def tidy_one)
qed

lemma tidy_build: "runs tidy (build_project w crate deps project env)"
  unfolding build_project_def by (intro tidy_rules tidy_deeds) simp_all

lemma tidy_check: "runs tidy (check_rust_library w crate python minimal sdk)"
  unfolding check_rust_library_def Let_def by (intro tidy_rules tidy_build tidy_application)

text \<open>The block of the private directory, with the token it made.\<close>

lemma check_rust_shape:
  assumes "check_rust_library w crate python minimal sdk [] = Some (g, r)"
  shows "g = [] \<or> (\<exists>tok d k. g = [Made_dir d] @ k @ [Removed_dir d] \<and> (\<forall>x \<in> set k. contained w tok x))"
  using assms unfolding check_rust_library_def Let_def
proof (cases rule: give_cases)
  case (2 deps)
  let ?d = "private_dir w []"
  let ?target = "resolved w (root_dir w) (case dget (variables w) ''CARGO_TARGET_DIR'' of Some d \<Rightarrow> d | None \<Rightarrow> ''target'')"
  let ?env = "dset (variables w) ''CARGO_TARGET_DIR'' ?target"
  let ?build = "build_project w (resolved w crate []) deps ?d ?env"
  let ?app = "\<lambda>tok. tbind (spawn w [child_path ?target ''debug/ai-protocol-library-consumer'']
      (dset (dset ?env ''NATIVE_AGENT_TOKEN'' tok) ''NATIVE_LISTEN_ADDR'' ''127.0.0.1:0''))
      (\<lambda>p. tfinally (with_application w python minimal sdk
        (dset (dset ?env ''NATIVE_AGENT_TOKEN'' tok) ''NATIVE_LISTEN_ADDR'' ''127.0.0.1:0'') tok p) (stop_application w p))"
  from in_private_dir_out [OF 2(2)] obtain k where
    k: "tbind ?build (\<lambda>_. tbind (ask (\<lambda>h. Inr (fresh_token w h ''NATIVE_AGENT_TOKEN''))) ?app) [Made_dir ?d] = Some (k, r)"
    "g = k @ [Removed_dir ?d]" by auto
  have app: "runs (grows (\<lambda>_. contained w tok)) (?app tok)" for tok
    unfolding stop_application_def stop_process_def
    by (intro grow.runs_bind grow.runs_finally grows_application grows_stop_child contained_quietly grows_log)
       (auto simp: runs_def spawn_def dict_simps grows.stays intro!: grows_one split: sum.splits)
  from k(1) have "\<exists>tok j. k = [Made_dir ?d] @ j \<and> (\<forall>x \<in> set j. contained w tok x)"
  proof (cases rule: tbind_cases)
    case (1 e)
    from grows_permitted [OF grows_build 1(1)] show ?thesis by blast
  next
    case (2 j u)
    let ?tok = "fresh_token w j ''NATIVE_AGENT_TOKEN''"
    from grows_permitted [OF grows_build 2(1), of ?tok] obtain i where
      "j = [Made_dir ?d] @ i" "\<forall>x \<in> set i. contained w ?tok x" by blast
    moreover from grows_permitted [OF app [of ?tok], of j k r] 2(2) obtain i' where
      "k = j @ i'" "\<forall>x \<in> set i'. contained w ?tok x" by (auto simp: ask_bind)
    ultimately show ?thesis by (intro exI [of _ ?tok] exI [of _ "i @ i'"]) auto
  qed
  with k(2) show ?thesis by force
qed simp


subsection \<open>What a returning check has seen\<close>

definition serves_documents :: "rust_host \<Rightarrow> string \<Rightarrow> bool" where
  "serves_documents w origin \<longleftrightarrow>
     (\<exists>h policy operation j found k final.
        opened w h (origin @ ''/agent-policy'') None = Inr policy \<and>
        subscript policy ''service_id'' = Inr (JStr ''documents'') \<and>
        (\<exists>v. subscript policy ''version'' = Inr v \<and> py_eq v (JInt 3)) \<and>
        rbind (subscript policy ''operations'') first_item = Inr operation \<and>
        subscript operation ''name'' = Inr (JStr ''find_documents'') \<and>
        opened w j (origin @ ''/documents/find'') (Some (JDict [(''query'', JStr ''rust'')])) = Inr found \<and>
        py_eq found documents_found \<and>
        opened w k (origin @ ''/agent-policy'') None = Inr final \<and>
        (\<exists>n. subscript final ''outstanding'' = Inr n \<and> py_eq n (JInt 0)))"

lemma check_field_Inr: "check_field v e h = Some (g, Inr u) \<longleftrightarrow> (\<exists>x. v = Inr x \<and> py_eq x e) \<and> g = h"
  by (auto simp: check_field_def bind_Inr give_Inr check_Inr)

lemma open_json_Inr: "open_json w tok origin path body h = Some (g, Inr v) \<Longrightarrow> opened w h (origin @ path) body = Inr v"
  by (simp add: open_json_def Let_def)

lemma direct_checks_Inr:
  assumes "direct_checks w tok origin h = Some (g, Inr u)"
  shows "serves_documents w origin"
proof -
  obtain k1 policy k2 found k3 final where
    o: "open_json w tok origin ''/agent-policy'' None h = Some (k1, Inr policy)"
      "open_json w tok origin ''/documents/find'' (Some (JDict [(''query'', JStr ''rust'')])) k1 = Some (k2, Inr found)"
      "open_json w tok origin ''/agent-policy'' None k2 = Some (k3, Inr final)"
    and c: "subscript policy ''service_id'' = Inr (JStr ''documents'')"
      "\<exists>v. subscript policy ''version'' = Inr v \<and> py_eq v (JInt 3)"
      "rbind (rbind (subscript policy ''operations'') first_item) (\<lambda>op. subscript op ''name'') = Inr (JStr ''find_documents'')"
      "py_eq found documents_found" "\<exists>n. subscript final ''outstanding'' = Inr n \<and> py_eq n (JInt 0)"
    using assms unfolding direct_checks_def bind_Inr check_field_Inr check_Inr py_eq_JStr by blast
  from c(3) obtain op where "rbind (subscript policy ''operations'') first_item = Inr op"
      "subscript op ''name'' = Inr (JStr ''find_documents'')" by (auto simp: rbind_Inr_iff)
  with c o [THEN open_json_Inr] show ?thesis unfolding serves_documents_def by blast
qed

lemma with_application_Inr:
  assumes "with_application w python minimal sdk env tok p h = Some (g, Inr u)"
  shows "\<exists>origin k m. announced w origin \<and> serves_documents w origin \<and>
    run_ends w k [python, ''-I'', ''-c'', sdk] = Inr () \<and>
    g = h @ m @ [Waited p 10 (Some 0)] \<and> Ran [python, ''-I'', ''-c'', sdk] (sdk_environment w env origin tok minimal) \<in> set m"
proof -
  obtain origin k1 k2 k3 k4 c where a: "announced_origin w p h = Some (k1, Inr origin)"
    "direct_checks w tok origin k1 = Some (k2, Inr ())"
    "run_checked w [python, ''-I'', ''-c'', sdk] (sdk_environment w env origin tok minimal) k2 = Some (k3, Inr ())"
    "send_signal w p SIGINT k3 = Some (k4, Inr ())" "wait_for w p 10 k4 = Some (g, Inr c)" "c = 0"
    using assms unfolding with_application_def by (auto simp: bind_Inr check_Inr)
  from a(3) have r: "k3 = k2 @ [Ran [python, ''-I'', ''-c'', sdk] (sdk_environment w env origin tok minimal)]"
    "run_ends w k2 [python, ''-I'', ''-c'', sdk] = Inr ()" by (simp_all add: run_checked_def)
  have "runs (grows (\<lambda>_ _. True)) (send_signal w p SIGINT)" by (rule grows_send_signal) (simp add: quietly_def)
  from runsD [OF this a(4)] obtain z where "k4 = k3 @ z" by (blast dest: grows_extends)
  moreover from grows_permitted [OF grows_announced a(1)] obtain y where "k1 = h @ y" by blast
  moreover from grows_permitted [OF grows_direct_checks a(2)] origin_announced [OF a(1)] obtain x where "k2 = k1 @ x" by blast
  moreover have "g = k4 @ [Waited p 10 (Some 0)]"
    using a(5,6) by (auto simp: wait_for_def Let_def split: option.splits)
  moreover have "announced w origin" using origin_announced [OF a(1), of "[]"] by simp
  ultimately show ?thesis using direct_checks_Inr [OF a(2)] r
    by (intro exI [of _ origin] exI [of _ k2]
        exI [of _ "y @ x @ Ran [python, ''-I'', ''-c'', sdk] (sdk_environment w env origin tok minimal) # z"]) simp
qed

abbreviation cargo_build :: "string \<Rightarrow> string list" where
  "cargo_build project \<equiv> [''cargo'', ''build'', ''--offline'', ''--manifest-path'', child_path project ''Cargo.toml'']"

definition target_env :: "rust_host \<Rightarrow> (string, string) dict" where
  "target_env w = dset (variables w) ''CARGO_TARGET_DIR'' (resolved w (root_dir w)
     (case dget (variables w) ''CARGO_TARGET_DIR'' of Some d \<Rightarrow> d | None \<Rightarrow> ''target''))"

text \<open>A returning run: the build, the start of the application and its block, and what comes after.\<close>

lemma check_rust_run:
  assumes "check_rust_library w crate python minimal sdk [] = Some (g, Inr ())"
  obtains d a command env tok k y where "run_ends w a (cargo_build d) = Inr ()"
    "with_application w python minimal sdk env tok (started_in (a @ [Ran (cargo_build d) (target_env w)]))
       ((a @ [Ran (cargo_build d) (target_env w)]) @ [Started (started_in (a @ [Ran (cargo_build d) (target_env w)])) command env]) =
       Some (k, Inr ())"
    "g = k @ y"
proof -
  let ?target = "resolved w (root_dir w) (case dget (variables w) ''CARGO_TARGET_DIR'' of Some d \<Rightarrow> d | None \<Rightarrow> ''target'')"
  let ?env = "dset (variables w) ''CARGO_TARGET_DIR'' ?target" and ?d = "private_dir w []"
  let ?env2 = "\<lambda>tok. dset (dset ?env ''NATIVE_AGENT_TOKEN'' tok) ''NATIVE_LISTEN_ADDR'' ''127.0.0.1:0''"
  let ?command = "[child_path ?target ''debug/ai-protocol-library-consumer'']"
  let ?app = "\<lambda>tok. tbind (spawn w ?command (?env2 tok))
      (\<lambda>p. tfinally (with_application w python minimal sdk (?env2 tok) tok p) (stop_application w p))"
  obtain deps where d: "in_private_dir w (\<lambda>project. tbind (build_project w (resolved w crate []) deps project ?env) (\<lambda>_.
      tbind (ask (\<lambda>h. Inr (fresh_token w h ''NATIVE_AGENT_TOKEN''))) ?app)) [] = Some (g, Inr ())"
    using assms unfolding check_rust_library_def Let_def bind_Inr give_Inr by blast
  from in_private_dir_out [OF d] obtain i where i: "g = i @ [Removed_dir ?d]"
    "tbind (build_project w (resolved w crate []) deps ?d ?env) (\<lambda>_.
      tbind (ask (\<lambda>h. Inr (fresh_token w h ''NATIVE_AGENT_TOKEN''))) ?app) ([] @ [Made_dir ?d]) = Some (i, Inr ())"
    by blast
  from i(2) obtain b tok where b: "build_project w (resolved w crate []) deps ?d ?env ([] @ [Made_dir ?d]) = Some (b, Inr ())"
    and s: "?app tok b = Some (i, Inr ())"
    unfolding bind_Inr [of "build_project w (resolved w crate []) deps ?d ?env"] ask_bind by auto
  from b obtain a where a: "b = a @ [Ran (cargo_build ?d) ?env]" "run_ends w a (cargo_build ?d) = Inr ()"
    unfolding build_project_def bind_Inr by (auto simp: run_checked_def)
  let ?p = "started_in b" and ?b = "b @ [Started (started_in b) ?command (?env2 tok)]"
  from s obtain k z where k: "with_application w python minimal sdk (?env2 tok) tok ?p ?b = Some (k, Inr ())"
    "stop_application w ?p k = Some (i, z)"
    by (auto simp: tbind_def [of "spawn w ?command (?env2 tok)"] spawn_def tfinally_def split: option.splits prod.splits sum.splits)
  have "runs (grows (\<lambda>_ _. True)) (stop_application w ?p)"
    unfolding stop_application_def stop_process_def
    by (intro grow.runs_bind grows_stop_child grows_log) (simp_all add: quietly_def)
  from runsD [OF this k(2)] obtain y where "i = k @ y" by (blast dest: grows_extends)
  with that [OF a(2) k(1) [unfolded a(1), folded target_env_def]] i(1) show thesis by simp
qed

text \<open>
  A library check that returns has shown the public interface at work: the project was
  built before the application started; the application announced its address and served there
  discovery, the operation \<^verbatim>\<open>find_documents\<close> with the expected answer and no outstanding call; the
  installed SDK passed its own check against that address; and the application then ended with exit
  code 0.
\<close>

theorem rust_check_success:
  assumes "check_rust_library w crate python minimal sdk [] = Some (g, Inr ())"
  shows "\<exists>project p origin env before middle after h k.
    g = before @ [Ran (cargo_build project) (target_env w)] @ middle @ [Waited p 10 (Some 0)] @ after \<and>
    run_ends w h (cargo_build project) = Inr () \<and>
    (\<exists>command e. Started p command e \<in> set middle) \<and> announced w origin \<and> serves_documents w origin \<and>
    Ran [python, ''-I'', ''-c'', sdk] env \<in> set middle \<and> dget env ''SERVICE_URL'' = Some origin \<and>
    run_ends w k [python, ''-I'', ''-c'', sdk] = Inr ()"
proof -
  obtain d a command env tok k y where r: "run_ends w a (cargo_build d) = Inr ()"
    "with_application w python minimal sdk env tok (started_in (a @ [Ran (cargo_build d) (target_env w)]))
       ((a @ [Ran (cargo_build d) (target_env w)]) @ [Started (started_in (a @ [Ran (cargo_build d) (target_env w)])) command env]) =
       Some (k, Inr ())"
    "g = k @ y"
    by (rule check_rust_run [OF assms])
  let ?p = "started_in (a @ [Ran (cargo_build d) (target_env w)])"
  from with_application_Inr [OF r(2)] obtain origin j m where
    o: "announced w origin" "serves_documents w origin" "run_ends w j [python, ''-I'', ''-c'', sdk] = Inr ()"
      "k = ((a @ [Ran (cargo_build d) (target_env w)]) @ [Started ?p command env]) @ m @ [Waited ?p 10 (Some 0)]"
      "Ran [python, ''-I'', ''-c'', sdk] (sdk_environment w env origin tok minimal) \<in> set m" by blast
  have e: "dget (sdk_environment w env origin tok minimal) ''SERVICE_URL'' = Some origin"
    by (simp add: sdk_environment_def dict_simps)
  have g: "g = a @ [Ran (cargo_build d) (target_env w)] @ (Started ?p command env # m) @ [Waited ?p 10 (Some 0)] @ y"
    using r(3) o(4) by simp
  show ?thesis
    by (rule exI [of _ d], rule exI [of _ ?p], rule exI [of _ origin],
        rule exI [of _ "sdk_environment w env origin tok minimal"], rule exI [of _ a],
        rule exI [of _ "Started ?p command env # m"], rule exI [of _ y],
        rule exI [of _ a], rule exI [of _ j], intro conjI g r(1) o(1,2,3) e)
       (use o(5) in auto)
qed

subsection \<open>A sample check\<close>

definition sample_rust_host :: rust_host where
  "sample_rust_host =
     \<lparr>variables = [(''PATH'', ''/bin'')], interpreter = ''python'', root_dir = ''/r'', private_dir = (\<lambda>_. ''/tmp/p''),
      fresh_token = (\<lambda>_ _. ''t''), bind_any = (\<lambda>_. Inl OSError), popen = (\<lambda>_ _. Inr ()), os_status = (\<lambda>_ _. None),
      os_wait = (\<lambda>_ _ _. Some 0), os_reap = (\<lambda>_ _. Some 0), clock = (\<lambda>_. 0), nap = (\<lambda>_. Inr ()),
      fetch = (\<lambda>_ _ _. Inl HTTPError), path_exists = (\<lambda>_ _. False), save = (\<lambda>_ _. Inr ()),
      resolved = (\<lambda>d p. d @ p),
      read_toml = (\<lambda>_. Inr (JDict [(''dependencies'', JDict [(''axum'', JStr ''1''), (''serde'', JDict [(''version'', JStr ''1'')]),
        (''serde_json'', JStr ''1''), (''tokio'', JStr ''1'')])])),
      copy_ends = (\<lambda>_ _ _. Inr ()), run_ends = (\<lambda>_ _. Inr ()), readable = (\<lambda>_ _. True),
      output_line = (\<lambda>_ _. ready_prefix @ ''h''),
      opened = (\<lambda>_ _ body. Inr (case body of None \<Rightarrow> JDict [(''service_id'', JStr ''documents''), (''version'', JInt 3),
        (''operations'', JList [JDict [(''name'', JStr ''find_documents'')]]), (''outstanding'', JInt 0)]
        | Some _ \<Rightarrow> documents_found)),
      float_text = (\<lambda>_. [])\<rparr>"

lemma sample_rust_check:
  "map_option (\<lambda>(g, r). (r, started_in g)) (check_rust_library sample_rust_host ''c'' ''python'' False ''s'' []) = Some (Inr (), 1)"
  by code_simp

lemma sample_rust_run: "\<exists>g. check_rust_library sample_rust_host ''c'' ''python'' False ''s'' [] = Some (g, Inr ()) \<and> started_in g = 1"
  using sample_rust_check by auto


theorem rust_check_success_witness:
  "\<exists>origin. announced sample_rust_host origin \<and> serves_documents sample_rust_host origin"
proof -
  obtain g where g: "check_rust_library sample_rust_host ''c'' ''python'' False ''s'' [] = Some (g, Inr ())"
    using sample_rust_run by blast
  from rust_check_success [OF g] show ?thesis by (elim exE conjE) (rule exI, rule conjI)
qed

end
