(* ===== verification/Operations_Check.thy ===== *)
theory Operations_Check
  imports Quickstart Packages
begin

text \<open>
  \<^verbatim>\<open>scripts/check_operations.py\<close>: a standalone gateway refuses a wrong service file without showing its
  token, drains an active request on \<^verbatim>\<open>SIGTERM\<close>, and gives up on it when the grace period is over. The
  gateway processes answer as the \<open>ops_host\<close>; the script's own upstream is \<open>upstream_GET\<close>, and what it
  does to its events, its server and its pool is in the history (\<open>Did\<close>).

  Shown: however the check ends, its gateways have ended, the upstream is closed, and every process and
  request got the settings and the token it needs and nothing else; and the order of events that a
  returning check has gone through.
\<close>

record ops_host = host +
  refused_gateway :: "history \<Rightarrow> string list \<Rightarrow> (string, string) dict \<Rightarrow> (int \<times> string) result"
  gateway_ready :: "history \<Rightarrow> nat \<Rightarrow> bool"
  gateway_line :: "history \<Rightarrow> nat \<Rightarrow> string"
  upstream_started :: "history \<Rightarrow> bool"
  post_result :: "history \<Rightarrow> response result"
  gateway_errors :: "history \<Rightarrow> nat \<Rightarrow> string result"
  loads :: "string \<Rightarrow> json result"

subsection \<open>Text\<close>

text \<open>\<^verbatim>\<open>str.splitlines\<close>.\<close>

definition line_end :: "char \<Rightarrow> bool" where
  "line_end c \<longleftrightarrow> (let n = (of_char c :: nat) in 10 \<le> n \<and> n \<le> 13 \<or> 28 \<le> n \<and> n \<le> 30 \<or> n = 133)"

fun split_lines :: "string \<Rightarrow> string \<Rightarrow> string list" where
  "split_lines acc [] = (if acc = [] then [] else [rev acc])"
| "split_lines acc (c # cs) =
     (if c = CHR 0x0D \<and> take 1 cs = [CHR 0x0A] then rev acc # split_lines [] (tl cs)
      else if line_end c then rev acc # split_lines [] cs
      else split_lines (c # acc) cs)"

definition log_lines :: "string \<Rightarrow> string list" where
  "log_lines s = split_lines [] s"

text \<open>\<^verbatim>\<open>s.split(sep)[1]\<close> and \<^verbatim>\<open>s.split()[0]\<close>.\<close>

definition second_part :: "string \<Rightarrow> string \<Rightarrow> string result" where
  "second_part sep s =
     (case cut sep s of
        None \<Rightarrow> Inl IndexError
      | Some (_, rest) \<Rightarrow> Inr (case cut sep rest of None \<Rightarrow> rest | Some (part, _) \<Rightarrow> part))"

definition first_word :: "string \<Rightarrow> string result" where
  "first_word s =
     (let t = dropWhile py_space s in if t = [] then Inl IndexError else Inr (takeWhile (\<lambda>c. \<not> py_space c) t))"

subsection \<open>The upstream\<close>

datatype upstream_act =
    Set_started
  | Wait_release nat
  | Sent_status int
  | Sent_header string string
  | Ended_headers
  | Wrote string

definition client_gone :: "exn \<Rightarrow> bool" where
  "client_gone e \<longleftrightarrow> e = OtherError ''BrokenPipeError'' \<or> e = OtherError ''ConnectionResetError''"

text \<open>\<open>flush\<close> and \<open>write\<close> are the outcomes of the two writes to the connection.\<close>

definition upstream_GET :: "unit result \<Rightarrow> unit result \<Rightarrow> upstream_act list \<times> unit result" where
  "upstream_GET flush write =
     (let body = CHR ''{'' # quote ''ok'' @ '':true}'';
          acts = [Set_started, Wait_release 5, Sent_status 200, Sent_header ''Content-Length'' (nat_str (length body)), Ended_headers]
      in case flush of
           Inl e \<Rightarrow> (acts, Inl e)
         | Inr _ \<Rightarrow>
             (acts @ [Wrote body],
              case write of Inl e \<Rightarrow> if client_gone e then Inr () else Inl e | Inr _ \<Rightarrow> Inr ()))"

definition start_upstream :: "'w host_scheme \<Rightarrow> int task" where
  "start_upstream w =
     tbind (free_port w) (\<lambda>port. tbind (did ''upstream.serve_forever'') (\<lambda>_. give (Inr port)))"

definition stop_upstream :: "unit task" where
  "stop_upstream =
     tbind (did ''release.set'') (\<lambda>_.
     tbind (did ''upstream.shutdown'') (\<lambda>_.
     tbind (did ''upstream.server_close'') (\<lambda>_.
     did ''thread.join'')))"

subsection \<open>Settings\<close>

definition ops_manifest :: "int \<Rightarrow> json" where
  "ops_manifest version =
     JDict [(''format_version'', JInt version), (''service_id'', JStr ''operations_check''),
       (''operations'', JList [JDict
          [(''name'', JStr ''read''), (''description'', JStr ''Read a fixture''), (''path'', JStr ''/records''),
           (''upstream_path'', JStr ''/records''),
           (''parameters'', JDict [(''query'', JDict [(''type'', JStr ''string''), (''upstream'', JStr ''q'')])])]]),
       (''credentials'', JList [JDict
          [(''token_env'', JStr ''READER_TOKEN''), (''required'', JBool True), (''principal_id'', JStr ''reader''),
           (''client_class'', JStr ''agent''), (''operations'', JList [JStr ''read'']), (''max_outstanding'', JInt 2)]])]"

definition ops_environment :: "'w host_scheme \<Rightarrow> string \<Rightarrow> string \<Rightarrow> int \<Rightarrow> (string, string) dict result" where
  "ops_environment w tok manifest port =
     (case dget (variables w) ''PATH'' of
        None \<Rightarrow> Inl (KeyError ''PATH'')
      | Some path \<Rightarrow>
          rbind (int_str port) (\<lambda>port.
          Inr [(''PATH'', path), (''READER_TOKEN'', tok), (''SERVICE_CONFIG'', manifest),
            (''UPSTREAM_URL'', ''http://127.0.0.1:'' @ port), (''GATEWAY_LISTEN_ADDR'', ''127.0.0.1:0''),
            (''GATEWAY_LOG_REQUESTS'', ''true'')]))"

definition save_manifest :: "'w host_scheme \<Rightarrow> string \<Rightarrow> int \<Rightarrow> unit task" where
  "save_manifest w manifest version =
     tbind (give (dumps (\<lambda>_. []) (ops_manifest version))) (save_file w manifest)"

subsection \<open>The refused configuration\<close>

definition refused_run :: "ops_host \<Rightarrow> (string, string) dict \<Rightarrow> (int \<times> string) task" where
  "refused_run w env h =
     Some (h @ [Ran (binary w ''ai-protocol'') env], refused_gateway w h (binary w ''ai-protocol'') env)"

definition check_refused :: "ops_host \<Rightarrow> string \<Rightarrow> (string, string) dict \<Rightarrow> unit task" where
  "check_refused w tok env =
     tbind (refused_run w env) (\<lambda>(code, errors).
     tbind (check (code = 1 \<and> contains_text errors ''format_version'') []) (\<lambda>_.
     check (\<not> contains_text errors tok) []))"

subsection \<open>One round\<close>

definition listening_at :: "ops_host \<Rightarrow> nat \<Rightarrow> string task" where
  "listening_at w p =
     tbind (\<lambda>h. Some (h @ [Selected p 10],
        if gateway_ready w h p then Inr () else Inl (AssertionError ''Gateway startup timed out''))) (\<lambda>_.
     tbind (\<lambda>h. Some (h @ [Read_line p], Inr (gateway_line w h p))) (\<lambda>line.
     tbind (give (rbind (rbind (second_part ''port '' line) first_word) py_int)) (\<lambda>port.
     give (int_str port))))"

definition private_input :: string where
  "private_input = ''private-request-input''"

text \<open>\<^verbatim>\<open>pool.submit(http.post, ...)\<close>, and \<^verbatim>\<open>result.result(timeout=5)\<close>.\<close>

definition submit_post :: "string \<Rightarrow> string \<Rightarrow> unit task" where
  "submit_post tok port =
     log (Called (''Bearer '' @ tok) (''http://127.0.0.1:'' @ port @ ''/records'')
       (JDict [(''query'', JStr private_input)])) (Inr ())"

definition await_result :: "ops_host \<Rightarrow> response task" where
  "await_result w h = Some (h @ [Did ''result.result''], post_result w h)"

definition await_started :: "ops_host \<Rightarrow> bool task" where
  "await_started w h = Some (h @ [Did ''started.wait''], Inr (upstream_started w h))"

definition expect_drained :: "ops_host \<Rightarrow> nat \<Rightarrow> unit task" where
  "expect_drained w p =
     tbind (did ''release.set'') (\<lambda>_.
     tbind (await_result w) (\<lambda>response.
     tbind (give (response_json response)) (\<lambda>body.
     tbind (check (py_eq body (JDict [(''ok'', JBool True)])) []) (\<lambda>_.
     tbind (wait_for w p 5) (\<lambda>code. check (code = 0) [])))))"

definition expect_expired :: "ops_host \<Rightarrow> nat \<Rightarrow> rat \<Rightarrow> unit task" where
  "expect_expired w p before =
     tbind (wait_for w p 3) (\<lambda>code.
     tbind (check (code = 1) []) (\<lambda>_.
     tbind (ask (\<lambda>h. Inr (clock w h))) (\<lambda>now.
     tbind (check (now - before < 3) []) (\<lambda>_.
     texcept (tbind (await_result w) (\<lambda>_. give (Inr ()))) (\<lambda>e. e = HTTPError) (give (Inr ()))))))"

definition interrupted_call :: "ops_host \<Rightarrow> string \<Rightarrow> nat \<Rightarrow> string \<Rightarrow> bool \<Rightarrow> unit task" where
  "interrupted_call w tok p port graceful =
     tfinally
       (tbind (submit_post tok port) (\<lambda>_.
        tbind (await_started w) (\<lambda>started.
        tbind (check started ''Upstream execution did not start'') (\<lambda>_.
        tbind (ask (\<lambda>h. Inr (clock w h))) (\<lambda>before.
        tbind (send_signal w p SIGTERM) (\<lambda>_.
        if graceful then expect_drained w p else expect_expired w p before))))))
       (did ''pool.shutdown, http.close'')"

definition check_errors :: "ops_host \<Rightarrow> string \<Rightarrow> nat \<Rightarrow> unit task" where
  "check_errors w tok p =
     tbind (\<lambda>h. Some (h @ [Read_errors p], gateway_errors w h p)) (\<lambda>output.
     tbind (check (\<not> contains_text output tok \<and> \<not> contains_text output private_input) []) (\<lambda>_.
     teach (\<lambda>line. tbind (give (loads w line)) (\<lambda>v. check (as_dict v \<noteq> None) [])) (log_lines output)))"

definition stop_gateway :: "'w host_scheme \<Rightarrow> nat \<Rightarrow> unit task" where
  "stop_gateway w p =
     tbind (did ''release.set'') (\<lambda>_.
     tbind (poll w p) (\<lambda>r.
     tbind (if r = None then tbind (send_signal w p SIGKILL) (\<lambda>_. wait_ended w p) else give (Inr ())) (\<lambda>_.
     tbind (log (Closed_output p) (Inr ())) (\<lambda>_.
     log (Closed_output p) (Inr ())))))"

definition gateway_round :: "ops_host \<Rightarrow> string \<Rightarrow> (string, string) dict \<Rightarrow> int \<times> bool \<Rightarrow> unit task" where
  "gateway_round w tok env = (\<lambda>(grace, graceful).
     tbind (did ''started.clear'') (\<lambda>_.
     tbind (did ''release.clear'') (\<lambda>_.
     tbind (give (int_str grace)) (\<lambda>grace.
     tbind (spawn w (binary w ''ai-protocol'') (merge env [(''GATEWAY_SHUTDOWN_GRACE_MS'', grace)])) (\<lambda>p.
     tfinally
       (tbind (listening_at w p) (\<lambda>port.
        tbind (interrupted_call w tok p port graceful) (\<lambda>_.
        check_errors w tok p)))
       (stop_gateway w p))))))"

definition check_rounds :: "ops_host \<Rightarrow> string \<Rightarrow> int \<Rightarrow> string \<Rightarrow> unit task" where
  "check_rounds w tok port directory =
     (let manifest = child_path directory ''service.json''
      in tbind (give (ops_environment w tok manifest port)) (\<lambda>env.
         tbind (save_manifest w manifest 2) (\<lambda>_.
         tbind (check_refused w tok env) (\<lambda>_.
         tbind (save_manifest w manifest 1) (\<lambda>_.
         teach (gateway_round w tok env) [(3000, True), (30, False)])))))"

definition check_operations :: "ops_host \<Rightarrow> unit task" where
  "check_operations w =
     tbind (ask (\<lambda>h. Inr (fresh_token w h ''READER_TOKEN''))) (\<lambda>tok.
     tbind (start_upstream w) (\<lambda>port.
     tfinally (in_private_dir w (check_rounds w tok port)) stop_upstream))"

end
