(* ===== verification/Operations_Props.thy ===== *)
theory Operations_Props
  imports Operations_Check
begin

text \<open>
  What the operations check guarantees: it leaves no gateway and no upstream behind and shares its
  token with the gateways alone (\<open>operations_contained\<close>); and a returning check has gone through
  the refusal, the drain and the expiry (\<open>operations_success\<close>).
\<close>

subsection \<open>The gateways are stopped\<close>

lemma ends_stop_gateway: "ends (stop_gateway w)"
  unfolding ends_def
proof (intro allI impI)
  fix p h g r
  assume s: "stop_gateway w p h = Some (g, r)" and p: "p < started_in h"
  let ?h = "h @ [Did ''release.set'']"
  from s have "tbind (poll w p) (\<lambda>r.
     tbind (if r = None then tbind (send_signal w p SIGKILL) (\<lambda>_. wait_ended w p) else give (Inr ())) (\<lambda>_.
     tbind (log (Closed_output p) (Inr ())) (\<lambda>_. log (Closed_output p) (Inr ())))) ?h = Some (g, r)"
    by (simp add: stop_gateway_def log_bind)
  then obtain k c where k: "k = ?h @ [Polled p c]" "returncode k p = c"
    and rest: "tbind (if c = None then tbind (send_signal w p SIGKILL) (\<lambda>_. wait_ended w p) else give (Inr ())) (\<lambda>_.
     tbind (log (Closed_output p) (Inr ())) (\<lambda>_. log (Closed_output p) (Inr ()))) k = Some (g, r)"
    by (cases rule: tbind_cases) (auto dest!: poll_out)
  from rest obtain j x where
    j: "(if c = None then tbind (send_signal w p SIGKILL) (\<lambda>_. wait_ended w p) else give (Inr ())) k = Some (j, x)"
    and g: "x = Inr () \<longrightarrow> g = j @ [Closed_output p, Closed_output p]" "x \<noteq> Inr () \<longrightarrow> g = j"
    by (cases rule: tbind_cases) (auto simp: log_bind log_def)
  have h: "tidy h k" "started_in k = started_in h"
  proof -
    have "tidy h ?h" "tidy ?h k" unfolding k(1) by (rule tidy_one; simp)+
    then show "tidy h k" by (rule tidied.trans)
    show "started_in k = started_in h" using k(1) by (simp add: started_in_append)
  qed
  have o: "tidy k j \<and> returncode j p \<noteq> None"
  proof (cases c)
    case None
    then obtain i y where i: "send_signal w p SIGKILL k = Some (i, y)" "tbind (give y) (\<lambda>_. wait_ended w p) i = Some (j, x)"
      using j by (auto simp: tbind_def give_def split: option.splits prod.splits sum.splits)
    have s: "tidy k i" "y = Inr ()" using send_signal_out [OF i(1)] h(2) p by simp_all
    then have e: "wait_ended w p i = Some (j, x)" using i(2) by (simp add: tbind_def give_def)
    then have "returncode j p \<noteq> None" by (auto simp: wait_ended_def returncode_append split: option.splits)
    moreover have "tidy i j" using tidy_wait(2) e by (rule runsD)
    ultimately show ?thesis using s(1) by (auto intro: tidied.trans)
  next
    case (Some y)
    with j k(2) show ?thesis by (simp add: give_def tidied.refl)
  qed
  have "tidy j (j @ [Closed_output p])" "tidy (j @ [Closed_output p]) ((j @ [Closed_output p]) @ [Closed_output p])"
    by (rule tidy_one; simp)+
  then have t: "tidy j g" using g tidied.trans by (cases "x = Inr ()") (auto simp: tidied.refl)
  with o have "returncode g p \<noteq> None" using returncode_mono unfolding tidy_def by blast
  moreover have "tidy h g" using h(1) o t tidied.trans by blast
  ultimately show "tidy h g \<and> returncode g p \<noteq> None" by simp
qed

lemma tidy_steps:
  "runs tidy (\<lambda>h. Some (h @ [Selected p n], q h))" "runs tidy (\<lambda>h. Some (h @ [Read_line p], q h))"
  "runs tidy (\<lambda>h. Some (h @ [Read_errors p], q h))" "runs tidy (await_result w)" "runs tidy (await_started w)"
  "runs tidy (refused_run w env)"
  by (auto simp: runs_def await_result_def await_started_def refused_run_def tidy_one)

lemma tidy_expect: "runs tidy (expect_drained w p)" "runs tidy (expect_expired w p before)"
  unfolding expect_drained_def expect_expired_def by (intro tidy_rules tidy_steps; simp)+

lemma tidy_from_call: "runs (tidy_from p) (interrupted_call w tok p port graceful)"
  unfolding interrupted_call_def submit_post_def
  by (intro owned.runs_finally owned.runs_bind owned.runs_quiet owned.runs_if tidy_from_signal
      tidy_from_tidy [OF tidy_expect(1)] tidy_from_tidy [OF tidy_expect(2)] tidy_from_tidy [OF tidy_steps(5)]
      tidy_from_tidy [OF tidy_log]) simp_all

lemma tidy_listening: "runs tidy (listening_at w p)"
  unfolding listening_at_def by (intro tidy_rules tidy_steps)

lemma tidy_errors: "runs tidy (check_errors w tok p)"
  unfolding check_errors_def by (intro tidy_rules tidy_steps)

lemma tidy_round: "runs tidy (gateway_round w tok env x)"
  unfolding gateway_round_def
  by (intro runs_case_prod tidied.runs_bind tidied.runs_quiet tidy_log tidy_owned owned.runs_bind
      tidy_from_tidy [OF tidy_listening] tidy_from_tidy [OF tidy_errors] tidy_from_call ends_stop_gateway) simp_all

lemma tidy_check_rounds: "runs tidy (check_rounds w tok port d)"
  unfolding check_rounds_def save_manifest_def check_refused_def Let_def
  by (intro runs_case_prod tidy_rules tidy_steps tidy_round)

lemma tidy_operations: "runs tidy (check_operations w)"
  unfolding check_operations_def start_upstream_def stop_upstream_def
  by (intro tidied.runs_finally tidy_rules tidy_check_rounds)
     (simp_all add: runs_def free_port_def tidied.refl tidy_one split: sum.splits)

subsection \<open>Settings and credentials\<close>

text \<open>What a gateway gets: seven variables at most, the path of the operator's environment, the token, the
  private upstream, and a port of its own choice on the loopback interface.\<close>

definition gateway_settings :: "ops_host \<Rightarrow> string \<Rightarrow> (string, string) dict \<Rightarrow> bool" where
  "gateway_settings w tok env \<longleftrightarrow>
     set (dkeys env) \<subseteq> {''PATH'', ''READER_TOKEN'', ''SERVICE_CONFIG'', ''UPSTREAM_URL'', ''GATEWAY_LISTEN_ADDR'',
       ''GATEWAY_LOG_REQUESTS'', ''GATEWAY_SHUTDOWN_GRACE_MS''} \<and>
     dget env ''PATH'' = dget (variables w) ''PATH'' \<and> dget env ''READER_TOKEN'' = Some tok \<and>
     dget env ''GATEWAY_LISTEN_ADDR'' = Some ''127.0.0.1:0'' \<and>
     (\<exists>port. dget env ''UPSTREAM_URL'' = Some (''http://127.0.0.1:'' @ port))"

fun ops_permitted :: "ops_host \<Rightarrow> string \<Rightarrow> deed \<Rightarrow> bool" where
  "ops_permitted w tok (Started p command env) \<longleftrightarrow> command = binary w ''ai-protocol'' \<and> gateway_settings w tok env"
| "ops_permitted w tok (Ran command env) \<longleftrightarrow> command = binary w ''ai-protocol'' \<and> gateway_settings w tok env"
| "ops_permitted w tok (Called credential url body) \<longleftrightarrow>
     credential = ''Bearer '' @ tok \<and> (\<exists>port. url = ''http://127.0.0.1:'' @ port @ ''/records'')"
| "ops_permitted w tok (Saved path content) \<longleftrightarrow> (\<exists>version. dumps (\<lambda>_. []) (ops_manifest version) = Inr content)"
| "ops_permitted w tok (Asked credential url) = False"
| "ops_permitted w tok (Made_dir d) = False"
| "ops_permitted w tok (Removed_dir d) = False"
| "ops_permitted w tok d = True"

lemma ops_quietly: "quietly (\<lambda>_. ops_permitted w tok)"
  unfolding quietly_def
proof (intro allI impI)
  fix d assume "quiet d"
  then show "ops_permitted w tok d" by (cases d) simp_all
qed

lemma settings:
  assumes "ops_environment w tok manifest port = Inr env"
  shows "gateway_settings w tok env" "gateway_settings w tok (merge env [(''GATEWAY_SHUTDOWN_GRACE_MS'', grace)])"
  using assms by (auto simp: ops_environment_def gateway_settings_def merge_def dkeys_def result_simps split: option.splits)

abbreviation ops_runs :: "ops_host \<Rightarrow> string \<Rightarrow> 'a task \<Rightarrow> bool" where
  "ops_runs w tok \<equiv> runs (grows (\<lambda>_. ops_permitted w tok))"

lemma ops_steps:
  "ops_runs w tok (\<lambda>h. Some (h @ [Selected p n], q1 h))" "ops_runs w tok (\<lambda>h. Some (h @ [Read_line p], q2 h))"
  "ops_runs w tok (\<lambda>h. Some (h @ [Read_errors p], q3 h))" "ops_runs w tok (await_result w)" "ops_runs w tok (await_started w)"
  "gateway_settings w tok env \<Longrightarrow> ops_runs w tok (refused_run w env)"
  by (auto simp: runs_def await_result_def await_started_def refused_run_def grows_one)

lemma ops_call: "ops_runs w tok (interrupted_call w tok p port graceful)"
  unfolding interrupted_call_def submit_post_def expect_drained_def expect_expired_def
  by (intro grow.runs_finally grow.runs_bind grow.runs_quiet grow.runs_if grow.runs_except ops_steps
      grows_log grows_wait grows_send_signal ops_quietly) auto

lemma ops_round:
  assumes "ops_environment w tok manifest port = Inr env"
  shows "ops_runs w tok (gateway_round w tok env (grace, graceful))"
proof -
  have spawn: "ops_runs w tok (spawn w (binary w ''ai-protocol'') (merge env [(''GATEWAY_SHUTDOWN_GRACE_MS'', g)]))" for g
    using settings(2) [OF assms] by (auto simp: runs_def spawn_def grows.stays intro!: grows_one split: sum.splits)
  show ?thesis
    unfolding gateway_round_def listening_at_def check_errors_def stop_gateway_def prod.case
    by (intro grow.runs_finally grow.runs_bind grow.runs_quiet grow.runs_if grow.runs_each ops_steps spawn ops_call
        grows_log grows_wait grows_poll grows_send_signal ops_quietly) simp_all
qed

lemma ops_rounds: "ops_runs w tok (check_rounds w tok port d)"
  unfolding check_rounds_def Let_def
proof (rule grow.runs_bind_known)
  show "ops_runs w tok (give (ops_environment w tok (child_path d ''service.json'') port))" by (rule grow.runs_quiet)
  fix env h g assume "give (ops_environment w tok (child_path d ''service.json'') port) h = Some (g, Inr env)"
  then have env: "ops_environment w tok (child_path d ''service.json'') port = Inr env" by (simp add: give_def)
  have save: "ops_runs w tok (save_manifest w path v)" for path v
    unfolding save_manifest_def
  proof (rule grow.runs_bind_known)
    show "ops_runs w tok (give (dumps (\<lambda>_. []) (ops_manifest v)))" by (rule grow.runs_quiet)
    fix content h g assume "give (dumps (\<lambda>_. []) (ops_manifest v)) h = Some (g, Inr content)"
    then show "ops_runs w tok (save_file w path content)" by (intro grows_save_file) (auto simp: give_def)
  qed
  have refused: "ops_runs w tok (check_refused w tok env)"
    unfolding check_refused_def
    by (intro grow.runs_bind ops_steps settings(1) [OF env]) (simp add: case_prod_beta grow.runs_bind grow.runs_quiet)
  show "ops_runs w tok (tbind (save_manifest w (child_path d ''service.json'') 2) (\<lambda>_.
     tbind (check_refused w tok env) (\<lambda>_. tbind (save_manifest w (child_path d ''service.json'') 1) (\<lambda>_.
     teach (gateway_round w tok env) [(3000, True), (30, False)]))))"
    by (intro grow.runs_bind save refused grow.runs_each) (auto intro: ops_round [OF env])
qed

text \<open>The shape of a run: the upstream around the private directory around the rest.\<close>

definition upstream_open :: "int \<Rightarrow> history" where
  "upstream_open port = [Bound_port port, Did ''upstream.serve_forever'']"

definition upstream_closed :: history where
  "upstream_closed = [Did ''release.set'', Did ''upstream.shutdown'', Did ''upstream.server_close'', Did ''thread.join'']"

lemma stop_upstream_out: "stop_upstream h = Some (h @ upstream_closed, Inr ())"
  by (simp add: stop_upstream_def upstream_closed_def log_bind) (simp add: log_def)

lemma check_operations_shape:
  assumes "check_operations w [] = Some (g, r)"
  obtains (unbound) e where "g = []" "r = Inl e"
  | (bound) tok port d k where "tok = fresh_token w [] ''READER_TOKEN''" "d = private_dir w (upstream_open port)"
      "check_rounds w tok port d (upstream_open port @ [Made_dir d]) = Some (k, r)" "g = k @ [Removed_dir d] @ upstream_closed"
proof (cases "bind_any w []")
  case (Inl e)
  then have "start_upstream w [] = Some ([], Inl e)" by (simp add: start_upstream_def free_port_def tbind_def)
  with assms have "g = [] \<and> r = Inl e"
    unfolding check_operations_def ask_bind sum.case by (simp add: tbind_def [of "start_upstream w"])
  then show thesis using unbound by simp
next
  case (Inr port)
  let ?tok = "fresh_token w [] ''READER_TOKEN''" and ?d = "private_dir w (upstream_open port)"
  have s: "start_upstream w [] = Some (upstream_open port, Inr port)"
    using Inr by (simp add: start_upstream_def free_port_def tbind_def log_def give_def upstream_open_def)
  have f: "tfinally (in_private_dir w (check_rounds w ?tok port)) stop_upstream (upstream_open port) = Some (g, r)"
    using assms unfolding check_operations_def ask_bind sum.case bind_known [where m = "start_upstream w", OF s] .
  then obtain k where k: "in_private_dir w (check_rounds w ?tok port) (upstream_open port) = Some (k, r)" "g = k @ upstream_closed"
    by (auto simp: tfinally_def stop_upstream_out split: option.splits prod.splits)
  from in_private_dir_out [OF k(1)] k(2) show thesis using bound [OF refl refl] by auto
qed

text \<open>
  Claim C18. The operations check leaves nothing behind and keeps its token to itself: however it ends,
  every gateway has been seen to end and was signalled only while it was running, the private
  directory was removed, and an upstream that was opened has been released and closed as the last
  thing; every gateway was started with the operator's path, the one fresh token and a loopback port
  of its own choice, and every request carried that token to the loopback interface.
\<close>

theorem operations_contained:
  assumes "check_operations w [] = Some (g, r)"
  shows "(\<forall>p < started_in g. returncode g p \<noteq> None) \<and>
    (\<forall>before p s after. g = before @ Signalled p s # after \<longrightarrow> p < started_in before \<and> returncode before p = None) \<and>
    (\<forall>d. Made_dir d \<in> set g \<longrightarrow> Removed_dir d \<in> set g) \<and>
    (g \<noteq> [] \<longrightarrow> (\<exists>k. g = k @ upstream_closed)) \<and>
    (\<forall>x \<in> set g. (\<forall>d. x \<noteq> Made_dir d \<and> x \<noteq> Removed_dir d) \<longrightarrow> ops_permitted w (fresh_token w [] ''READER_TOKEN'') x)"
proof (intro conjI)
  have t: "tidy [] g" using tidy_operations assms by (rule runsD)
  then show "\<forall>p < started_in g. returncode g p \<noteq> None" by (simp add: tidy_def)
  show "\<forall>before p s after. g = before @ Signalled p s # after \<longrightarrow> p < started_in before \<and> returncode before p = None"
    using t grows_each [of signal_owned "[]" g] unfolding tidy_def by fastforce
  have "(\<forall>d. Made_dir d \<in> set g \<longrightarrow> Removed_dir d \<in> set g) \<and> (g \<noteq> [] \<longrightarrow> (\<exists>k. g = k @ upstream_closed)) \<and>
    (\<forall>x \<in> set g. (\<forall>d. x \<noteq> Made_dir d \<and> x \<noteq> Removed_dir d) \<longrightarrow> ops_permitted w (fresh_token w [] ''READER_TOKEN'') x)"
    using assms
  proof (cases rule: check_operations_shape)
    case (bound tok port d k)
    from grows_permitted [OF ops_rounds bound(3)] obtain j where
      j: "k = upstream_open port @ [Made_dir d] @ j" "\<forall>x \<in> set j. ops_permitted w tok x" by auto
    have g: "g = upstream_open port @ [Made_dir d] @ j @ [Removed_dir d] @ upstream_closed" using bound(4) j(1) by simp
    have "Made_dir e \<notin> set j" for e using j(2) by fastforce
    moreover have "Made_dir e \<notin> set (upstream_open port) \<union> set upstream_closed" for e
      by (simp add: upstream_open_def upstream_closed_def)
    ultimately have m: "Made_dir e \<in> set g \<longrightarrow> e = d" for e unfolding g by auto
    have "ops_permitted w tok x" if "x \<in> set (upstream_open port) \<union> set upstream_closed" for x
      using that by (auto simp: upstream_open_def upstream_closed_def)
    then have "\<forall>x \<in> set g. (\<forall>d. x \<noteq> Made_dir d \<and> x \<noteq> Removed_dir d) \<longrightarrow> ops_permitted w tok x"
      using j(2) unfolding g by auto
    moreover have "Removed_dir d \<in> set g" unfolding g by simp
    ultimately show ?thesis using m g bound(1) by (metis append.assoc)
  qed simp
  then show "\<forall>d. Made_dir d \<in> set g \<longrightarrow> Removed_dir d \<in> set g" "g \<noteq> [] \<longrightarrow> (\<exists>k. g = k @ upstream_closed)"
    "\<forall>x \<in> set g. (\<forall>d. x \<noteq> Made_dir d \<and> x \<noteq> Removed_dir d) \<longrightarrow> ops_permitted w (fresh_token w [] ''READER_TOKEN'') x" by blast+
qed

subsection \<open>What a returning check has seen\<close>

definition asked_to_stop :: "nat \<Rightarrow> int option \<Rightarrow> history" where
  "asked_to_stop p c = Polled p c # (if c = None then [Signalled p SIGTERM] else [])"

definition posted :: "string \<Rightarrow> string \<Rightarrow> deed" where
  "posted tok port =
     Called (''Bearer '' @ tok) (''http://127.0.0.1:'' @ port @ ''/records'') (JDict [(''query'', JStr private_input)])"

text \<open>The gateway let the active request finish, and then ended with 0.\<close>

definition drained :: "ops_host \<Rightarrow> nat \<Rightarrow> history \<Rightarrow> history \<Rightarrow> bool" where
  "drained w p h k \<longleftrightarrow> k = [Did ''release.set'', Did ''result.result'', Waited p 5 (Some 0)] \<and>
     (\<exists>response body. post_result w (h @ [Did ''release.set'']) = Inr response \<and> response_json response = Inr body \<and>
        py_eq body (JDict [(''ok'', JBool True)]))"

text \<open>The request was still held by the upstream, and the gateway ended with 1 within three seconds.\<close>

definition expired :: "ops_host \<Rightarrow> nat \<Rightarrow> rat \<Rightarrow> history \<Rightarrow> history \<Rightarrow> bool" where
  "expired w p before h k \<longleftrightarrow> k = [Waited p 3 (Some 1), Did ''result.result''] \<and>
     clock w (h @ [Waited p 3 (Some 1)]) - before < 3"

definition clean_errors :: "ops_host \<Rightarrow> string \<Rightarrow> nat \<Rightarrow> history \<Rightarrow> bool" where
  "clean_errors w tok p h \<longleftrightarrow>
     (\<exists>errors. gateway_errors w h p = Inr errors \<and> \<not> contains_text errors tok \<and> \<not> contains_text errors private_input \<and>
        (\<forall>line \<in> set (log_lines errors). \<exists>d. loads w line = Inr (JDict d)))"

text \<open>The request had reached the upstream before the gateway was asked to stop.\<close>

definition call_seen :: "ops_host \<Rightarrow> string \<Rightarrow> nat \<Rightarrow> string \<Rightarrow> bool \<Rightarrow> history \<Rightarrow> history \<Rightarrow> bool" where
  "call_seen w tok p port graceful h g \<longleftrightarrow>
     (\<exists>c k. let started = h @ [posted tok port];
                waited = started @ [Did ''started.wait''];
                signalled = waited @ asked_to_stop p c
            in upstream_started w started \<and>
               (if graceful then drained w p signalled k else expired w p (clock w waited) signalled k) \<and>
               g = signalled @ k @ [Did ''pool.shutdown, http.close''])"

definition gateway_start :: "ops_host \<Rightarrow> (string, string) dict \<Rightarrow> string \<Rightarrow> nat \<Rightarrow> history" where
  "gateway_start w env grace p =
     [Did ''started.clear'', Did ''release.clear'',
      Started p (binary w ''ai-protocol'') (merge env [(''GATEWAY_SHUTDOWN_GRACE_MS'', grace)]), Selected p 10, Read_line p]"

definition round_seen ::
  "ops_host \<Rightarrow> string \<Rightarrow> (string, string) dict \<Rightarrow> string \<Rightarrow> bool \<Rightarrow> history \<Rightarrow> history \<Rightarrow> bool" where
  "round_seen w tok env grace graceful h g \<longleftrightarrow>
     (\<exists>p port j after. call_seen w tok p port graceful (h @ gateway_start w env grace p) j \<and>
        clean_errors w tok p j \<and> g = j @ [Read_errors p] @ after)"

lemma teach_Inr: "teach f xs h = Some (g, Inr ()) \<Longrightarrow> (\<And>x k j u. x \<in> set xs \<Longrightarrow> f x k = Some (j, Inr u) \<Longrightarrow> P x) \<Longrightarrow> \<forall>x \<in> set xs. P x"
  by (induction xs arbitrary: h) (auto simp: bind_Inr)

lemma teach_stays: "teach f xs h = Some (g, r) \<Longrightarrow> (\<And>x k j s. f x k = Some (j, s) \<Longrightarrow> j = k) \<Longrightarrow> g = h"
  by (induction xs arbitrary: h) (simp add: give_def, fastforce simp: tbind_Some)

lemma check_errors_Inr:
  assumes "check_errors w tok p h = Some (g, Inr ())"
  shows "clean_errors w tok p h \<and> g = h @ [Read_errors p]"
proof -
  let ?line = "\<lambda>line. tbind (give (loads w line)) (\<lambda>v. check (as_dict v \<noteq> None) [])"
  obtain errors where o: "gateway_errors w h p = Inr errors" "\<not> contains_text errors tok \<and> \<not> contains_text errors private_input"
    and l: "teach ?line (log_lines errors) (h @ [Read_errors p]) = Some (g, Inr ())"
    using assms unfolding check_errors_def bind_Inr check_Inr by auto
  have "\<forall>line \<in> set (log_lines errors). \<exists>d. loads w line = Inr (JDict d)"
  proof (rule teach_Inr [OF l])
    fix line k j u assume "?line line k = Some (j, Inr u)"
    then obtain v where "loads w line = Inr v" "as_dict v \<noteq> None" by (auto simp: bind_Inr give_Inr check_Inr)
    then show "\<exists>d. loads w line = Inr (JDict d)" by (cases v) auto
  qed
  moreover have "g = h @ [Read_errors p]"
    by (rule teach_stays [OF l]) (auto simp: tbind_Some give_def check_def)
  ultimately show ?thesis using o unfolding clean_errors_def by blast
qed

lemma asked_to_stop_known:
  assumes "send_signal w p SIGTERM h = Some (g, Inr ())"
  obtains c where "g = h @ asked_to_stop p c"
  using assms unfolding send_signal_def asked_to_stop_def
  by (auto simp: bind_Inr log_def give_def split: if_splits dest!: poll_out)

lemma finally_did_Inr:
  "tfinally m (did what) h = Some (g, Inr x) \<longleftrightarrow> (\<exists>k. m h = Some (k, Inr x) \<and> g = k @ [Did what])"
  by (auto simp: tfinally_def log_def split: option.splits prod.splits)

lemma wait_for_Inr: "wait_for w p t h = Some (g, Inr c) \<Longrightarrow> g = h @ [Waited p t (Some c)]"
  by (auto simp: wait_for_def Let_def split: option.splits)

lemma expect_drained_Inr: "expect_drained w p h = Some (g, Inr ()) \<Longrightarrow> \<exists>k. drained w p h k \<and> g = h @ k"
  unfolding expect_drained_def log_bind
  by (auto simp: bind_Inr give_Inr check_Inr await_result_def drained_def dest!: wait_for_Inr)

lemma caught_result:
  "texcept (tbind (await_result w) (\<lambda>_. give (Inr ()))) caught (give (Inr ())) h = Some (g, Inr u) \<Longrightarrow> g = h @ [Did ''result.result'']"
  by (auto simp: texcept_def tbind_def await_result_def give_def split: sum.splits if_splits)

lemma expect_expired_Inr: "expect_expired w p before h = Some (g, Inr ()) \<Longrightarrow> \<exists>k. expired w p before h k \<and> g = h @ k"
  unfolding expect_expired_def bind_Inr [of "wait_for w p 3"] check_bind ask_bind
  by (auto simp: expired_def split: if_splits dest!: wait_for_Inr caught_result)

lemma interrupted_call_Inr:
  assumes "interrupted_call w tok p port graceful h = Some (g, Inr ())"
  shows "call_seen w tok p port graceful h g"
proof -
  let ?s = "(h @ [posted tok port]) @ [Did ''started.wait'']"
  have d: "submit_post tok port = log (posted tok port) (Inr ())" by (simp add: submit_post_def posted_def)
  obtain i where g: "g = i @ [Did ''pool.shutdown, http.close'']" and u: "upstream_started w (h @ [posted tok port])"
    and i: "tbind (send_signal w p SIGTERM) (\<lambda>_. if graceful then expect_drained w p else expect_expired w p (clock w ?s)) ?s = Some (i, Inr ())"
    using assms(1) unfolding interrupted_call_def finally_did_Inr d log_bind bind_Inr [of "await_started w"] check_bind ask_bind
    by (auto simp: await_started_def split: if_splits)
  from i obtain j where s: "send_signal w p SIGTERM ?s = Some (j, Inr ())"
    and e: "(if graceful then expect_drained w p else expect_expired w p (clock w ?s)) j = Some (i, Inr ())"
    unfolding bind_Inr by auto
  obtain c where j: "j = ?s @ asked_to_stop p c" by (rule asked_to_stop_known [OF s])
  from e obtain k where k: "if graceful then drained w p j k else expired w p (clock w ?s) j k" "i = j @ k"
    using expect_drained_Inr expect_expired_Inr by (cases graceful) (simp, blast)+
  show ?thesis
    unfolding call_seen_def Let_def
    by (rule exI [of _ c], rule exI [of _ k], intro conjI) (use u k g in \<open>simp_all only: j append.assoc\<close>)
qed

lemma extends_stop_gateway: "stop_gateway w p h = Some (g, r) \<Longrightarrow> \<exists>k. g = h @ k"
proof -
  assume s: "stop_gateway w p h = Some (g, r)"
  have q: "quietly (\<lambda>_ _. True)" by (simp add: quietly_def)
  have "runs (grows (\<lambda>_ _. True)) (stop_gateway w p)"
    unfolding stop_gateway_def
    by (intro grow.runs_bind grow.runs_if grow.runs_quiet grows_poll grows_send_signal grows_wait grows_log q TrueI)
  with s show ?thesis by (blast dest: runsD grows_extends)
qed

lemma gateway_round_Inr:
  assumes "gateway_round w tok env (grace, graceful) h = Some (g, Inr ())" "int_str grace = Inr t"
  shows "round_seen w tok env t graceful h g"
proof -
  let ?h = "h @ [Did ''started.clear'', Did ''release.clear'']"
  let ?cmd = "binary w ''ai-protocol''" and ?env = "merge env [(''GATEWAY_SHUTDOWN_GRACE_MS'', t)]"
  have "tbind (spawn w ?cmd ?env) (\<lambda>p. tfinally (tbind (listening_at w p) (\<lambda>port.
        tbind (interrupted_call w tok p port graceful) (\<lambda>_. check_errors w tok p))) (stop_gateway w p)) ?h = Some (g, Inr ())"
    using assms unfolding gateway_round_def prod.case log_bind by (simp add: bind_give)
  then obtain p k where
    b: "tbind (listening_at w p) (\<lambda>port. tbind (interrupted_call w tok p port graceful) (\<lambda>_. check_errors w tok p))
      (?h @ [Started p ?cmd ?env]) = Some (k, Inr ())"
    and "\<exists>x. stop_gateway w p k = Some (g, x)"
    by (auto simp: bind_Inr spawn_def tfinally_def split: sum.splits option.splits prod.splits)
  then obtain after where g: "g = k @ after" using extends_stop_gateway by blast
  from b obtain i port j where
    l: "listening_at w p (?h @ [Started p ?cmd ?env]) = Some (i, Inr port)"
    and c: "interrupted_call w tok p port graceful i = Some (j, Inr ())" and e: "check_errors w tok p j = Some (k, Inr ())"
    unfolding bind_Inr by auto
  from l have "i = h @ gateway_start w env t p"
    by (auto simp: listening_at_def gateway_start_def bind_Inr give_Inr split: if_splits)
  with interrupted_call_Inr [OF c] check_errors_Inr [OF e] g show ?thesis
    unfolding round_seen_def by (metis append.assoc)
qed

lemma grace_text: "int_str 3000 = Inr ''3000''" "int_str 30 = Inr ''30''"
  by (simp_all add: int_str_def int_max_str_digits_def nat_str.simps char_of_def bit_0)

lemma save_manifest_Inr:
  "save_manifest w path version h = Some (g, Inr ()) \<Longrightarrow>
   \<exists>content. dumps (\<lambda>_. []) (ops_manifest version) = Inr content \<and> g = h @ [Saved path content]"
  unfolding save_manifest_def bind_Inr give_Inr by (force simp: save_file_def split: sum.splits)

lemma check_refused_Inr:
  assumes "check_refused w tok env h = Some (g, Inr ())"
  obtains errors where "refused_gateway w h (binary w ''ai-protocol'') env = Inr (1, errors)"
    "contains_text errors ''format_version''" "\<not> contains_text errors tok" "g = h @ [Ran (binary w ''ai-protocol'') env]"
  using assms unfolding check_refused_def bind_Inr [of "refused_run w env"] check_bind
  by (auto simp: refused_run_def check_Inr split: if_splits)

text \<open>
  Claim C27. An operations check that returns has seen, in this order: the gateway refused the service
  file of the wrong version with exit code 1 and an error that names the field and not the token; then,
  with the right file and three seconds of grace, a gateway that was asked to stop while a request was
  being executed upstream let it finish with the expected answer and ended with 0; then, with thirty
  milliseconds of grace, a gateway whose request stayed unanswered ended with 1 within three seconds.
  What both wrote to their error output is JSON objects without the token and the private input.
\<close>

theorem operations_success:
  assumes "check_operations w [] = Some (g, Inr ())"
  shows "\<exists>d port env wrong right errors h1 h2 h3.
    ops_environment w (fresh_token w [] ''READER_TOKEN'') (child_path d ''service.json'') port = Inr env \<and>
    dumps (\<lambda>_. []) (ops_manifest 2) = Inr wrong \<and> dumps (\<lambda>_. []) (ops_manifest 1) = Inr right \<and>
    h1 = upstream_open port @ [Made_dir d, Saved (child_path d ''service.json'') wrong] \<and>
    refused_gateway w h1 (binary w ''ai-protocol'') env = Inr (1, errors) \<and>
    contains_text errors ''format_version'' \<and> \<not> contains_text errors (fresh_token w [] ''READER_TOKEN'') \<and>
    round_seen w (fresh_token w [] ''READER_TOKEN'') env ''3000'' True
      (h1 @ [Ran (binary w ''ai-protocol'') env, Saved (child_path d ''service.json'') right]) h2 \<and>
    round_seen w (fresh_token w [] ''READER_TOKEN'') env ''30'' False h2 h3 \<and> g = h3 @ [Removed_dir d] @ upstream_closed"
  using assms
proof (cases rule: check_operations_shape)
  case (bound tok port d k)
  let ?path = "child_path d ''service.json''" and ?h = "upstream_open port @ [Made_dir d]"
  obtain env i j l where e: "ops_environment w tok ?path port = Inr env"
    and i: "save_manifest w ?path 2 ?h = Some (i, Inr ())" and j: "check_refused w tok env i = Some (j, Inr ())"
    and l: "save_manifest w ?path 1 j = Some (l, Inr ())"
    and r: "teach (gateway_round w tok env) [(3000, True), (30, False)] l = Some (k, Inr ())"
    using bound(3) unfolding check_rounds_def Let_def bind_Inr give_Inr by auto
  from save_manifest_Inr [OF i] obtain wrong where
    wrong: "dumps (\<lambda>_. []) (ops_manifest 2) = Inr wrong" "i = ?h @ [Saved ?path wrong]" by blast
  from check_refused_Inr [OF j] obtain errors where
    errors: "refused_gateway w i (binary w ''ai-protocol'') env = Inr (1, errors)"
      "contains_text errors ''format_version''" "\<not> contains_text errors tok" "j = i @ [Ran (binary w ''ai-protocol'') env]" .
  from save_manifest_Inr [OF l] obtain right where
    right: "dumps (\<lambda>_. []) (ops_manifest 1) = Inr right" "l = j @ [Saved ?path right]" by blast
  from r obtain m n where m: "gateway_round w tok env (3000, True) l = Some (m, Inr ())"
    and n: "gateway_round w tok env (30, False) m = Some (n, Inr ())" "k = n"
    by (auto simp: bind_Inr give_Inr)
  have s: "round_seen w tok env ''3000'' True (i @ [Ran (binary w ''ai-protocol'') env, Saved ?path right]) m"
    using gateway_round_Inr [OF m grace_text(1)] right(2) errors(4) by simp
  have h: "i = upstream_open port @ [Made_dir d, Saved ?path wrong]" using wrong(2) by simp
  show ?thesis
    unfolding bound(1) [symmetric]
    by (rule exI [of _ d], rule exI [of _ port], rule exI [of _ env], rule exI [of _ wrong],
        rule exI [of _ right], rule exI [of _ errors], rule exI [of _ i], rule exI [of _ m], rule exI [of _ n], intro conjI)
      (fact e wrong(1) right(1) h errors(1,2,3) s gateway_round_Inr [OF n(1) grace_text(2)] bound(4) [unfolded n(2)])+
qed (simp)

subsection \<open>A sample check\<close>

definition sample_ops_host :: ops_host where
  "sample_ops_host =
     \<lparr>variables = [(''PATH'', ''/bin''), (''SERVICE_URL'', ''http://other'')], interpreter = ''python'', root_dir = ''/r'',
      private_dir = (\<lambda>_. ''/tmp/p''), fresh_token = (\<lambda>_ _. ''TOKEN''), bind_any = (\<lambda>_. Inr 7), popen = (\<lambda>_ _. Inr ()),
      os_status = (\<lambda>_ _. None), os_wait = (\<lambda>_ _ seconds. Some (if seconds = 5 then 0 else 1)), os_reap = (\<lambda>_ _. Some 0),
      clock = (\<lambda>_. 0), nap = (\<lambda>_. Inr ()), fetch = (\<lambda>_ _ _. Inl HTTPError), path_exists = (\<lambda>_ _. False),
      save = (\<lambda>_ _. Inr ()),
      refused_gateway = (\<lambda>_ _ _. Inr (1, ''bad format_version'')), gateway_ready = (\<lambda>_ _. True),
      gateway_line = (\<lambda>_ _. ''Listening on port 8 now''), upstream_started = (\<lambda>_. True),
      post_result = (\<lambda>_. Inr \<lparr>status_code = 200, resp_json = Some (JDict [(''ok'', JBool True)]), retry_after = None\<rparr>),
      gateway_errors = (\<lambda>_ _. Inr ''{}''), loads = (\<lambda>_. Inr (JDict []))\<rparr>"

lemma sample_port: "py_int ''8'' = Inr 8" "int_str 8 = Inr ''8''" "int_str 7 = Inr ''7''"
proof -
  have "fullmatch int_rx ''8''" "rstrip_of int_space (dropWhile int_space ''8'') = ''8''" "filter is_digit ''8'' = ''8''"
    "\<not> startswith ''8'' ''-''" by code_simp+
  moreover have "py_int_digits ''8'' = Inr 8"
    by (simp add: py_int_digits_def int_max_str_digits_def digits_val_def digit_val_def)
  ultimately show "py_int ''8'' = Inr 8" by (simp add: py_int_def)
qed (simp_all add: int_str_def int_max_str_digits_def nat_str.simps char_of_def bit_0)

lemma sample_listening: "listening_at sample_ops_host p h = Some (h @ [Selected p 10, Read_line p], Inr ''8'')"
proof -
  have l: "rbind (second_part ''port '' ''Listening on port 8 now'') first_word = Inr ''8''" by code_simp
  show ?thesis
    by (simp add: listening_at_def sample_ops_host_def tbind_def) (simp add: l sample_port give_def)
qed

lemma sample_texts:
  "\<not> contains_text ''{}'' ''TOKEN''" "\<not> contains_text ''{}'' private_input" "log_lines ''{}'' = [''{}'']"
  "contains_text ''bad format_version'' ''format_version''" "\<not> contains_text ''bad format_version'' ''TOKEN''"
  by code_simp+

lemma sample_drained:
  "returncode h p = None \<Longrightarrow>
   interrupted_call sample_ops_host ''TOKEN'' p ''8'' True h = Some (h @ [posted ''TOKEN'' ''8'', Did ''started.wait''] @
     asked_to_stop p None @ [Did ''release.set'', Did ''result.result'', Waited p 5 (Some 0), Did ''pool.shutdown, http.close''], Inr ())"
  by (simp add: interrupted_call_def submit_post_def posted_def await_started_def expect_drained_def await_result_def
      asked_to_stop_def send_signal_def poll_def wait_for_def sample_ops_host_def response_json_def returncode_append
      num_eq_def tfinally_def tbind_def log_def give_def ask_def check_def Let_def)

lemma sample_expired:
  "returncode h p = None \<Longrightarrow>
   interrupted_call sample_ops_host ''TOKEN'' p ''8'' False h = Some (h @ [posted ''TOKEN'' ''8'', Did ''started.wait''] @
     asked_to_stop p None @ [Waited p 3 (Some 1), Did ''result.result'', Did ''pool.shutdown, http.close''], Inr ())"
  by (simp add: interrupted_call_def submit_post_def posted_def await_started_def expect_expired_def await_result_def
      asked_to_stop_def send_signal_def poll_def wait_for_def sample_ops_host_def response_json_def returncode_append
      texcept_def tfinally_def tbind_def log_def give_def ask_def check_def Let_def)

lemma sample_errors: "check_errors sample_ops_host ''TOKEN'' p h = Some (h @ [Read_errors p], Inr ())"
  by (simp add: check_errors_def sample_ops_host_def tbind_def) (simp add: sample_texts check_def give_def tbind_def)

lemma sample_stop:
  assumes "returncode h p = Some c"
  shows "stop_gateway sample_ops_host p h =
    Some (h @ [Did ''release.set'', Polled p (Some c), Closed_output p, Closed_output p], Inr ())"
  using assms by (simp add: stop_gateway_def log_bind poll_def Let_def returncode_append tbind_def [of "poll _ _"] bind_give log_def)

lemma sample_round:
  assumes "\<forall>q. started_in h \<le> q \<longrightarrow> returncode h q = None" "int_str grace = Inr t"
  shows "\<exists>k. gateway_round sample_ops_host ''TOKEN'' env (grace, graceful) h = Some (h @ k, Inr ()) \<and> started_in k = 1 \<and>
    (\<forall>q. started_in (h @ k) \<le> q \<longrightarrow> returncode (h @ k) q = None)"
proof -
  let ?p = "started_in h" and ?cmd = "binary sample_ops_host ''ai-protocol''"
  let ?env = "merge env [(''GATEWAY_SHUTDOWN_GRACE_MS'', t)]"
  let ?pre = "[Did ''started.clear'', Did ''release.clear'']"
  let ?start = "?pre @ [Started ?p ?cmd ?env, Selected ?p 10, Read_line ?p]"
  let ?code = "if graceful then 0 else 1 :: int"
  let ?call = "[posted ''TOKEN'' ''8'', Did ''started.wait''] @ asked_to_stop ?p None @
     (if graceful then [Did ''release.set'', Did ''result.result'', Waited ?p 5 (Some 0), Did ''pool.shutdown, http.close'']
      else [Waited ?p 3 (Some 1), Did ''result.result'', Did ''pool.shutdown, http.close''])"
  let ?stop = "[Did ''release.set'', Polled ?p (Some ?code), Closed_output ?p, Closed_output ?p]"
  let ?body = "h @ ?start @ ?call @ [Read_errors ?p]"
  have r: "returncode h ?p = None" using assms(1) by simp
  have spawn: "spawn sample_ops_host ?cmd ?env (h @ ?pre) = Some (h @ ?pre @ [Started ?p ?cmd ?env], Inr ?p)"
    by (simp add: spawn_def sample_ops_host_def started_in_append)
  have call: "interrupted_call sample_ops_host ''TOKEN'' ?p ''8'' graceful (h @ ?start) = Some (h @ ?start @ ?call, Inr ())"
    using r sample_drained [of "h @ ?start" ?p] sample_expired [of "h @ ?start" ?p]
    by (cases graceful) (simp_all add: returncode_append)
  have code: "returncode ?body ?p = Some ?code"
    using r by (simp add: returncode_append asked_to_stop_def posted_def)
  have body: "tbind (listening_at sample_ops_host ?p) (\<lambda>port. tbind (interrupted_call sample_ops_host ''TOKEN'' ?p port graceful)
      (\<lambda>_. check_errors sample_ops_host ''TOKEN'' ?p)) (h @ ?pre @ [Started ?p ?cmd ?env]) = Some (?body, Inr ())"
    using call by (simp add: tbind_def sample_listening sample_errors)
  have "gateway_round sample_ops_host ''TOKEN'' env (grace, graceful) h = Some (?body @ ?stop, Inr ())"
    unfolding gateway_round_def prod.case log_bind bind_give assms(2) sum.case append.assoc append_Cons append_Nil
    using sample_stop [OF code] body spawn by (simp add: tbind_def [of "spawn _ _ _"] tfinally_def)
  moreover have "started_in (?start @ ?call @ [Read_errors ?p] @ ?stop) = 1"
    by (simp add: started_in_append asked_to_stop_def posted_def)
  moreover have "returncode (?body @ ?stop) q = None" if "started_in (?body @ ?stop) \<le> q" for q
    using assms(1) that by (simp add: returncode_append started_in_append asked_to_stop_def posted_def split: if_splits)
  ultimately show ?thesis by (intro exI [of _ "?start @ ?call @ [Read_errors ?p] @ ?stop"]) auto
qed

lemma sample_operations: "\<exists>g. check_operations sample_ops_host [] = Some (g, Inr ()) \<and> started_in g = 2"
proof -
  let ?w = sample_ops_host and ?d = "''/tmp/p''" and ?path = "child_path ''/tmp/p'' ''service.json''"
  let ?open = "upstream_open 7"
  obtain env where env: "ops_environment ?w ''TOKEN'' ?path 7 = Inr env"
    by (simp add: ops_environment_def sample_ops_host_def sample_port)
  obtain wrong right where d: "dumps (\<lambda>_. []) (ops_manifest 2) = Inr wrong" "dumps (\<lambda>_. []) (ops_manifest 1) = Inr right"
    by (simp add: ops_manifest_def int_str_def int_max_str_digits_def nat_str.simps)
  let ?h = "?open @ [Made_dir ?d, Saved ?path wrong, Ran (binary ?w ''ai-protocol'') env, Saved ?path right]"
  have s: "save_manifest ?w ?path 2 h = Some (h @ [Saved ?path wrong], Inr ())"
    "save_manifest ?w ?path 1 h = Some (h @ [Saved ?path right], Inr ())" for h
    by (simp_all add: save_manifest_def bind_give d) (simp_all add: save_file_def sample_ops_host_def)
  have f: "check_refused ?w ''TOKEN'' env h = Some (h @ [Ran (binary ?w ''ai-protocol'') env], Inr ())" for h
    by (simp add: check_refused_def refused_run_def tbind_def)
      (simp add: sample_ops_host_def check_def give_def sample_texts tbind_def)
  have q: "\<forall>q. started_in ?h \<le> q \<longrightarrow> returncode ?h q = None" by (simp add: upstream_open_def)
  obtain k where k: "gateway_round ?w ''TOKEN'' env (3000, True) ?h = Some (?h @ k, Inr ())" "started_in k = 1"
    "\<forall>q. started_in (?h @ k) \<le> q \<longrightarrow> returncode (?h @ k) q = None"
    using sample_round [OF q grace_text(1)] by blast
  obtain l where l: "gateway_round ?w ''TOKEN'' env (30, False) (?h @ k) = Some ((?h @ k) @ l, Inr ())" "started_in l = 1"
    using sample_round [OF k(3) grace_text(2)] by blast
  have r: "check_rounds ?w ''TOKEN'' 7 ?d (?open @ [Made_dir ?d]) = Some (?h @ k @ l, Inr ())"
    unfolding check_rounds_def Let_def bind_give env sum.case
    by (simp add: tbind_def s f k(1) [simplified] l(1) [simplified] give_def)
  have u: "start_upstream ?w [] = Some (?open, Inr 7)"
    by (simp add: start_upstream_def free_port_def tbind_def log_def give_def upstream_open_def sample_ops_host_def)
  have p: "private_dir ?w h = ?d" "fresh_token ?w h n = ''TOKEN''" for h n by (simp_all add: sample_ops_host_def)
  have "check_operations ?w [] = Some (?h @ k @ l @ [Removed_dir ?d] @ upstream_closed, Inr ())"
    unfolding check_operations_def ask_bind sum.case p bind_known [where m = "start_upstream ?w", OF u]
    by (simp add: tfinally_def in_private_dir_def p log_bind r) (simp add: log_def stop_upstream_out Let_def)
  moreover have "started_in (?h @ k @ l @ [Removed_dir ?d] @ upstream_closed) = 2"
    by (simp add: started_in_append k(2) l(2) upstream_open_def upstream_closed_def)
  ultimately show ?thesis by blast
qed

theorem operations_contained_witness:
  "\<exists>g. check_operations sample_ops_host [] = Some (g, Inr ()) \<and> returncode g 1 \<noteq> None"
proof -
  obtain g where g: "check_operations sample_ops_host [] = Some (g, Inr ())" "started_in g = 2"
    using sample_operations by blast
  from operations_contained [OF g(1)] g show ?thesis by auto
qed

theorem operations_success_witness:
  "\<exists>env h g. round_seen sample_ops_host ''TOKEN'' env ''30'' False h g"
proof -
  obtain g where g: "check_operations sample_ops_host [] = Some (g, Inr ())" using sample_operations by blast
  have "fresh_token sample_ops_host [] ''READER_TOKEN'' = ''TOKEN''" by (simp add: sample_ops_host_def)
  with operations_success [OF g] show ?thesis by metis
qed

end
