(* ===== verification/Py_Values.thy ===== *)
theory Py_Values
  imports Quickstart Packages
begin

text \<open>
  Python expressions that the demonstrations evaluate on parsed JSON and on their own dictionaries, and
  \<^verbatim>\<open>json.dumps(v, indent=2)\<close>.
\<close>

subsection \<open>Python values\<close>

text \<open>\<^verbatim>\<open>d.get(k, default)\<close>, \<^verbatim>\<open>d[k]\<close> on the script's own dictionaries, \<^verbatim>\<open>any\<close>, \<^verbatim>\<open>all\<close> and \<^verbatim>\<open>next\<close> over a
  generator, and list comprehensions with a condition.\<close>

definition py_get :: "json \<Rightarrow> string \<Rightarrow> json \<Rightarrow> json result" where
  "py_get v k d = (case as_dict v of None \<Rightarrow> Inl AttributeError | Some kvs \<Rightarrow> Inr (get_or kvs k d))"

definition entry :: "(string, 'v) dict \<Rightarrow> string \<Rightarrow> 'v result" where
  "entry d k = (case dget d k of None \<Rightarrow> Inl (KeyError k) | Some v \<Rightarrow> Inr v)"

fun any_of :: "(json \<Rightarrow> bool result) \<Rightarrow> json list \<Rightarrow> bool result" where
  "any_of f [] = Inr False"
| "any_of f (x # xs) = rbind (f x) (\<lambda>b. if b then Inr True else any_of f xs)"

fun all_of :: "(json \<Rightarrow> bool result) \<Rightarrow> json list \<Rightarrow> bool result" where
  "all_of f [] = Inr True"
| "all_of f (x # xs) = rbind (f x) (\<lambda>b. if b then all_of f xs else Inr False)"

fun first_of :: "(json \<Rightarrow> bool result) \<Rightarrow> json list \<Rightarrow> json result" where
  "first_of f [] = Inl StopIteration"
| "first_of f (x # xs) = rbind (f x) (\<lambda>b. if b then Inr x else first_of f xs)"

fun those_of :: "(json \<Rightarrow> bool result) \<Rightarrow> json list \<Rightarrow> json list result" where
  "those_of f [] = Inr []"
| "those_of f (x # xs) = rbind (f x) (\<lambda>b. rbind (those_of f xs) (\<lambda>ys. Inr (if b then x # ys else ys)))"

fun each_of :: "('a \<Rightarrow> 'b result) \<Rightarrow> 'a list \<Rightarrow> 'b list result" where
  "each_of f [] = Inr []"
| "each_of f (x # xs) = rbind (f x) (\<lambda>y. rbind (each_of f xs) (\<lambda>ys. Inr (y # ys)))"

fun tmap :: "('a \<Rightarrow> 'b task) \<Rightarrow> 'a list \<Rightarrow> 'b list task" where
  "tmap f [] = give (Inr [])"
| "tmap f (x # xs) = tbind (f x) (\<lambda>y. tbind (tmap f xs) (\<lambda>ys. give (Inr (y # ys))))"

text \<open>\<^verbatim>\<open>{name: f(origin) for name, origin in origins.items()}\<close>.\<close>

definition tdict :: "(string \<Rightarrow> 'a \<Rightarrow> 'b task) \<Rightarrow> (string, 'a) dict \<Rightarrow> (string, 'b) dict task" where
  "tdict f d = tmap (\<lambda>(name, x). tbind (f name x) (\<lambda>y. give (Inr (name, y)))) d"

text \<open>\<^verbatim>\<open>a <= b\<close>: numbers by value (nothing compares with NaN), texts and lists lexicographically.\<close>

fun float_le :: "pyfloat \<Rightarrow> pyfloat \<Rightarrow> bool" where
  "float_le NaN _ = False"
| "float_le _ NaN = False"
| "float_le NInf _ = True"
| "float_le _ PInf = True"
| "float_le (Fin a) (Fin b) = (a \<le> b)"
| "float_le _ _ = False"

fun py_le :: "json \<Rightarrow> json \<Rightarrow> bool result"
  and py_le_list :: "json list \<Rightarrow> json list \<Rightarrow> bool result" where
  "py_le (JStr s) v = (case v of JStr t \<Rightarrow> Inr (text_le s t) | _ \<Rightarrow> Inl TypeError)"
| "py_le (JList xs) v = (case v of JList ys \<Rightarrow> py_le_list xs ys | _ \<Rightarrow> Inl TypeError)"
| "py_le u v = (case (num_of u, num_of v) of (Some a, Some b) \<Rightarrow> Inr (float_le a b) | _ \<Rightarrow> Inl TypeError)"
| "py_le_list [] ys = Inr True"
| "py_le_list (x # xs) ys =
     (case ys of [] \<Rightarrow> Inr False | y # ys' \<Rightarrow> if py_eq x y then py_le_list xs ys' else py_le x y)"

text \<open>\<^verbatim>\<open>json.dumps(v, indent=2)\<close>: \<open>pad\<close> is the indentation of the current level.\<close>

definition float_word :: "(rat \<Rightarrow> string) \<Rightarrow> pyfloat \<Rightarrow> string" where
  "float_word fr f = (case f of Fin r \<Rightarrow> fr r | PInf \<Rightarrow> ''Infinity'' | NInf \<Rightarrow> ''-Infinity'' | NaN \<Rightarrow> ''NaN'')"

definition block :: "string \<Rightarrow> char \<Rightarrow> char \<Rightarrow> string list \<Rightarrow> string" where
  "block pad left right items =
     (if items = [] then [left, right]
      else [left, CHR 0x0A] @ pad @ ''  '' @ join ('','' @ [CHR 0x0A] @ pad @ ''  '') items @ [CHR 0x0A] @ pad @ [right])"

fun pretty :: "(rat \<Rightarrow> string) \<Rightarrow> string \<Rightarrow> json \<Rightarrow> string result"
  and pretty_list :: "(rat \<Rightarrow> string) \<Rightarrow> string \<Rightarrow> json list \<Rightarrow> string list result"
  and pretty_items :: "(rat \<Rightarrow> string) \<Rightarrow> string \<Rightarrow> (string \<times> json) list \<Rightarrow> string list result" where
  "pretty fr pad JNull = Inr ''null''"
| "pretty fr pad (JBool b) = Inr (if b then ''true'' else ''false'')"
| "pretty fr pad (JInt i) = int_str i"
| "pretty fr pad (JFloat f) = Inr (float_word fr f)"
| "pretty fr pad (JStr s) = Inr (quote s)"
| "pretty fr pad (JList xs) = rbind (pretty_list fr (pad @ ''  '') xs) (\<lambda>ss. Inr (block pad CHR ''['' CHR '']'' ss))"
| "pretty fr pad (JDict kvs) = rbind (pretty_items fr (pad @ ''  '') kvs) (\<lambda>ss. Inr (block pad CHR ''{'' CHR ''}'' ss))"
| "pretty_list fr pad [] = Inr []"
| "pretty_list fr pad (x # xs) = rbind (pretty fr pad x) (\<lambda>s. rbind (pretty_list fr pad xs) (\<lambda>ss. Inr (s # ss)))"
| "pretty_items fr pad [] = Inr []"
| "pretty_items fr pad ((k, v) # kvs) =
     rbind (pretty fr pad v) (\<lambda>s. rbind (pretty_items fr pad kvs) (\<lambda>ss. Inr ((quote k @ '': '' @ s) # ss)))"

definition field_is :: "json \<Rightarrow> string \<Rightarrow> json \<Rightarrow> bool result" where
  "field_is v k expected = rbind (subscript v k) (\<lambda>x. Inr (py_eq x expected))"

text \<open>\<^verbatim>\<open>assert a and b\<close>, where \<open>b\<close> is evaluated only when \<open>a\<close> holds.\<close>

definition assert_both :: "bool result \<Rightarrow> bool result \<Rightarrow> unit result" where
  "assert_both a b = rbind a (\<lambda>x. if x then rbind b assert_that else Inl (AssertionError []))"

subsection \<open>Results\<close>

lemma entry_Inr: "entry d name = Inr y \<Longrightarrow> (name, y) \<in> set d"
  by (auto simp: entry_def dget_def split: option.splits dest: map_of_SomeD)

lemma each_of_Inr: "each_of f xs = Inr ys \<Longrightarrow> y \<in> set ys \<Longrightarrow> \<exists>x \<in> set xs. f x = Inr y"
  by (induction xs arbitrary: ys) (auto simp: result_simps)

lemma first_of_Inr: "first_of f xs = Inr x \<Longrightarrow> x \<in> set xs \<and> f x = Inr True"
  by (induction xs) (auto simp: result_simps split: if_splits)

lemma all_of_Inr: "all_of f xs = Inr True \<longleftrightarrow> (\<forall>x \<in> set xs. f x = Inr True)"
  by (induction xs) (auto simp: result_simps split: if_splits)

lemma any_of_Inr: "any_of f xs = Inr True \<Longrightarrow> \<exists>x \<in> set xs. f x = Inr True"
  by (induction xs) (auto simp: result_simps split: if_splits)

lemma those_of_Inr: "those_of f xs = Inr ys \<Longrightarrow> set ys = {x \<in> set xs. f x = Inr True}"
  by (induction xs arbitrary: ys) (auto simp: result_simps split: if_splits)

lemma tmap_results:
  assumes "tmap f xs h = Some (g, Inr ys)" "\<And>x k j y. x \<in> set xs \<Longrightarrow> f x k = Some (j, Inr y) \<Longrightarrow> P y"
  shows "\<forall>y \<in> set ys. P y"
  using assms by (induction xs arbitrary: h ys) (auto simp: bind_Inr give_Inr, blast+)

lemma tmap_Inr: "tmap f xs h = Some (g, Inr ys) \<Longrightarrow> y \<in> set ys \<Longrightarrow> \<exists>x k j. x \<in> set xs \<and> f x k = Some (j, Inr y)"
  using tmap_results [of f xs h g ys "\<lambda>y. \<exists>x k j. x \<in> set xs \<and> f x k = Some (j, Inr y)"] by blast

lemma assert_both_Inr: "assert_both a b = Inr () \<longleftrightarrow> a = Inr True \<and> b = Inr True"
  by (auto simp: assert_both_def assert_that_def result_simps split: if_splits)

lemma int_str_code [code]:
  "int_str i =
     (let ds = nat_str (nat \<bar>i\<bar>)
      in if 4300 < int (length ds)
         then Inl (ValueError ''Exceeds the limit (4300 digits) for integer string conversion'')
         else Inr (if i < 0 then CHR ''-'' # ds else ds))"
  by (simp add: int_str_def int_max_str_digits_def Let_def)

end
