(* ===== verification/Integration.thy ===== *)
theory Integration
  imports Py_Values Dispatcher
begin

text \<open>
  \<^verbatim>\<open>examples/service_integration_demo.py\<close>: two services with their gateways and dispatchers, called
  directly, through the connector, with a restricted credential, under a changed limit and concurrently.
  The services answer as the \<open>lab_host\<close>. The lists \<^verbatim>\<open>processes\<close> and \<^verbatim>\<open>logs\<close> that \<^verbatim>\<open>launch\<close> appends to are read
  off the history: the processes started since the run began, and the logs it opened.

  The twelve calls of \<^verbatim>\<open>asyncio.gather\<close> are handed over in order before any of them is answered; what
  each peer answers may depend on all of them.
\<close>

record lab_host = demo_host +
  read_file :: "history \<Rightarrow> string \<Rightarrow> string result"
  open_log :: "history \<Rightarrow> string \<Rightarrow> unit result"
  make_output :: "history \<Rightarrow> string \<Rightarrow> unit result"
  resolved_path :: "string \<Rightarrow> string"
  patch_answer :: "history \<Rightarrow> string \<Rightarrow> json \<Rightarrow> response result"
  post_answer :: "history \<Rightarrow> string \<Rightarrow> json \<Rightarrow> response result"
  wall_clock :: "history \<Rightarrow> wall \<Rightarrow> rat"
  fresh_uid :: "history \<Rightarrow> string"
  socket_peer :: "history \<Rightarrow> string \<Rightarrow> string \<Rightarrow> peer"
  loads :: "string \<Rightarrow> json result"
  float_text :: "rat \<Rightarrow> string"

subsection \<open>Traces\<close>

definition save_pretty :: "lab_host \<Rightarrow> string \<Rightarrow> json \<Rightarrow> unit task" where
  "save_pretty w path v =
     tbind (give (pretty (float_text w) [] v)) (\<lambda>text. save_file w path (text @ [CHR 0x0A]))"

text \<open>\<^verbatim>\<open>rows(path)\<close>: the text after the last newline may be an unfinished record of the writer.\<close>

definition complete_rows :: "(string \<Rightarrow> json result) \<Rightarrow> string \<Rightarrow> json list result" where
  "complete_rows parse content = each_of parse (butlast (split_at (CHR 0x0A) content))"

definition rows :: "lab_host \<Rightarrow> string \<Rightarrow> json list task" where
  "rows w path = ask (\<lambda>h.
     if \<not> path_exists w h path then Inr [] else rbind (read_file w h path) (complete_rows (loads w)))"

subsection \<open>Processes and logs\<close>

definition launch ::
  "lab_host \<Rightarrow> (string, string) dict \<Rightarrow> string \<Rightarrow> string \<Rightarrow> string list \<Rightarrow> (string, string) dict \<Rightarrow> unit task" where
  "launch w base output_dir name command env =
     (let log_path = child_path output_dir (name @ ''.log'')
      in tbind (\<lambda>h. case open_log w h log_path of
             Inl e \<Rightarrow> Some (h, Inl e)
           | Inr _ \<Rightarrow> Some (h @ [Opened_log log_path], Inr ())) (\<lambda>_.
         tbind (spawn w command (merge base env)) (\<lambda>_. give (Inr ()))))"

text \<open>\<open>n\<close> processes had been started before the run.\<close>

definition processes :: "nat \<Rightarrow> history \<Rightarrow> nat list" where
  "processes n h = [n ..< started_in h]"

fun opened_log :: "deed \<Rightarrow> string list" where
  "opened_log (Opened_log path) = [path]"
| "opened_log _ = []"

definition logs :: "history \<Rightarrow> string list" where
  "logs h = concat (map opened_log h)"

definition until_running :: "lab_host \<Rightarrow> nat \<Rightarrow> bool task \<Rightarrow> unit task" where
  "until_running w n holds h = until w holds (processes n h) h"

text \<open>The \<^verbatim>\<open>finally\<close> block, for a run that began with the history \<open>start\<close>.\<close>

definition stop_all :: "lab_host \<Rightarrow> history \<Rightarrow> unit task" where
  "stop_all w start h =
     tbind (teach (stop_child w SIGINT) (rev (processes (started_in start) h))) (\<lambda>_.
       teach (\<lambda>path. log (Closed_log path) (Inr ())) (drop (length (logs start)) (logs h))) h"

subsection \<open>Requests\<close>

definition patch_limit :: "lab_host \<Rightarrow> string \<Rightarrow> string \<Rightarrow> int \<Rightarrow> unit task" where
  "patch_limit w admin origin limit =
     tbind (\<lambda>h.
       let url = origin @ ''/admin/principals/demo-owner/limits''; body = JDict [(''max_outstanding'', JInt limit)]
       in Some (h @ [Patched (''Bearer '' @ admin) url body], patch_answer w h url body)) (\<lambda>response.
     give (raise_for_status response))"

definition post_json :: "lab_host \<Rightarrow> string \<Rightarrow> string \<Rightarrow> json \<Rightarrow> response task" where
  "post_json w http url body h = Some (h @ [Called http url body], post_answer w h url body)"

text \<open>\<^verbatim>\<open>DispatcherClient(path, token)\<close> and \<^verbatim>\<open>await client.call(operation, params)\<close>: \<open>answer_of\<close> is the answer to a
  call that was made after \<open>before\<close> and answered after \<open>sent\<close>.\<close>

type_synonym connector = "string \<times> string"

definition connect :: "lab_host \<Rightarrow> string \<Rightarrow> string \<Rightarrow> connector task" where
  "connect w path tok = give (dispatcher_client (variables w) (Some path) (Some tok))"

definition handed :: "connector \<Rightarrow> json \<Rightarrow> json \<Rightarrow> deed" where
  "handed c operation params = Handed (fst c) (snd c) operation params"

definition answer_of :: "lab_host \<Rightarrow> history \<Rightarrow> history \<Rightarrow> connector \<Rightarrow> json \<Rightarrow> json \<Rightarrow> json result" where
  "answer_of w before sent c operation params =
     (let uid = fresh_uid w before
      in snd (dispatch_call (schemas w) (validator w) (float_text w) (loads w) (wall_clock w before) uid
           (socket_peer w sent (fst c) uid) (snd c) operation params 10 JNull))"

definition call_dispatcher :: "lab_host \<Rightarrow> connector \<Rightarrow> json \<Rightarrow> json \<Rightarrow> json task" where
  "call_dispatcher w c operation params h =
     (let sent = h @ [handed c operation params] in Some (sent, answer_of w h sent c operation params))"

fun answers_of :: "lab_host \<Rightarrow> history \<Rightarrow> history \<Rightarrow> (connector \<times> json) list \<Rightarrow> json \<Rightarrow> json list result" where
  "answers_of w sent before [] params = Inr []"
| "answers_of w sent before ((c, operation) # calls) params =
     rbind (answer_of w before sent c operation params) (\<lambda>v.
       rbind (answers_of w sent (before @ [handed c operation params]) calls params) (\<lambda>vs. Inr (v # vs)))"

definition gather :: "lab_host \<Rightarrow> (connector \<times> json) list \<Rightarrow> json \<Rightarrow> json list task" where
  "gather w calls params h =
     (let sent = h @ map (\<lambda>(c, operation). handed c operation params) calls
      in Some (sent, answers_of w sent h calls params))"

subsection \<open>Settings\<close>

record lab_tokens =
  full :: string
  second :: string
  limited :: string
  interactive :: string
  admin :: string

definition lab_tokens_at :: "lab_host \<Rightarrow> history \<Rightarrow> lab_tokens" where
  "lab_tokens_at w h =
     \<lparr>full = fresh_token w h ''full'', second = fresh_token w h ''second'', limited = fresh_token w h ''limited'',
      interactive = fresh_token w h ''interactive'', admin = fresh_token w h ''admin''\<rparr>"

definition service_names :: "string list" where
  "service_names = [''catalog'', ''support'']"

definition empty_query :: json where
  "empty_query = JDict [(''query'', JStr [])]"

definition trace_path :: "string \<Rightarrow> string \<Rightarrow> string" where
  "trace_path output_dir name = child_path output_dir (name @ ''.jsonl'')"

definition gateway_environs ::
  "lab_host \<Rightarrow> lab_tokens \<Rightarrow> string \<Rightarrow> string \<Rightarrow> string \<Rightarrow> string \<Rightarrow> (string, (string, string) dict) dict" where
  "gateway_environs w t catalog_port support_port catalog_gateway support_gateway =
     [(''catalog'', [(''GATEWAY_PORT'', catalog_gateway), (''CATALOG_PORT'', catalog_port), (''AGENT_TOKEN_1'', full t),
        (''AGENT_TOKEN_2'', second t), (''PRODUCT_ONLY_TOKEN'', limited t), (''INTERACTIVE_TOKEN'', interactive t)]),
      (''support'', [(''GATEWAY_PORT'', support_gateway), (''UPSTREAM_URL'', ''http://127.0.0.1:'' @ support_port),
        (''SERVICE_CONFIG'', child_path (root_dir w) ''services/support.json''), (''SUPPORT_AGENT_TOKEN'', full t),
        (''SUPPORT_READ_TOKEN'', limited t), (''SUPPORT_INTERACTIVE_TOKEN'', interactive t)])]"

definition gateway_extra :: "lab_tokens \<Rightarrow> string \<Rightarrow> string \<Rightarrow> (string, string) dict" where
  "gateway_extra t output_dir name =
     [(''ADMIN_TOKEN'', admin t), (''BENCHMARK_TRACE_PATH'', trace_path output_dir (name @ ''-gateway''))]"

definition dispatcher_settings :: "lab_tokens \<Rightarrow> string \<Rightarrow> string \<Rightarrow> string \<Rightarrow> string \<Rightarrow> (string, string) dict" where
  "dispatcher_settings t output_dir name origin socket_path =
     [(''SERVICE_URL'', origin), (''DISPATCH_SOCKET'', socket_path), (''DISPATCH_TOKEN_VARS'', ''FULL_TOKEN,LIMITED_TOKEN''),
      (''FULL_TOKEN'', full t), (''LIMITED_TOKEN'', limited t),
      (''DISPATCH_TRACE_PATH'', trace_path output_dir (name @ ''-dispatcher''))]"

subsection \<open>The services start\<close>

definition start_upstreams ::
  "lab_host \<Rightarrow> nat \<Rightarrow> (string, string) dict \<Rightarrow> string \<Rightarrow> string \<Rightarrow> string \<Rightarrow> unit task" where
  "start_upstreams w n base output_dir catalog_port support_port =
     tbind (launch w base output_dir ''catalog-upstream'' (catalog_command w) [(''CATALOG_PORT'', catalog_port)]) (\<lambda>_.
     tbind (launch w base output_dir ''support-upstream'' [interpreter w, ''examples/support_service.py'']
         [(''SUPPORT_PORT'', support_port), (''SUPPORT_TRACE_PATH'', trace_path output_dir ''support-upstream'')]) (\<lambda>_.
     until_running w n
       (tbind (gets_ok w None (''http://127.0.0.1:'' @ catalog_port @ ''/products/search?query='')) (\<lambda>ok.
          if ok then gets_ok w None (''http://127.0.0.1:'' @ support_port @ ''/api/tickets/search?text='')
          else give (Inr False)))))"

definition start_gateways ::
  "lab_host \<Rightarrow> (string, string) dict \<Rightarrow> lab_tokens \<Rightarrow> string \<Rightarrow> (string, (string, string) dict) dict \<Rightarrow> unit task" where
  "start_gateways w base t output_dir environments =
     teach (\<lambda>(name, env).
       launch w base output_dir (name @ ''-gateway'') (binary w ''ai-protocol'') (merge env (gateway_extra t output_dir name)))
       environments"

definition start_dispatchers ::
  "lab_host \<Rightarrow> nat \<Rightarrow> (string, string) dict \<Rightarrow> lab_tokens \<Rightarrow> string \<Rightarrow> (string, string) dict \<Rightarrow> (string, string) dict \<Rightarrow> unit task" where
  "start_dispatchers w n base t output_dir origins sockets =
     tbind (teach (\<lambda>(name, origin). tbind (give (entry sockets name)) (\<lambda>socket_path.
         launch w base output_dir (name @ ''-dispatcher'') (binary w ''dispatcher'')
           (dispatcher_settings t output_dir name origin socket_path))) origins) (\<lambda>_.
     until_running w n (ask (\<lambda>h. Inr (list_all (\<lambda>(_, path). path_exists w h path) sockets))))"

subsection \<open>Direct calls\<close>

definition has_scope :: "json \<Rightarrow> bool result" where
  "has_scope p =
     rbind (subscript p ''version'') (\<lambda>v.
       if \<not> py_eq v (JInt 3) then Inr False
       else rbind (rbind (subscript p ''limits'') (\<lambda>l. subscript l ''scope'')) (\<lambda>s. Inr (py_eq s (JStr ''principal''))))"

definition check_policies :: "(string, json) dict \<Rightarrow> unit result" where
  "check_policies policies =
     rbind (rbind (entry policies ''catalog'') (\<lambda>p. subscript p ''principal_id'')) (\<lambda>a.
     rbind (rbind (entry policies ''support'') (\<lambda>p. subscript p ''principal_id'')) (\<lambda>b.
     rbind (assert_that (py_eq a b \<and> py_eq b (JStr ''demo-owner''))) (\<lambda>_.
     rbind (all_of has_scope (map snd policies)) (\<lambda>scoped.
     rbind (assert_that scoped) (\<lambda>_.
     rbind (rbind (entry policies ''catalog'') (\<lambda>p. subscript p ''service_id'')) (\<lambda>c.
     rbind (rbind (entry policies ''support'') (\<lambda>p. subscript p ''service_id'')) (\<lambda>s.
     assert_that (\<not> py_eq c s))))))))"

definition takes_query :: "json \<Rightarrow> bool result" where
  "takes_query op =
     rbind (rbind (subscript op ''input_schema'') (\<lambda>s. subscript s ''properties'')) (\<lambda>p.
     rbind (py_get p ''query'' (JDict [])) (\<lambda>q. rbind (py_get q ''type'' JNull) (\<lambda>t. Inr (py_eq t (JStr ''string'')))))"

definition select_operations :: "(string, json list) dict \<Rightarrow> (string, json) dict result" where
  "select_operations operations =
     each_of (\<lambda>(name, ops). rbind (first_of takes_query ops) (\<lambda>op. Inr (name, op))) operations"

definition both_answered :: "(string, json) dict \<Rightarrow> unit result" where
  "both_answered direct =
     rbind (rbind (entry direct ''catalog'') (\<lambda>d. subscript d ''products'')) (\<lambda>products.
       if \<not> truthy products then Inl (AssertionError [])
       else rbind (rbind (entry direct ''support'') (\<lambda>d. subscript d ''tickets'')) (\<lambda>tickets. assert_that (truthy tickets)))"

definition direct_calls ::
  "lab_host \<Rightarrow> nat \<Rightarrow> lab_tokens \<Rightarrow> string \<Rightarrow> (string, string) dict \<Rightarrow> ((string, json) dict \<times> (string, json) dict) task" where
  "direct_calls w n t output_dir origins =
     in_service w (full t) (\<lambda>http.
       tbind (teach (\<lambda>(_, origin). until_running w n (gets_ok w (Some http) (origin @ ''/agent-policy''))) origins) (\<lambda>_.
       tbind (tdict (\<lambda>_ origin. get_json w (Some http) (origin @ ''/agent-policy'')) origins) (\<lambda>policies.
       tbind (give (check_policies policies)) (\<lambda>_.
       tbind (tdict (\<lambda>_ origin. discover_at w http origin) origins) (\<lambda>operations.
       tbind (save_pretty w (child_path output_dir ''discovery.json'') (JDict policies)) (\<lambda>_.
       tbind (give (select_operations operations)) (\<lambda>selected.
       tbind (tdict (\<lambda>name origin. tbind (give (entry selected name)) (\<lambda>op. execute_at w http origin op empty_query)) origins)
         (\<lambda>direct.
       tbind (give (both_answered direct)) (\<lambda>_.
       tbind (teach (\<lambda>(name, origin). patch_limit w (admin t) origin (if name = ''catalog'' then 1 else 2)) origins) (\<lambda>_.
       give (Inr (selected, direct))))))))))))"

subsection \<open>Dispatched and restricted calls\<close>

definition dispatched_calls ::
  "lab_host \<Rightarrow> lab_tokens \<Rightarrow> (string, string) dict \<Rightarrow> (string, json) dict \<Rightarrow> (string, json) dict \<Rightarrow> (string, json) dict task" where
  "dispatched_calls w t sockets selected direct =
     tdict (\<lambda>name _.
       tbind (give (entry sockets name)) (\<lambda>path.
       tbind (connect w path (full t)) (\<lambda>client.
       tbind (give (entry selected name)) (\<lambda>op.
       tbind (call_dispatcher w client op empty_query) (\<lambda>result.
       tbind (give (subscript result ''ok'')) (\<lambda>ok.
       tbind (check (truthy ok) []) (\<lambda>_.
       tbind (give (subscript result ''body'')) (\<lambda>body.
       tbind (give (entry direct name)) (\<lambda>expected.
       tbind (check (py_eq body expected) []) (\<lambda>_.
       give (Inr result))))))))))) (map (\<lambda>name. (name, ())) service_names)"

definition limited_operation :: "lab_host \<Rightarrow> lab_tokens \<Rightarrow> (string, string) dict \<Rightarrow> json task" where
  "limited_operation w t origins =
     in_service w (limited t) (\<lambda>http.
       tbind (give (entry origins ''support'')) (\<lambda>origin.
       tbind (discover_at w http origin) (\<lambda>ops.
       case ops of
         [op] \<Rightarrow> tbind (give (subscript op ''name'')) (\<lambda>name.
                 tbind (check (py_eq name (JStr ''get_ticket'')) []) (\<lambda>_. give (Inr op)))
       | _ \<Rightarrow> give (Inl (AssertionError [])))))"

definition restricted_calls ::
  "lab_host \<Rightarrow> lab_tokens \<Rightarrow> string \<Rightarrow> (string, string) dict \<Rightarrow> (string, json) dict \<Rightarrow> json \<Rightarrow> (json \<times> json) task" where
  "restricted_calls w t output_dir sockets selected limited_op =
     tbind (give (entry sockets ''support'')) (\<lambda>path.
     tbind (connect w path (limited t)) (\<lambda>restricted.
     tbind (rows w (trace_path output_dir ''support-upstream'')) (\<lambda>before.
     tbind (give (entry selected ''support'')) (\<lambda>op.
     tbind (call_dispatcher w restricted op (JDict [(''query'', JStr ''must-not-run'')])) (\<lambda>forbidden.
     tbind (give (assert_both (field_is forbidden ''status'' (JInt 403)) (field_is forbidden ''attempts'' (JInt 1)))) (\<lambda>_.
     tbind (rows w (trace_path output_dir ''support-upstream'')) (\<lambda>now.
     tbind (check (length now = length before) []) (\<lambda>_.
     tbind (call_dispatcher w restricted limited_op (JDict [(''id'', JInt 101)])) (\<lambda>allowed.
     tbind (give (assert_both (rbind (subscript allowed ''ok'') (\<lambda>ok. Inr (truthy ok)))
         (rbind (rbind (subscript allowed ''body'') (\<lambda>b. subscript b ''ticket'')) (\<lambda>tk. field_is tk ''id'' (JInt 101))))) (\<lambda>_.
     tbind (call_dispatcher w restricted (JStr ''unpublished_operation'') (JDict [])) (\<lambda>invalid.
     tbind (give (assert_both (field_is invalid ''code'' (JStr ''invalid_dispatch_request'')) (field_is invalid ''attempts'' (JInt 0))))
       (\<lambda>_. give (Inr (forbidden, allowed))))))))))))))"

subsection \<open>A changed limit\<close>

definition saw_limit :: "int \<Rightarrow> json \<Rightarrow> bool result" where
  "saw_limit limit r =
     rbind (py_get r ''event'' JNull) (\<lambda>event.
       if \<not> py_eq event (JStr ''policy'') then Inr False
       else rbind (py_get r ''limit'' JNull) (\<lambda>l. Inr (py_eq l (JInt limit))))"

definition text_of :: "json \<Rightarrow> string result" where
  "text_of v = (case as_str v of None \<Rightarrow> Inl TypeError | Some s \<Rightarrow> Inr s)"

definition limit_change ::
  "lab_host \<Rightarrow> nat \<Rightarrow> lab_tokens \<Rightarrow> string \<Rightarrow> (string, string) dict \<Rightarrow> (string, json) dict \<Rightarrow> unit task" where
  "limit_change w n t output_dir origins selected =
     in_service w (full t) (\<lambda>http.
       tbind (give (entry origins ''catalog'')) (\<lambda>catalog.
       tbind (give (entry origins ''support'')) (\<lambda>support.
       tbind (give (rbind (entry selected ''support'') (\<lambda>op. rbind (subscript op ''path'') text_of))) (\<lambda>path.
       tbind (post_json w http (support @ path) (JDict [(''query'', JStr []), (''url'', JStr ''http://127.0.0.1:1'')])) (\<lambda>response.
       tbind (check (status_code response = 422) []) (\<lambda>_.
       tbind (patch_limit w (admin t) catalog 3) (\<lambda>_.
       tbind (until_running w n
         (tbind (rows w (trace_path output_dir ''catalog-dispatcher'')) (\<lambda>rs. give (any_of (saw_limit 3) rs)))) (\<lambda>_.
       tbind (get_json w (Some http) (support @ ''/agent-policy'')) (\<lambda>policy.
       tbind (give (rbind (subscript policy ''limits'') (\<lambda>l. subscript l ''max_outstanding''))) (\<lambda>limit.
       tbind (check (py_eq limit (JInt 2)) []) (\<lambda>_.
       tbind (rows w (trace_path output_dir ''support-dispatcher'')) (\<lambda>rs.
       tbind (give (any_of (saw_limit 2) rs)) (\<lambda>seen. check seen [])))))))))))))"

subsection \<open>Concurrent calls and the final state\<close>

definition concurrent_calls ::
  "lab_host \<Rightarrow> lab_tokens \<Rightarrow> (string, string) dict \<Rightarrow> (string, json) dict \<Rightarrow> json list task" where
  "concurrent_calls w t sockets selected =
     tbind (tmap (\<lambda>name.
         tbind (give (entry sockets name)) (\<lambda>path.
         tbind (connect w path (full t)) (\<lambda>client.
         tbind (give (entry selected name)) (\<lambda>op. give (Inr (client, op))))))
       (concat (map (replicate 6) service_names))) (\<lambda>calls.
     tbind (gather w calls empty_query) (\<lambda>concurrent.
     tbind (give (all_of (\<lambda>r. rbind (subscript r ''ok'') (\<lambda>ok. Inr (truthy ok))) concurrent)) (\<lambda>all_ok.
     tbind (check all_ok []) (\<lambda>_.
     give (Inr concurrent)))))"

definition final_policies :: "lab_host \<Rightarrow> nat \<Rightarrow> lab_tokens \<Rightarrow> (string, string) dict \<Rightarrow> (string, json) dict task" where
  "final_policies w n t origins =
     in_service w (full t) (\<lambda>http.
       tdict (\<lambda>_ origin.
         tbind (until_running w n (tbind (get_json w (Some http) (origin @ ''/agent-policy''))
           (\<lambda>policy. give (field_is policy ''outstanding'' (JInt 0))))) (\<lambda>_.
         get_json w (Some http) (origin @ ''/agent-policy''))) origins)"

text \<open>\<^verbatim>\<open>r[a] <= r[b]\<close>.\<close>

definition at_most :: "string \<Rightarrow> string \<Rightarrow> json \<Rightarrow> bool result" where
  "at_most a b r = rbind (subscript r a) (\<lambda>x. rbind (subscript r b) (\<lambda>y. py_le x y))"

definition of_event :: "string \<Rightarrow> json \<Rightarrow> bool result" where
  "of_event event r = field_is r ''event'' (JStr event)"

definition check_admissions :: "json list \<Rightarrow> unit result" where
  "check_admissions rs =
     rbind (those_of (of_event ''admission'') rs) (\<lambda>admissions.
       if admissions = [] then Inl (AssertionError [])
       else rbind (all_of (at_most ''outstanding'' ''limit'') admissions) assert_that)"

definition check_attempts :: "json list \<Rightarrow> unit result" where
  "check_attempts rs =
     rbind (those_of (of_event ''attempt_start'') rs) (\<lambda>attempts.
       rbind (all_of (at_most ''local_active'' ''local_limit'') attempts) assert_that)"

definition check_traces :: "lab_host \<Rightarrow> string \<Rightarrow> unit task" where
  "check_traces w output_dir =
     tbind (teach (\<lambda>name.
         tbind (rows w (trace_path output_dir (name @ ''-gateway''))) (\<lambda>rs.
         tbind (give (check_admissions rs)) (\<lambda>_.
         tbind (rows w (trace_path output_dir (name @ ''-dispatcher''))) (\<lambda>rs. give (check_attempts rs))))) service_names) (\<lambda>_.
     tbind (rows w (trace_path output_dir ''support-upstream'')) (\<lambda>rs.
     tbind (give (all_of (\<lambda>r. rbind (subscript r ''authorization_present'') (\<lambda>v. Inr (\<not> truthy v))) rs)) (\<lambda>clean.
     check clean [])))"

definition each_field :: "(json \<Rightarrow> json result) \<Rightarrow> (string, json) dict \<Rightarrow> json result" where
  "each_field f d = rbind (each_of (\<lambda>(name, p). rbind (f p) (\<lambda>v. Inr (name, v))) d) (\<lambda>kvs. Inr (JDict kvs))"

definition result_doc ::
  "(string, json) dict \<Rightarrow> (string, json) dict \<Rightarrow> json \<Rightarrow> json \<Rightarrow> json list \<Rightarrow> (string, json) dict \<Rightarrow> json result" where
  "result_doc direct results forbidden allowed concurrent final =
     rbind (subscript forbidden ''status'') (\<lambda>status.
     rbind (subscript allowed ''body'') (\<lambda>body.
     rbind (each_field (\<lambda>p. rbind (subscript p ''limits'') (\<lambda>l. subscript l ''max_outstanding'')) final) (\<lambda>limits.
     rbind (each_field (\<lambda>p. subscript p ''outstanding'') final) (\<lambda>outstanding.
     Inr (JDict [(''passed'', JBool True), (''service_ids'', JList (map JStr service_names)), (''owner'', JStr ''demo-owner''),
       (''direct'', JDict direct), (''dispatched'', JDict results), (''restricted_status'', status),
       (''forbidden_upstream_calls'', JInt 0), (''allowed_ticket'', body),
       (''concurrent_success'', JInt (int (length concurrent))), (''final_limits'', limits),
       (''final_outstanding'', outstanding), (''admission_violations'', JInt 0),
       (''credentials_forwarded_to_upstream'', JBool False)])))))"

subsection \<open>The run\<close>

definition lab_block ::
  "lab_host \<Rightarrow> nat \<Rightarrow> (string, string) dict \<Rightarrow> lab_tokens \<Rightarrow> string \<Rightarrow> string list \<Rightarrow> (string, string) dict \<Rightarrow> (string, string) dict \<Rightarrow> unit task" where
  "lab_block w n base t output_dir ports origins sockets =
     tbind (start_upstreams w n base output_dir (ports ! 0) (ports ! 1)) (\<lambda>_.
     tbind (start_gateways w base t output_dir (gateway_environs w t (ports ! 0) (ports ! 1) (ports ! 2) (ports ! 3))) (\<lambda>_.
     tbind (direct_calls w n t output_dir origins) (\<lambda>(selected, direct).
     tbind (start_dispatchers w n base t output_dir origins sockets) (\<lambda>_.
     tbind (dispatched_calls w t sockets selected direct) (\<lambda>results.
     tbind (limited_operation w t origins) (\<lambda>limited_op.
     tbind (restricted_calls w t output_dir sockets selected limited_op) (\<lambda>(forbidden, allowed).
     tbind (limit_change w n t output_dir origins selected) (\<lambda>_.
     tbind (concurrent_calls w t sockets selected) (\<lambda>concurrent.
     tbind (final_policies w n t origins) (\<lambda>final.
     tbind (check_traces w output_dir) (\<lambda>_.
     tbind (give (result_doc direct results forbidden allowed concurrent final)) (\<lambda>doc.
     save_pretty w (child_path output_dir ''result.json'') doc))))))))))))"

definition gates_closed :: "lab_host \<Rightarrow> string \<Rightarrow> unit task" where
  "gates_closed w output_dir =
     teach (\<lambda>name.
       tbind (rows w (trace_path output_dir (name @ ''-dispatcher''))) (\<lambda>rs.
       tbind (give (any_of (\<lambda>r. rbind (of_event ''gate_final'' r) (\<lambda>b. if b then field_is r ''active'' (JInt 0) else Inr False)) rs))
         (\<lambda>closed. check closed []))) service_names"

definition run_steps :: "lab_host \<Rightarrow> history \<Rightarrow> string \<Rightarrow> unit task" where
  "run_steps w start output_dir =
     tbind (give (base_env w)) (\<lambda>base.
     tbind (some_ports w 4 []) (\<lambda>numbers.
     tbind (give (each_of int_str (sort numbers))) (\<lambda>ports.
     tbind (ask (\<lambda>h. Inr (lab_tokens_at w h))) (\<lambda>t.
     tbind (in_private_dir w (\<lambda>private_path.
         tfinally
           (lab_block w (started_in start) base t output_dir ports
             [(''catalog'', ''http://127.0.0.1:'' @ ports ! 2), (''support'', ''http://127.0.0.1:'' @ ports ! 3)]
             (map (\<lambda>name. (name, child_path private_path (name @ ''.sock''))) service_names))
           (stop_all w start))) (\<lambda>_.
     gates_closed w output_dir)))))"

text \<open>A \<^verbatim>\<open>StopIteration\<close> that leaves a coroutine becomes a \<^verbatim>\<open>RuntimeError\<close>.\<close>

definition coroutine :: "'a task \<Rightarrow> 'a task" where
  "coroutine m = texcept m (\<lambda>e. e = StopIteration) (give (Inl (RuntimeError ''coroutine raised StopIteration'')))"

definition integration_run :: "lab_host \<Rightarrow> string \<Rightarrow> unit task" where
  "integration_run w output_dir h = coroutine (run_steps w h output_dir) h"

text \<open>The script, after its arguments are read.\<close>

definition integration_main :: "lab_host \<Rightarrow> string \<Rightarrow> unit task" where
  "integration_main w output_arg =
     tbind (\<lambda>h. case make_output w h output_arg of
         Inl e \<Rightarrow> Some (h, Inl e)
       | Inr _ \<Rightarrow> Some (h @ [Made_subdir output_arg], Inr ())) (\<lambda>_.
     integration_run w (resolved_path w output_arg))"

end
