(* ===== verification/Integration_Props.thy ===== *)
theory Integration_Props
  imports Integration Quickstart_Props
begin

text \<open>
  The lemmas about the integration demonstration: reading a trace while it is written gives whole
  records; a run's processes end and its logs are closed; each credential stays with the programs and
  addresses that need it. \<^verbatim>\<open>Integration_Results\<close> states the properties.
\<close>

subsection \<open>Traces\<close>

definition newline :: char where
  "newline = CHR 0x0A"

abbreviation records :: "string list \<Rightarrow> string" where
  "records lines \<equiv> concat (map (\<lambda>l. l @ [newline]) lines)"

lemma split_at_nonempty: "split_at c s \<noteq> []"
  by (induction s) (auto split: list.splits)

lemma split_at_none: "c \<notin> set s \<Longrightarrow> split_at c s = [s]"
  by (induction s) auto

lemma split_at_line: "c \<notin> set l \<Longrightarrow> split_at c (l @ c # s) = l # split_at c s"
  by (induction l) auto

lemma split_at_records:
  "\<forall>l \<in> set lines. newline \<notin> set l \<Longrightarrow> newline \<notin> set rest \<Longrightarrow>
   butlast (split_at newline (records lines @ rest)) = lines"
proof (induction lines)
  case (Cons l lines)
  have "split_at newline (records (l # lines) @ rest) = l # split_at newline (records lines @ rest)"
    using Cons.prems split_at_line [of newline l "records lines @ rest"] by simp
  then show ?case using Cons split_at_nonempty [of newline "records lines @ rest"] by simp
qed (simp add: split_at_none)

text \<open>What has been written after any number of characters: some whole records and the start of the next.\<close>

lemma prefix_of_records:
  assumes "\<forall>l \<in> set lines. newline \<notin> set l"
  shows "\<exists>j rest. take k (records lines) = records (take j lines) @ rest \<and> newline \<notin> set rest \<and>
    j \<le> length lines \<and> (j < length lines \<longrightarrow> k < length (records (take (Suc j) lines)))"
  using assms
proof (induction lines arbitrary: k)
  case (Cons l lines)
  show ?case
  proof (cases "k \<le> length l")
    case True
    then have "take k (records (l # lines)) = records (take 0 (l # lines)) @ take k l" by simp
    moreover have "newline \<notin> set (take k l)" using Cons.prems by (auto dest: in_set_takeD)
    moreover have "k < length (records (take (Suc 0) (l # lines)))" using True by simp
    ultimately show ?thesis by (intro exI [of _ 0] exI [of _ "take k l"]) simp
  next
    case False
    then obtain m where m: "k = Suc (length l) + m" by (metis add_Suc less_iff_Suc_add not_less add.commute)
    obtain j rest where "take m (records lines) = records (take j lines) @ rest" "newline \<notin> set rest"
      "j \<le> length lines" "j < length lines \<longrightarrow> m < length (records (take (Suc j) lines))"
      using Cons by (metis list.set_intros(2))
    then show ?thesis using m by (intro exI [of _ "Suc j"] exI [of _ rest]) simp
  qed
qed simp

subsection \<open>Processes and logs\<close>

abbreviation signals_owned :: "'a task \<Rightarrow> bool" where
  "signals_owned \<equiv> runs (grows signal_owned)"

lemma signals_tidy: "runs tidy m \<Longrightarrow> signals_owned m"
  by (auto simp: runs_def tidy_def)

lemma teach_stop:
  "teach (stop_child w s) ps h = Some (g, r) \<Longrightarrow> \<forall>p \<in> set ps. p < started_in h \<Longrightarrow>
   tidy h g \<and> r = Inr () \<and> (\<forall>p \<in> set ps. returncode g p \<noteq> None)"
proof (induction ps arbitrary: h)
  case (Cons p ps)
  then obtain k x where k: "stop_child w s p h = Some (k, x)" "tbind (give x) (\<lambda>_. teach (stop_child w s) ps) k = Some (g, r)"
    by (auto simp: tbind_def give_def split: option.splits prod.splits sum.splits)
  have o: "tidy h k" "x = Inr ()" "returncode k p \<noteq> None" using stop_child_out [OF k(1)] Cons.prems(2) by auto
  have "started_in h \<le> started_in k" using o(1) started_in_mono by (auto simp: tidy_def)
  then have "\<forall>p \<in> set ps. p < started_in k" using Cons.prems(2) by auto
  moreover have "teach (stop_child w s) ps k = Some (g, r)" using k(2) o(2) by (simp add: bind_give)
  ultimately have "tidy k g \<and> r = Inr () \<and> (\<forall>p \<in> set ps. returncode g p \<noteq> None)" using Cons.IH by blast
  moreover from this o(3) have "returncode g p \<noteq> None" using returncode_mono unfolding tidy_def by blast
  ultimately show ?case using o(1) tidied.trans by auto
qed (simp add: give_def tidied.refl)

lemma teach_log: "teach (\<lambda>x. log (f x) (Inr ())) xs h = Some (h @ map f xs, Inr ())"
  by (induction xs arbitrary: h) (simp_all add: give_def log_bind)

lemma logs_append: "logs (h @ k) = logs h @ logs k"
  by (simp add: logs_def)

lemma tidy_closed: "tidy h (h @ map Closed_log paths)"
proof (induction paths rule: rev_induct)
  case (snoc path paths)
  have "tidy (h @ map Closed_log paths) ((h @ map Closed_log paths) @ [Closed_log path])" by (rule tidy_one) simp_all
  with snoc show ?case using tidied.trans by fastforce
qed (simp add: tidied.refl)

lemma stop_all_out:
  assumes "stop_all w start h = Some (g, r)"
  shows "tidy h g \<and> r = Inr () \<and> (\<forall>p. started_in start \<le> p \<and> p < started_in h \<longrightarrow> returncode g p \<noteq> None) \<and>
    (\<forall>path \<in> set (drop (length (logs start)) (logs h)). Closed_log path \<in> set g)"
proof -
  let ?ps = "rev (processes (started_in start) h)" and ?logs = "drop (length (logs start)) (logs h)"
  obtain k x where k: "teach (stop_child w SIGINT) ?ps h = Some (k, x)"
    "tbind (give x) (\<lambda>_. teach (\<lambda>path. log (Closed_log path) (Inr ())) ?logs) k = Some (g, r)"
    using assms by (auto simp: stop_all_def tbind_def give_def split: option.splits prod.splits sum.splits)
  have o: "tidy h k" "x = Inr ()" "\<forall>p \<in> set ?ps. returncode k p \<noteq> None"
    using teach_stop [OF k(1)] by (auto simp: processes_def)
  then have g: "g = k @ map Closed_log ?logs" "r = Inr ()" using k(2) by (simp_all add: bind_give teach_log)
  have t: "tidy k g" unfolding g(1) by (rule tidy_closed)
  have "\<forall>p \<in> set ?ps. returncode g p \<noteq> None" using o(3) t returncode_mono unfolding tidy_def by blast
  then have "\<forall>p. started_in start \<le> p \<and> p < started_in h \<longrightarrow> returncode g p \<noteq> None" by (simp add: processes_def)
  moreover have "tidy h g" using o(1) t by (rule tidied.trans)
  ultimately show ?thesis using g by simp
qed

lemma signals_launch: "signals_owned (launch w base out name command env)"
  unfolding launch_def Let_def
  by (intro grow.runs_bind grow.runs_quiet) (auto simp: runs_def spawn_def grows.stays intro!: grows_one split: sum.splits)

lemma tidy_until_running: "runs tidy m \<Longrightarrow> runs tidy (until_running w n m)"
  using tidy_until unfolding until_running_def runs_def by blast

lemma tidy_lab_steps:
  "runs tidy (rows w path)" "runs tidy (post_json w http url body)" "runs tidy (patch_limit w tok origin limit)"
  "runs tidy (connect w path tok)" "runs tidy (call_dispatcher w c op params)" "runs tidy (save_pretty w path v)"
  unfolding rows_def connect_def patch_limit_def save_pretty_def Let_def
  by (intro tidy_rules | simp add: runs_def post_json_def call_dispatcher_def handed_def Let_def tidy_one)+

lemma tidy_tmap: "(\<And>x. runs tidy (f x)) \<Longrightarrow> runs tidy (tmap f xs)"
  by (induction xs) (auto intro!: tidy_rules)

lemma tidy_tdict: "(\<And>name x. runs tidy (f name x)) \<Longrightarrow> runs tidy (tdict f d)"
  unfolding tdict_def by (rule tidy_tmap) (auto intro!: tidy_rules)

lemma tidy_gather: "runs tidy (gather w calls params)"
proof -
  have "tidy h (h @ map (\<lambda>(c, op). handed c op params) calls)" for h
  proof (induction calls rule: rev_induct)
    case (snoc x calls)
    let ?h = "h @ map (\<lambda>(c, op). handed c op params) calls"
    have "tidy ?h (?h @ [case x of (c, op) \<Rightarrow> handed c op params])"
      by (rule tidy_one) (simp_all add: handed_def split: prod.split)
    with snoc show ?case using tidied.trans by fastforce
  qed (simp add: tidied.refl)
  then show ?thesis by (simp add: runs_def gather_def Let_def)
qed

lemmas tidy_lab = tidy_in_service tidy_rules tidy_gets tidy_discover tidy_execute_at tidy_until_running tidy_lab_steps
  tidy_tdict tidy_tmap tidy_gather

lemma tidy_stages:
  "runs tidy (direct_calls w n t out origins)" "runs tidy (dispatched_calls w t sockets selected direct)"
  "runs tidy (limited_operation w t origins)" "runs tidy (restricted_calls w t out sockets selected op)"
  "runs tidy (limit_change w n t out origins selected)" "runs tidy (concurrent_calls w t sockets selected)"
  "runs tidy (final_policies w n t origins)" "runs tidy (check_traces w out)" "runs tidy (gates_closed w out)"
proof -
  show "runs tidy (direct_calls w n t out origins)"
    unfolding direct_calls_def by (intro tidy_lab runs_case_prod)
  show "runs tidy (dispatched_calls w t sockets selected direct)"
    unfolding dispatched_calls_def by (intro tidy_lab)
  have c: "runs tidy (case ops of [op] \<Rightarrow> f op | _ \<Rightarrow> give r)" if "\<And>op. runs tidy (f op)" for ops :: "json list" and f and r :: "json result"
    using that by (auto split: list.split intro: tidied.runs_quiet)
  show "runs tidy (limited_operation w t origins)"
    unfolding limited_operation_def by (intro tidy_lab c)
  show "runs tidy (restricted_calls w t out sockets selected op)"
    unfolding restricted_calls_def by (intro tidy_lab)
  show "runs tidy (limit_change w n t out origins selected)"
    unfolding limit_change_def by (intro tidy_lab)
  show "runs tidy (concurrent_calls w t sockets selected)"
    unfolding concurrent_calls_def by (intro tidy_lab)
  show "runs tidy (final_policies w n t origins)"
    unfolding final_policies_def by (intro tidy_lab)
  show "runs tidy (check_traces w out)" "runs tidy (gates_closed w out)"
    unfolding check_traces_def gates_closed_def by (intro tidy_lab)+
qed

lemma signals_block: "signals_owned (lab_block w n base t out ports origins sockets)"
  unfolding lab_block_def start_upstreams_def start_gateways_def start_dispatchers_def
  by (intro grow.runs_bind grow.runs_each grow.runs_quiet runs_case_prod signals_launch
      tidy_stages [THEN signals_tidy] signals_tidy [OF tidy_until_running] signals_tidy [OF tidy_lab_steps(6)]
      tidied.runs_if tidied.runs_bind tidied.runs_quiet tidy_gets)

lemma opened_none: "grows (\<lambda>_ d. opened_log d = []) h g \<Longrightarrow> logs g = logs h"
  by (auto simp: logs_def dest!: grows_set)

lemma stop_all_logs: "stop_all w start h = Some (g, r) \<Longrightarrow> logs g = logs h"
proof (rule opened_none)
  assume s: "stop_all w start h = Some (g, r)"
  have q: "quietly (\<lambda>_ d. opened_log d = [])"
    unfolding quietly_def by (intro allI impI) (metis deed.exhaust opened_log.simps quiet.simps)
  have "runs (grows (\<lambda>_ d. opened_log d = []))
      (tbind (teach (stop_child w SIGINT) ps) (\<lambda>_. teach (\<lambda>path. log (Closed_log path) (Inr ())) paths))" for ps paths
    by (intro grow.runs_bind grow.runs_each grows_stop_child q grows_log) simp
  from runsD [OF this s [unfolded stop_all_def]] show "grows (\<lambda>_ d. opened_log d = []) h g" .
qed

text \<open>The block and its \<^verbatim>\<open>finally\<close>, for a run that began with \<open>start\<close>.\<close>

lemma block_stopped:
  assumes "tfinally (lab_block w (started_in start) base t out ports origins sockets) (stop_all w start) h = Some (g, r)"
    and "tidy start h"
  shows "tidy start g \<and> (\<exists>k. g = h @ k) \<and> (\<forall>path \<in> set (drop (length (logs start)) (logs g)). Closed_log path \<in> set g)"
proof -
  obtain k x y where k: "lab_block w (started_in start) base t out ports origins sockets h = Some (k, x)"
    and s: "stop_all w start k = Some (g, y)"
    using assms(1) by (auto simp: tfinally_def split: option.splits prod.splits sum.splits)
  have b: "grows signal_owned h k" using signals_block k by (rule runsD)
  note o = stop_all_out [OF s]
  have g: "grows signal_owned start g"
    using assms(2) b o by (auto simp: tidy_def intro: grows_trans)
  have "returncode g p \<noteq> None" if "started_in start \<le> p" "p < started_in g" for p
    using that o by (cases "p < started_in k") (auto simp: tidy_def)
  with g have "tidy start g" by (simp add: tidy_def)
  moreover from b o obtain i j where "k = h @ i" "g = k @ j" by (fastforce simp: tidy_def dest: grows_extends)
  ultimately show ?thesis using o stop_all_logs [OF s] by auto
qed

text \<open>The shape of a run: bookkeeping, then the private directory around the block, then only reading.\<close>

abbreviation lab_origins :: "string list \<Rightarrow> (string, string) dict" where
  "lab_origins ports \<equiv> [(''catalog'', ''http://127.0.0.1:'' @ ports ! 2), (''support'', ''http://127.0.0.1:'' @ ports ! 3)]"

abbreviation lab_sockets :: "string \<Rightarrow> (string, string) dict" where
  "lab_sockets d \<equiv> map (\<lambda>name. (name, child_path d (name @ ''.sock''))) service_names"

lemma grows_never: "grows (\<lambda>_ _. False) h g \<Longrightarrow> g = h"
  by (erule grows.cases) simp_all

lemma gates_closed_reads: "gates_closed w out h = Some (g, r) \<Longrightarrow> g = h"
proof (rule grows_never)
  assume r: "gates_closed w out h = Some (g, r)"
  have "runs (grows (\<lambda>_ _. False)) (gates_closed w out)"
    unfolding gates_closed_def rows_def by (intro grow.runs_bind grow.runs_each grow.runs_quiet)
  from runsD [OF this r] show "grows (\<lambda>_ _. False) h g" .
qed

lemma coroutine_Some:
  assumes "coroutine m h = Some (g, r)"
  obtains s where "m h = Some (g, s)" "r = Inr x \<longrightarrow> s = Inr x"
  using assms by (auto simp: coroutine_def texcept_def give_def split: option.splits prod.splits sum.splits if_splits)

lemma integration_shape:
  assumes "integration_run w out h = Some (g, r)"
  obtains (early) j where "g = h @ j" "\<forall>x \<in> set j. \<exists>n. x = Bound_port n" "\<forall>x. r \<noteq> Inr x"
  | (ran) j d k base ports x where "\<forall>x \<in> set j. \<exists>n. x = Bound_port n"
      "tfinally (lab_block w (started_in h) base (lab_tokens_at w (h @ j)) out ports (lab_origins ports) (lab_sockets d))
         (stop_all w h) (h @ j @ [Made_dir d]) = Some (k, x)"
      "g = k @ [Removed_dir d]" "base_env w = Inr base" "\<forall>u. r = Inr u \<longrightarrow> x = Inr u \<and> gates_closed w out g = Some (g, Inr u)"
proof -
  let ?body = "\<lambda>base ports t private_path. tfinally
      (lab_block w (started_in h) base t out ports (lab_origins ports) (lab_sockets private_path)) (stop_all w h)"
  obtain s where s: "run_steps w h out h = Some (g, s)" "\<forall>u. r = Inr u \<longrightarrow> s = Inr u"
    using assms unfolding integration_run_def by (auto elim!: coroutine_Some [where x = "()"])
  from s(1) show thesis
    unfolding run_steps_def
  proof (cases rule: give_cases)
    case (1 e)
    with s(2) show thesis using early [of "[]"] by auto
  next
    case (2 base)
    have q: "runs (grows (\<lambda>_ x. \<exists>n. x = Bound_port n)) (some_ports w 4 [])"
      by (rule grow.runs_some_ports) (rule grows_one, blast)
    from 2(2) show thesis
    proof (cases rule: tbind_cases)
      case (1 e)
      from grows_permitted [OF q 1(1)] s(2) 1(2) show thesis using early by auto
    next
      case (2 i numbers)
      from grows_permitted [OF q 2(1)] obtain j where j: "i = h @ j" "\<forall>x \<in> set j. \<exists>n. x = Bound_port n" by blast
      from 2(2) show thesis
      proof (cases rule: give_cases)
        case (1 e)
        with j s(2) show thesis using early by auto
      next
        case (2 ports)
        let ?d = "private_dir w i"
        from 2(2) have "tbind (in_private_dir w (?body base ports (lab_tokens_at w i))) (\<lambda>_. gates_closed w out) i = Some (g, s)"
          by (simp add: ask_bind)
        then obtain m x where m: "in_private_dir w (?body base ports (lab_tokens_at w i)) i = Some (m, x)"
          and c: "(\<exists>e. x = Inl e \<and> g = m \<and> s = Inl e) \<or> (x = Inr () \<and> gates_closed w out m = Some (g, s))"
          by (cases rule: tbind_cases) auto
        from in_private_dir_out [OF m] obtain k where
          k: "?body base ports (lab_tokens_at w i) ?d (i @ [Made_dir ?d]) = Some (k, x)" "m = k @ [Removed_dir ?d]" by blast
        have g: "g = m" using c gates_closed_reads by blast
        show thesis
        proof (rule ran [OF j(2), of base ports ?d k x])
          show "?body base ports (lab_tokens_at w (h @ j)) ?d (h @ j @ [Made_dir ?d]) = Some (k, x)" using k(1) j(1) by simp
          show "g = k @ [Removed_dir ?d]" using g k(2) by simp
          show "base_env w = Inr base" by fact
          show "\<forall>u. r = Inr u \<longrightarrow> x = Inr u \<and> gates_closed w out g = Some (g, Inr u)" using c g s(2) by auto
        qed
      qed
    qed
  qed
qed

subsection \<open>Settings, credentials and addresses\<close>

abbreviation base_keys :: "string list" where
  "base_keys \<equiv> [''PATH'', ''PYTHONUNBUFFERED'']"

definition gateway_keys :: "string list list" where
  "gateway_keys =
     [base_keys @ [''GATEWAY_PORT'', ''CATALOG_PORT'', ''AGENT_TOKEN_1'', ''AGENT_TOKEN_2'', ''PRODUCT_ONLY_TOKEN'',
        ''INTERACTIVE_TOKEN'', ''ADMIN_TOKEN'', ''BENCHMARK_TRACE_PATH''],
      base_keys @ [''GATEWAY_PORT'', ''UPSTREAM_URL'', ''SERVICE_CONFIG'', ''SUPPORT_AGENT_TOKEN'', ''SUPPORT_READ_TOKEN'',
        ''SUPPORT_INTERACTIVE_TOKEN'', ''ADMIN_TOKEN'', ''BENCHMARK_TRACE_PATH'']]"

text \<open>What a run with the tokens \<open>t\<close> may do. The upstreams get no token; the administration token is
  known to the gateways and sent only with a limit change.\<close>

definition bearer :: "string \<Rightarrow> string" where
  "bearer tok = ''Bearer '' @ tok"

fun lab_permitted :: "lab_host \<Rightarrow> lab_tokens \<Rightarrow> deed \<Rightarrow> bool" where
  "lab_permitted w t (Started p c env) \<longleftrightarrow> inherits_path_only w env \<and>
     (c = catalog_command w \<and> dkeys env = base_keys @ [''CATALOG_PORT''] \<or>
      c = [interpreter w, ''examples/support_service.py''] \<and> dkeys env = base_keys @ [''SUPPORT_PORT'', ''SUPPORT_TRACE_PATH''] \<or>
      c = binary w ''ai-protocol'' \<and> dkeys env \<in> set gateway_keys \<and> dget env ''ADMIN_TOKEN'' = Some (admin t) \<or>
      c = binary w ''dispatcher'' \<and> dkeys env = base_keys @
        [''SERVICE_URL'', ''DISPATCH_SOCKET'', ''DISPATCH_TOKEN_VARS'', ''FULL_TOKEN'', ''LIMITED_TOKEN'', ''DISPATCH_TRACE_PATH''] \<and>
        dget env ''FULL_TOKEN'' = Some (full t) \<and> dget env ''LIMITED_TOKEN'' = Some (limited t))"
| "lab_permitted w t (Asked credential url) \<longleftrightarrow>
     local_url url \<and> (credential = None \<or> credential = Some (bearer (full t)) \<or> credential = Some (bearer (limited t)))"
| "lab_permitted w t (Called credential url body) \<longleftrightarrow> local_url url \<and> credential = bearer (full t)"
| "lab_permitted w t (Patched credential url body) \<longleftrightarrow>
     credential = bearer (admin t) \<and> (\<exists>port. url = ''http://127.0.0.1:'' @ port @ ''/admin/principals/demo-owner/limits'')"
| "lab_permitted w t (Handed path tok operation params) \<longleftrightarrow>
     (tok = full t \<or> tok = limited t) \<and> (\<exists>d name. path = child_path d (name @ ''.sock''))"
| "lab_permitted w t (Made_dir d) = False"
| "lab_permitted w t (Removed_dir d) = False"
| "lab_permitted w t d = True"

abbreviation lab_runs :: "lab_host \<Rightarrow> lab_tokens \<Rightarrow> 'a task \<Rightarrow> bool" where
  "lab_runs w t \<equiv> runs (grows (\<lambda>_. lab_permitted w t))"

lemma lab_quietly: "quietly (\<lambda>_. lab_permitted w t)"
  unfolding quietly_def
proof (intro allI impI)
  fix d assume "quiet d"
  then show "lab_permitted w t d" by (cases d) simp_all
qed

lemma role_environments:
  assumes "base_env w = Inr base"
  shows "lab_permitted w t (Started p (catalog_command w) (merge base [(''CATALOG_PORT'', a)]))"
    and "lab_permitted w t (Started p [interpreter w, ''examples/support_service.py'']
      (merge base [(''SUPPORT_PORT'', a), (''SUPPORT_TRACE_PATH'', b)]))"
    and "lab_permitted w t (Started p (binary w ''dispatcher'') (merge base (dispatcher_settings t out name origin socket)))"
proof -
  from assms obtain path where base: "base = [(''PATH'', path), (''PYTHONUNBUFFERED'', ''1'')]" "dget (variables w) ''PATH'' = Some path"
    by (auto simp: base_env_def split: option.splits)
  show "lab_permitted w t (Started p (catalog_command w) (merge base [(''CATALOG_PORT'', a)]))"
    unfolding lab_permitted.simps
    by (intro conjI disjI1 refl) (simp_all add: inherits_path_only_def base merge_def dkeys_def)
  show "lab_permitted w t (Started p [interpreter w, ''examples/support_service.py'']
      (merge base [(''SUPPORT_PORT'', a), (''SUPPORT_TRACE_PATH'', b)]))"
    unfolding lab_permitted.simps
    by (rule conjI, simp add: inherits_path_only_def base merge_def, rule disjI2, rule disjI1, rule conjI, rule refl)
      (simp add: base merge_def dkeys_def)
  show "lab_permitted w t (Started p (binary w ''dispatcher'') (merge base (dispatcher_settings t out name origin socket)))"
    unfolding lab_permitted.simps
    by (rule conjI, simp add: inherits_path_only_def base merge_def dispatcher_settings_def, rule disjI2, rule disjI2, rule disjI2,
        intro conjI refl) (simp_all add: base merge_def dkeys_def dispatcher_settings_def)
qed

lemma gateway_environments:
  assumes "base_env w = Inr base" "(name, env) \<in> set (gateway_environs w t a b c d)"
  shows "lab_permitted w t (Started p (binary w ''ai-protocol'') (merge base (merge env (gateway_extra t out name))))"
proof -
  from assms(1) obtain path where base: "base = [(''PATH'', path), (''PYTHONUNBUFFERED'', ''1'')]" "dget (variables w) ''PATH'' = Some path"
    by (auto simp: base_env_def split: option.splits)
  let ?env = "merge base (merge env (gateway_extra t out name))"
  consider "env = snd (gateway_environs w t a b c d ! 0)" | "env = snd (gateway_environs w t a b c d ! 1)"
    using assms(2) unfolding gateway_environs_def by auto
  then have "inherits_path_only w ?env \<and> dkeys ?env \<in> set gateway_keys \<and> dget ?env ''ADMIN_TOKEN'' = Some (admin t)"
  proof cases
    case 1
    then have "inherits_path_only w ?env" "dkeys ?env = gateway_keys ! 0" "dget ?env ''ADMIN_TOKEN'' = Some (admin t)"
      by (simp_all add: gateway_environs_def gateway_extra_def inherits_path_only_def base merge_def dkeys_def gateway_keys_def)
    then show ?thesis unfolding gateway_keys_def by simp
  next
    case 2
    then have "inherits_path_only w ?env" "dkeys ?env = gateway_keys ! 1" "dget ?env ''ADMIN_TOKEN'' = Some (admin t)"
      by (simp_all add: gateway_environs_def gateway_extra_def inherits_path_only_def base merge_def dkeys_def gateway_keys_def)
    then show ?thesis unfolding gateway_keys_def by simp
  qed
  then show ?thesis by (simp only: lab_permitted.simps simp_thms)
qed

lemma lab_launch:
  assumes "\<And>p. lab_permitted w t (Started p command (merge base env))"
  shows "lab_runs w t (launch w base out name command env)"
  unfolding launch_def Let_def using assms
  by (intro grow.runs_bind grow.runs_quiet) (auto simp: runs_def spawn_def grows.stays intro!: grows_one split: sum.splits)

lemma lab_until: "lab_runs w t m \<Longrightarrow> lab_runs w t (until_running w n m)"
  using grows_until [OF lab_quietly, of w t m w] unfolding until_running_def runs_def by blast

lemma lab_one: "lab_permitted w t d \<Longrightarrow> lab_runs w t (\<lambda>h. Some (h @ [d], q h))"
  using grows_one [of "\<lambda>_. lab_permitted w t"] by (simp add: runs_def)

lemma lab_rows: "lab_runs w t (rows w path)"
  unfolding rows_def by (rule grow.runs_quiet)

lemma lab_post: "local_url url \<Longrightarrow> lab_runs w t (post_json w (bearer (full t)) url body)"
  unfolding post_json_def by (rule lab_one) (simp only: lab_permitted.simps simp_thms)

lemma lab_patch: "lab_runs w t (patch_limit w (admin t) (''http://127.0.0.1:'' @ port) limit)"
proof -
  have "lab_permitted w t (Patched (''Bearer '' @ admin t) ((''http://127.0.0.1:'' @ port) @ ''/admin/principals/demo-owner/limits'') body)" for body
    unfolding lab_permitted.simps bearer_def append.assoc by (rule conjI [OF refl], rule exI, rule refl)
  then show ?thesis unfolding patch_limit_def Let_def by (intro grow.runs_bind grow.runs_quiet lab_one)
qed

lemma lab_save: "lab_runs w t (save_pretty w path v)"
  unfolding save_pretty_def by (intro grow.runs_bind grow.runs_quiet grows_save_file) simp

lemma lab_tmap: "(\<And>x. x \<in> set xs \<Longrightarrow> lab_runs w t (f x)) \<Longrightarrow> lab_runs w t (tmap f xs)"
  by (induction xs) (auto intro!: grow.runs_bind grow.runs_quiet)

lemma lab_tdict: "(\<And>name x. (name, x) \<in> set d \<Longrightarrow> lab_runs w t (f name x)) \<Longrightarrow> lab_runs w t (tdict f d)"
  unfolding tdict_def by (rule lab_tmap) (auto intro!: grow.runs_bind grow.runs_quiet)

lemma bind_give_Inr: "tbind (give (Inr x)) f = f x"
  by (rule ext) (simp add: bind_give)

lemma lab_given: "(\<And>x. v = Inr x \<Longrightarrow> lab_runs w t (f x)) \<Longrightarrow> lab_runs w t (tbind (give v) f)"
  by (rule grow.runs_bind_known [OF grow.runs_quiet(1)]) (simp add: give_def)

lemma socket_entry: "entry (lab_sockets d) name = Inr path \<Longrightarrow> path = child_path d (name @ ''.sock'')"
  by (auto simp: entry_def service_names_def split: if_splits)

lemma lab_connect:
  assumes "tok \<noteq> []" "lab_runs w t (f (child_path d (name @ ''.sock''), tok))"
  shows "lab_runs w t (tbind (connect w (child_path d (name @ ''.sock'')) tok) f)"
proof -
  have p: "child_path d (name @ ''.sock'') \<noteq> []" by (simp add: child_path_def)
  have "dispatcher_client (variables w) (Some (child_path d (name @ ''.sock''))) (Some tok) = Inr (child_path d (name @ ''.sock''), tok)"
    using assms(1) p by (auto simp: dispatcher_client_def or_environ_def split: list.split)
  with assms(2) show ?thesis by (simp add: connect_def bind_give_Inr)
qed

lemma lab_call:
  "tok = full t \<or> tok = limited t \<Longrightarrow> lab_runs w t (call_dispatcher w (child_path d (name @ ''.sock''), tok) op params)"
  unfolding call_dispatcher_def handed_def Let_def fst_conv snd_conv
  by (rule lab_one) (auto simp del: append.simps)

lemma lab_service:
  "tok \<noteq> [] \<Longrightarrow> lab_runs w t (body (bearer tok)) \<Longrightarrow> lab_runs w t (in_service w tok body)"
  unfolding bearer_def by (rule grows_in_service)

lemma lab_asked:
  assumes "c = None \<or> c = Some (bearer (full t)) \<or> c = Some (bearer (limited t))"
  shows "lab_permitted w t (Asked c ((''http://127.0.0.1:'' @ port) @ path))"
    and "lab_permitted w t (Asked c (url_for B (Some (''http://127.0.0.1:'' @ port)) path))"
  using assms unfolding lab_permitted.simps append.assoc by (simp_all only: local_url_append local_url_for simp_thms)

lemma origin_known:
  "(name, origin) \<in> set (lab_origins ports) \<Longrightarrow> \<exists>port. origin = ''http://127.0.0.1:'' @ port"
  "entry (lab_origins ports) name = Inr origin \<Longrightarrow> \<exists>port. origin = ''http://127.0.0.1:'' @ port"
  unfolding entry_def by (auto simp del: append.simps split: if_splits)

lemma lab_execute:
  "lab_runs w t (execute_at w (bearer (full t)) (''http://127.0.0.1:'' @ port) op params)"
proof (rule grows_execute_at)
  fix path
  show "lab_permitted w t (Called (bearer (full t)) (url_for (base_url (variables w)) (Some (''http://127.0.0.1:'' @ port)) path) params)"
    unfolding lab_permitted.simps by (intro conjI local_url_for refl)
qed

lemma lab_gets:
  assumes "c = None \<or> c = Some (bearer (full t)) \<or> c = Some (bearer (limited t))"
  shows "lab_runs w t (gets_ok w c ((''http://127.0.0.1:'' @ port) @ path))"
    and "lab_runs w t (get_json w c ((''http://127.0.0.1:'' @ port) @ path))"
  by (rule grows_gets, rule lab_asked [OF assms])+

lemma lab_discover:
  "lab_runs w t (discover_at w (bearer (full t)) (''http://127.0.0.1:'' @ port))"
  "lab_runs w t (discover_at w (bearer (limited t)) (''http://127.0.0.1:'' @ port))"
  by (rule grows_discover, rule lab_asked, simp only: simp_thms)+

lemma lab_http:
  "lab_runs w t (gets_ok w (Some (bearer (full t))) ((''http://127.0.0.1:'' @ port) @ path))"
  "lab_runs w t (get_json w (Some (bearer (full t))) ((''http://127.0.0.1:'' @ port) @ path))"
  "lab_runs w t (gets_ok w None ((''http://127.0.0.1:'' @ port) @ path))"
  by (rule lab_gets, simp only: simp_thms)+

lemma lab_each:
  "(\<And>name port. lab_runs w t (f (name, ''http://127.0.0.1:'' @ port))) \<Longrightarrow> lab_runs w t (teach f (lab_origins ports))"
  by (rule grow.runs_each) (metis origin_known(1) surj_pair)

lemma lab_dict:
  "(\<And>name port. lab_runs w t (f name (''http://127.0.0.1:'' @ port))) \<Longrightarrow> lab_runs w t (tdict f (lab_origins ports))"
  by (rule lab_tdict) (metis origin_known(1))

lemma lab_direct:
  assumes "full t \<noteq> []"
  shows "lab_runs w t (direct_calls w n t out (lab_origins ports))"
  unfolding direct_calls_def
  by (intro lab_service assms grow.runs_bind lab_each lab_dict grow.runs_quiet lab_save;
      (simp only: prod.case)?; intro grow.runs_bind grow.runs_quiet lab_until lab_http lab_discover lab_execute lab_patch)

lemma lab_client:
  assumes "tok \<noteq> []" "\<And>path. path = child_path d (name @ ''.sock'') \<Longrightarrow> lab_runs w t (f (path, tok))"
  shows "lab_runs w t (tbind (give (entry (lab_sockets d) name)) (\<lambda>path. tbind (connect w path tok) f))"
proof (rule lab_given)
  fix path assume "entry (lab_sockets d) name = Inr path"
  from socket_entry [OF this] have p: "path = child_path d (name @ ''.sock'')" .
  show "lab_runs w t (tbind (connect w path tok) f)"
    unfolding p by (rule lab_connect) (use assms in blast)+
qed

lemma lab_call_path:
  "path = child_path d (name @ ''.sock'') \<Longrightarrow> lab_runs w t (call_dispatcher w (path, full t) op params)"
  "path = child_path d (name @ ''.sock'') \<Longrightarrow> lab_runs w t (call_dispatcher w (path, limited t) op params)"
  by (simp_all only: lab_call simp_thms)

lemma lab_dispatched:
  assumes "full t \<noteq> []"
  shows "lab_runs w t (dispatched_calls w t (lab_sockets d) selected direct)"
  unfolding dispatched_calls_def
  by (intro lab_tdict lab_client assms grow.runs_bind grow.runs_quiet lab_call_path(1))

lemma lab_restricted:
  assumes "limited t \<noteq> []"
  shows "lab_runs w t (restricted_calls w t out (lab_sockets d) selected op)"
  unfolding restricted_calls_def
  by (intro lab_client assms grow.runs_bind grow.runs_quiet lab_rows lab_call_path(2))

lemma lab_limit_change:
  assumes "full t \<noteq> []"
  shows "lab_runs w t (limit_change w n t out (lab_origins ports) selected)"
  unfolding limit_change_def
proof (intro lab_service assms lab_given)
  fix catalog support path
  assume "entry (lab_origins ports) ''catalog'' = Inr catalog" "entry (lab_origins ports) ''support'' = Inr support"
  then obtain c s where o: "catalog = ''http://127.0.0.1:'' @ c" "support = ''http://127.0.0.1:'' @ s"
    using origin_known(2) by metis
  show "lab_runs w t
     (tbind (post_json w (bearer (full t)) (support @ path) (JDict [(''query'', JStr []), (''url'', JStr ''http://127.0.0.1:1'')])) (\<lambda>response.
      tbind (check (status_code response = 422) []) (\<lambda>_.
      tbind (patch_limit w (admin t) catalog 3) (\<lambda>_.
      tbind (until_running w n
        (tbind (rows w (trace_path out ''catalog-dispatcher'')) (\<lambda>rs. give (any_of (saw_limit 3) rs)))) (\<lambda>_.
      tbind (get_json w (Some (bearer (full t))) (support @ ''/agent-policy'')) (\<lambda>policy.
      tbind (give (rbind (subscript policy ''limits'') (\<lambda>l. subscript l ''max_outstanding''))) (\<lambda>limit.
      tbind (check (py_eq limit (JInt 2)) []) (\<lambda>_.
      tbind (rows w (trace_path out ''support-dispatcher'')) (\<lambda>rs.
      tbind (give (any_of (saw_limit 2) rs)) (\<lambda>seen. check seen []))))))))))"
    unfolding o
    by (intro grow.runs_bind grow.runs_quiet lab_post local_url_more local_url_append lab_patch lab_until lab_rows lab_http)
qed

lemma lab_gather:
  assumes "\<And>c op. (c, op) \<in> set calls \<Longrightarrow> lab_permitted w t (handed c op params)"
  shows "grows (\<lambda>_. lab_permitted w t) h (h @ map (\<lambda>(c, op). handed c op params) calls)"
  using assms
proof (induction calls rule: rev_induct)
  case (snoc x calls)
  let ?h = "h @ map (\<lambda>(c, op). handed c op params) calls"
  have "grows (\<lambda>_. lab_permitted w t) h ?h" using snoc by auto
  moreover have "lab_permitted w t (case x of (c, op) \<Rightarrow> handed c op params)" using snoc.prems by (cases x) simp
  ultimately have "grows (\<lambda>_. lab_permitted w t) h (?h @ [case x of (c, op) \<Rightarrow> handed c op params])" by (rule grows.adds)
  then show ?case by simp
qed (simp add: grows.stays)

lemma lab_limited:
  assumes "limited t \<noteq> []"
  shows "lab_runs w t (limited_operation w t (lab_origins ports))"
  unfolding limited_operation_def
proof (intro lab_service assms lab_given)
  fix origin assume "entry (lab_origins ports) ''support'' = Inr origin"
  from origin_known(2) [OF this] obtain port where o: "origin = ''http://127.0.0.1:'' @ port" by blast
  show "lab_runs w t (tbind (discover_at w (bearer (limited t)) origin) (\<lambda>ops.
       case ops of
         [op] \<Rightarrow> tbind (give (subscript op ''name'')) (\<lambda>name.
                 tbind (check (py_eq name (JStr ''get_ticket'')) []) (\<lambda>_. give (Inr op)))
       | _ \<Rightarrow> give (Inl (AssertionError []))))"
    unfolding o by (intro grow.runs_bind lab_discover) (auto split: list.split intro!: grow.runs_bind grow.runs_quiet)
qed

text \<open>The calls that \<open>gather\<close> hands over are those of the comprehension before it.\<close>

lemma lab_concurrent:
  assumes "full t \<noteq> []"
  shows "lab_runs w t (concurrent_calls w t (lab_sockets d) selected)"
  unfolding concurrent_calls_def
proof (rule grow.runs_bind_known)
  let ?f = "\<lambda>name. tbind (give (entry (lab_sockets d) name)) (\<lambda>path. tbind (connect w path (full t)) (\<lambda>client.
         tbind (give (entry selected name)) (\<lambda>op. give (Inr (client, op)))))"
  show "lab_runs w t (tmap ?f (concat (map (replicate 6) service_names)))"
    by (intro lab_tmap lab_client assms grow.runs_bind grow.runs_quiet)
  fix calls h g assume m: "tmap ?f (concat (map (replicate 6) service_names)) h = Some (g, Inr calls)"
  have "\<forall>x \<in> set calls. case x of (c, op) \<Rightarrow> lab_permitted w t (handed c op empty_query)"
  proof (rule tmap_results [OF m])
    fix name k j x assume r: "?f name k = Some (j, Inr x)"
    then obtain path client op where "entry (lab_sockets d) name = Inr path" and x: "x = (client, op)"
      and "dispatcher_client (variables w) (Some path) (Some (full t)) = Inr client"
      by (auto simp: bind_Inr give_Inr connect_def)
    moreover from this(1) have "path = child_path d (name @ ''.sock'')" by (rule socket_entry)
    ultimately have "client = (child_path d (name @ ''.sock''), full t)"
      using assms by (auto simp: dispatcher_client_def or_environ_def child_path_def split: list.splits)
    with x show "case x of (c, op) \<Rightarrow> lab_permitted w t (handed c op empty_query)" by (auto simp: handed_def)
  qed
  then have "lab_runs w t (gather w calls empty_query)"
    by (auto simp: runs_def gather_def Let_def intro!: lab_gather)
  then show "lab_runs w t (tbind (gather w calls empty_query) (\<lambda>concurrent.
     tbind (give (all_of (\<lambda>r. rbind (subscript r ''ok'') (\<lambda>ok. Inr (truthy ok))) concurrent)) (\<lambda>all_ok.
     tbind (check all_ok []) (\<lambda>_. give (Inr concurrent)))))"
    by (intro grow.runs_bind grow.runs_quiet)
qed

lemma lab_ends:
  "full t \<noteq> [] \<Longrightarrow> lab_runs w t (final_policies w n t (lab_origins ports))"
  "lab_runs w t (check_traces w out)"
  unfolding final_policies_def check_traces_def
  by (intro lab_service lab_dict grow.runs_bind grow.runs_each grow.runs_quiet lab_until lab_rows lab_http; assumption)+

lemma lab_block_permitted:
  assumes base: "base_env w = Inr base" and tokens: "full t \<noteq> []" "limited t \<noteq> []"
  shows "lab_runs w t (lab_block w n base t out ports (lab_origins ports) (lab_sockets d))"
proof -
  have up: "lab_runs w t (start_upstreams w n base out (ports ! 0) (ports ! 1))"
    unfolding start_upstreams_def
    by (intro grow.runs_bind lab_launch role_environments [OF base] lab_until grow.runs_if grow.runs_quiet
        lab_http(3) [unfolded append.assoc])
  have gw: "lab_runs w t (start_gateways w base t out (gateway_environs w t (ports ! 0) (ports ! 1) (ports ! 2) (ports ! 3)))"
    unfolding start_gateways_def
    by (rule grow.runs_each, clarify) (intro lab_launch gateway_environments [OF base])
  have di: "lab_runs w t (start_dispatchers w n base t out (lab_origins ports) (lab_sockets d))"
    unfolding start_dispatchers_def
    by (intro grow.runs_bind lab_each lab_until grow.runs_quiet; (simp only: prod.case)?;
        intro grow.runs_bind grow.runs_quiet lab_launch role_environments [OF base])
  show ?thesis
    unfolding lab_block_def
    by (intro grow.runs_bind up gw di runs_case_prod lab_direct lab_dispatched lab_limited lab_restricted lab_limit_change
        lab_concurrent lab_ends tokens grow.runs_quiet lab_save)
qed

lemma opened_in_logs: "Opened_log path \<in> set g \<Longrightarrow> path \<in> set (logs g)"
  unfolding logs_def by force

lemma only_ports:
  assumes "\<forall>x \<in> set j. \<exists>n. x = Bound_port n"
  shows "tidy h (h @ j)" "started_in j = 0" "logs j = []" "Made_dir d \<notin> set j" "\<forall>x \<in> set j. lab_permitted w t x"
proof -
  show "tidy h (h @ j)" using assms
  proof (induction j rule: rev_induct)
    case (snoc x j)
    then have "tidy h (h @ j)" by simp
    moreover from snoc.prems obtain n where "x = Bound_port n" by auto
    then have "tidy (h @ j) ((h @ j) @ [x])" by (intro tidy_one) simp_all
    ultimately show ?case using tidied.trans by fastforce
  qed (simp add: tidied.refl)
  show "started_in j = 0" "logs j = []" using assms by (induction j) (auto simp: logs_def)
  show "Made_dir d \<notin> set j" "\<forall>x \<in> set j. lab_permitted w t x" using assms by auto
qed

lemma integration_end:
  assumes "integration_run w out h = Some (g, r)"
    and tokens: "\<And>h name. fresh_token w h name \<noteq> []"
  shows "tidy h g \<and> (\<forall>path \<in> set (drop (length (logs h)) (logs g)). Closed_log path \<in> set g) \<and>
    (\<exists>t k d. g = h @ k \<and> (\<exists>j. t = lab_tokens_at w (h @ j)) \<and>
       (\<forall>x \<in> set k. lab_permitted w t x \<or> x = Made_dir d \<or> x = Removed_dir d) \<and> (Made_dir d \<in> set k \<longrightarrow> Removed_dir d \<in> set k))"
  using assms(1)
proof (cases rule: integration_shape)
  case (early j)
  have "\<exists>j'. lab_tokens_at w (h @ j) = lab_tokens_at w (h @ j')" by blast
  moreover have "\<forall>x \<in> set j. lab_permitted w (lab_tokens_at w (h @ j)) x" using only_ports(5) [OF early(2)] .
  moreover have "Made_dir [] \<notin> set j" using only_ports(4) [OF early(2)] .
  moreover have "drop (length (logs h)) (logs g) = []" using only_ports(3) [OF early(2)] early(1) by (simp add: logs_append)
  ultimately show ?thesis using only_ports(1) [OF early(2)] early(1) by (metis empty_iff list.set(1))
next
  case (ran j d k base ports x)
  let ?t = "lab_tokens_at w (h @ j)" and ?h = "h @ j @ [Made_dir d]"
  have "tidy (h @ j) ((h @ j) @ [Made_dir d])" by (rule tidy_one) simp_all
  with only_ports(1) [OF ran(1)] have "tidy h ?h" using tidied.trans by fastforce
  from block_stopped [OF ran(2) this]
  have b: "tidy h k" "\<forall>path \<in> set (drop (length (logs h)) (logs k)). Closed_log path \<in> set k" by blast+
  have "full ?t \<noteq> []" "limited ?t \<noteq> []" using tokens by (simp_all add: lab_tokens_at_def)
  from lab_block_permitted [OF ran(4) this]
  have "lab_runs w ?t (tfinally (lab_block w (started_in h) base ?t out ports (lab_origins ports) (lab_sockets d)) (stop_all w h))"
  proof (rule grow.runs_finally)
    have "runs (grows (\<lambda>_. lab_permitted w ?t))
        (tbind (teach (stop_child w SIGINT) ps) (\<lambda>_. teach (\<lambda>path. log (Closed_log path) (Inr ())) paths))" for ps paths
      by (intro grow.runs_bind grow.runs_each grows_stop_child lab_quietly grows_log) simp
    then show "lab_runs w ?t (stop_all w h)" unfolding stop_all_def runs_def by blast
  qed
  from grows_permitted [OF this ran(2)] obtain i where i: "k = ?h @ i" "\<forall>y \<in> set i. lab_permitted w ?t y" by blast
  have g: "g = h @ (j @ [Made_dir d] @ i @ [Removed_dir d])" using ran(3) i(1) by simp
  have "tidy k g" unfolding ran(3) by (rule tidy_one) simp_all
  then have "tidy h g" using b(1) tidied.trans by blast
  moreover have "\<forall>path \<in> set (drop (length (logs h)) (logs g)). Closed_log path \<in> set g"
    using b(2) unfolding ran(3) by (simp add: logs_append logs_def [of "[Removed_dir d]"])
  moreover have "\<exists>j'. ?t = lab_tokens_at w (h @ j')" by blast
  moreover have "\<forall>x \<in> set (j @ [Made_dir d] @ i @ [Removed_dir d]). lab_permitted w ?t x \<or> x = Made_dir d \<or> x = Removed_dir d"
    using i(2) only_ports(5) [OF ran(1)] by auto
  moreover have "Removed_dir d \<in> set (j @ [Made_dir d] @ i @ [Removed_dir d])" by simp
  ultimately show ?thesis using g by blast
qed

end
