(* ===== verification/Integration_Success.thy ===== *)
theory Integration_Success
  imports Integration_Props
begin

text \<open>
  What a returning integration demonstration has seen: each service answered the connector as it
  answered the direct call, the restricted credential was refused without an upstream request, the
  traces stay within their limits, and both gates closed empty.
\<close>

subsection \<open>Results of the combinators\<close>

lemma tdict_Inr:
  assumes "tdict f d h = Some (g, Inr ys)" "(name, y) \<in> set ys"
  shows "\<exists>x k j. (name, x) \<in> set d \<and> f name x k = Some (j, Inr y)"
proof -
  from tmap_Inr [OF assms(1) [unfolded tdict_def] assms(2)] obtain n x k j where
    "(n, x) \<in> set d" "tbind (f n x) (\<lambda>y. give (Inr (n, y))) k = Some (j, Inr (name, y))" by auto
  then show ?thesis by (auto simp: bind_Inr give_Inr)
qed

lemma tmap_length: "tmap f xs h = Some (g, Inr ys) \<Longrightarrow> (\<And>x k j y. f x k = Some (j, Inr y) \<Longrightarrow> fst y = fst x) \<Longrightarrow> map fst ys = map fst xs"
proof (induction xs arbitrary: h ys)
  case (Cons x xs)
  then obtain y k zs where y: "f x h = Some (k, Inr y)" "tmap f xs k = Some (g, Inr zs)" "ys = y # zs"
    by (auto simp: bind_Inr give_Inr)
  then show ?case using Cons.IH [OF y(2)] Cons.prems(2) by auto
qed (simp add: give_Inr)

lemma tdict_keys: "tdict f d h = Some (g, Inr ys) \<Longrightarrow> map fst ys = map fst d"
  unfolding tdict_def by (rule tmap_length) (auto simp: bind_Inr give_Inr split: prod.splits)

lemma in_service_Inr: "in_service w tok body h = Some (g, Inr x) \<Longrightarrow> \<exists>http. body http h = Some (g, Inr x)"
  by (auto simp: in_service_def bind_Inr give_Inr)

subsection \<open>What the stages have seen\<close>

text \<open>The operation was published at the service's address, takes a query, and \<open>v\<close> was its direct answer.\<close>

definition answered_directly :: "lab_host \<Rightarrow> string \<Rightarrow> json \<Rightarrow> json \<Rightarrow> bool" where
  "answered_directly w origin op v \<longleftrightarrow>
     (\<exists>http ops h j k m.
        discover_at w http origin h = Some (j, Inr ops) \<and> op \<in> set ops \<and> takes_query op = Inr True \<and>
        execute_at w http origin op empty_query k = Some (m, Inr v))"

lemma direct_calls_Inr:
  assumes "direct_calls w n t out origins h = Some (g, Inr (selected, direct))" "distinct (map fst origins)"
  shows "\<forall>(name, v) \<in> set direct. \<exists>op origin. entry selected name = Inr op \<and> (name, origin) \<in> set origins \<and>
    answered_directly w origin op v"
proof -
  obtain http k1 k2 operations k3 k4 where
    o: "tdict (\<lambda>_ origin. discover_at w http origin) origins k1 = Some (k2, Inr operations)"
    and s: "select_operations operations = Inr selected"
    and d: "tdict (\<lambda>name origin. tbind (give (entry selected name)) (\<lambda>op. execute_at w http origin op empty_query)) origins k3 =
      Some (k4, Inr direct)"
    using assms(1) unfolding direct_calls_def bind_Inr give_Inr by (auto dest!: in_service_Inr simp: bind_Inr give_Inr)
  show ?thesis
  proof (clarify)
    fix name v assume "(name, v) \<in> set direct"
    from tdict_Inr [OF d this] obtain origin k m op where
      e: "(name, origin) \<in> set origins" "entry selected name = Inr op" "execute_at w http origin op empty_query k = Some (m, Inr v)"
      by (auto simp: bind_Inr give_Inr)
    from each_of_Inr [OF s [unfolded select_operations_def] entry_Inr [OF e(2)]] obtain ops where
      ops: "(name, ops) \<in> set operations" "first_of takes_query ops = Inr op"
      by (auto simp: result_simps)
    from tdict_Inr [OF o ops(1)] obtain i j where "discover_at w http origin i = Some (j, Inr ops)"
      using eq_key_imp_eq_value [OF assms(2) e(1)] by metis
    with e first_of_Inr [OF ops(2)] show "\<exists>op origin. entry selected name = Inr op \<and> (name, origin) \<in> set origins \<and>
        answered_directly w origin op v"
      unfolding answered_directly_def by blast
  qed
qed

text \<open>The connector with the token \<open>tok\<close> answered the same operation with an equal body.\<close>

definition answered_equally :: "lab_host \<Rightarrow> string \<Rightarrow> json \<Rightarrow> json \<Rightarrow> bool" where
  "answered_equally w tok op v \<longleftrightarrow>
     (\<exists>path h reply body. answer_of w h (h @ [handed (path, tok) op empty_query]) (path, tok) op empty_query = Inr reply \<and>
        subscript reply ''body'' = Inr body \<and> py_eq body v)"

lemma connect_Inr: "tok \<noteq> [] \<Longrightarrow> connect w path tok h = Some (g, Inr c) \<Longrightarrow> snd c = tok"
  by (cases tok) (auto simp: connect_def give_Inr dispatcher_client_def or_environ_def result_simps)

lemma call_dispatcher_Inr:
  "call_dispatcher w c op params h = Some (g, Inr v) \<longleftrightarrow>
   g = h @ [handed c op params] \<and> answer_of w h (h @ [handed c op params]) c op params = Inr v"
  by (auto simp: call_dispatcher_def Let_def)

lemma dispatched_calls_Inr:
  assumes "dispatched_calls w t sockets selected direct h = Some (g, Inr results)" "full t \<noteq> []"
  shows "\<forall>name \<in> set service_names. \<exists>op v. entry selected name = Inr op \<and> entry direct name = Inr v \<and> answered_equally w (full t) op v"
proof
  fix name assume "name \<in> set service_names"
  moreover have "map fst results = service_names"
    using tdict_keys [OF assms(1) [unfolded dispatched_calls_def]] by (simp add: comp_def)
  ultimately have "name \<in> fst ` set results" by (metis list.set_map)
  then obtain r where "(name, r) \<in> set results" by force
  from tdict_Inr [OF assms(1) [unfolded dispatched_calls_def] this] obtain path k i c op k' ok body v where
    "connect w path (full t) k = Some (i, Inr c)" "entry selected name = Inr op"
    "call_dispatcher w c op empty_query i = Some (k', Inr r)" "subscript r ''body'' = Inr body" "entry direct name = Inr v" "py_eq body v"
    by (auto simp: bind_Inr give_Inr check_Inr)
  moreover from connect_Inr [OF assms(2) this(1)] have "c = (fst c, full t)" by (cases c) simp
  ultimately show "\<exists>op v. entry selected name = Inr op \<and> entry direct name = Inr v \<and> answered_equally w (full t) op v"
    unfolding answered_equally_def call_dispatcher_Inr by metis
qed

text \<open>The restricted token was refused, and the upstream's trace did not grow meanwhile.\<close>

definition refused_unseen :: "lab_host \<Rightarrow> string \<Rightarrow> string \<Rightarrow> json \<Rightarrow> bool" where
  "refused_unseen w tok trace op \<longleftrightarrow>
     (\<exists>path h forbidden before now.
        let params = JDict [(''query'', JStr ''must-not-run'')]; sent = h @ [handed (path, tok) op params] in
        rows w trace h = Some (h, Inr before) \<and>
        answer_of w h sent (path, tok) op params = Inr forbidden \<and>
        field_is forbidden ''status'' (JInt 403) = Inr True \<and> field_is forbidden ''attempts'' (JInt 1) = Inr True \<and>
        rows w trace sent = Some (sent, Inr now) \<and> length now = length before)"

lemma rows_reads: "rows w path h = Some (g, r) \<Longrightarrow> g = h"
  by (auto simp: rows_def ask_def)

lemma restricted_calls_Inr:
  assumes "restricted_calls w t out sockets selected lop h = Some (g, Inr x)" "limited t \<noteq> []"
  shows "\<exists>op. entry selected ''support'' = Inr op \<and> refused_unseen w (limited t) (trace_path out ''support-upstream'') op"
proof -
  let ?params = "JDict [(''query'', JStr ''must-not-run'')]" and ?trace = "trace_path out ''support-upstream''"
  obtain path c i i' before op j j' forbidden now where
    c: "connect w path (limited t) h = Some (i, Inr c)" and op: "entry selected ''support'' = Inr op"
    and r: "rows w ?trace i = Some (i', Inr before)"
    and f: "call_dispatcher w c op ?params i' = Some (j, Inr forbidden)"
    and s: "assert_both (field_is forbidden ''status'' (JInt 403)) (field_is forbidden ''attempts'' (JInt 1)) = Inr ()"
    and n: "rows w ?trace j = Some (j', Inr now)" "length now = length before"
    using assms(1) unfolding restricted_calls_def bind_Inr give_Inr check_Inr by auto
  note q = rows_reads [OF r] rows_reads [OF n(1)]
  have "c = (fst c, limited t)" using connect_Inr [OF assms(2) c] by (cases c) simp
  with op r f s n show ?thesis
    unfolding refused_unseen_def call_dispatcher_Inr assert_both_Inr Let_def q by metis
qed

text \<open>The traces of a service stay within the limits that they record.\<close>

definition kept_limits :: "lab_host \<Rightarrow> string \<Rightarrow> string \<Rightarrow> bool" where
  "kept_limits w out name \<longleftrightarrow>
     (\<exists>h k rs ss. rows w (trace_path out (name @ ''-gateway'')) h = Some (h, Inr rs) \<and>
        rows w (trace_path out (name @ ''-dispatcher'')) k = Some (k, Inr ss) \<and>
        (\<exists>r \<in> set rs. of_event ''admission'' r = Inr True) \<and>
        (\<forall>r \<in> set rs. of_event ''admission'' r = Inr True \<longrightarrow> at_most ''outstanding'' ''limit'' r = Inr True) \<and>
        (\<forall>r \<in> set ss. of_event ''attempt_start'' r = Inr True \<longrightarrow> at_most ''local_active'' ''local_limit'' r = Inr True))"

definition no_credential_seen :: "lab_host \<Rightarrow> string \<Rightarrow> bool" where
  "no_credential_seen w trace \<longleftrightarrow>
     (\<exists>h rs. rows w trace h = Some (h, Inr rs) \<and>
        (\<forall>r \<in> set rs. \<exists>v. subscript r ''authorization_present'' = Inr v \<and> \<not> truthy v))"

definition gate_closed :: "lab_host \<Rightarrow> string \<Rightarrow> string \<Rightarrow> history \<Rightarrow> bool" where
  "gate_closed w out name h \<longleftrightarrow>
     (\<exists>rs r. rows w (trace_path out (name @ ''-dispatcher'')) h = Some (h, Inr rs) \<and> r \<in> set rs \<and>
        of_event ''gate_final'' r = Inr True \<and> field_is r ''active'' (JInt 0) = Inr True)"

lemma teach_all:
  "teach f xs h = Some (g, Inr ()) \<Longrightarrow> x \<in> set xs \<Longrightarrow> \<exists>k j. f x k = Some (j, Inr ())"
  by (induction xs arbitrary: h) (auto simp: bind_Inr)

lemma check_admissions_Inr:
  "check_admissions rs = Inr () \<Longrightarrow> (\<exists>r \<in> set rs. of_event ''admission'' r = Inr True) \<and>
     (\<forall>r \<in> set rs. of_event ''admission'' r = Inr True \<longrightarrow> at_most ''outstanding'' ''limit'' r = Inr True)"
proof -
  assume "check_admissions rs = Inr ()"
  then obtain as where a: "those_of (of_event ''admission'') rs = Inr as" "as \<noteq> []" "all_of (at_most ''outstanding'' ''limit'') as = Inr True"
    by (auto simp: check_admissions_def assert_that_def result_simps split: if_splits)
  from a(2) obtain r where "r \<in> set as" by (cases as) auto
  with those_of_Inr [OF a(1)] a(3) show ?thesis unfolding all_of_Inr by blast
qed

lemma check_attempts_Inr:
  "check_attempts rs = Inr () \<Longrightarrow>
   \<forall>r \<in> set rs. of_event ''attempt_start'' r = Inr True \<longrightarrow> at_most ''local_active'' ''local_limit'' r = Inr True"
proof -
  assume "check_attempts rs = Inr ()"
  then obtain as where a: "those_of (of_event ''attempt_start'') rs = Inr as" "all_of (at_most ''local_active'' ''local_limit'') as = Inr True"
    by (auto simp: check_attempts_def assert_that_def result_simps split: if_splits)
  from those_of_Inr [OF a(1)] a(2) show ?thesis unfolding all_of_Inr by blast
qed

lemma check_traces_Inr:
  assumes "check_traces w out h = Some (g, Inr ())"
  shows "(\<forall>name \<in> set service_names. kept_limits w out name) \<and> no_credential_seen w (trace_path out ''support-upstream'')"
proof
  let ?f = "\<lambda>name. tbind (rows w (trace_path out (name @ ''-gateway''))) (\<lambda>rs. tbind (give (check_admissions rs)) (\<lambda>_.
         tbind (rows w (trace_path out (name @ ''-dispatcher''))) (\<lambda>rs. give (check_attempts rs))))"
  obtain k j rs where k: "teach ?f service_names h = Some (k, Inr ())"
    and r: "rows w (trace_path out ''support-upstream'') k = Some (j, Inr rs)"
    and c: "all_of (\<lambda>r. rbind (subscript r ''authorization_present'') (\<lambda>v. Inr (\<not> truthy v))) rs = Inr True"
    using assms unfolding check_traces_def bind_Inr give_Inr check_Inr by auto
  show "\<forall>name \<in> set service_names. kept_limits w out name"
  proof
    fix name assume "name \<in> set service_names"
    from teach_all [OF k this] obtain a b rs c ss where
      o: "rows w (trace_path out (name @ ''-gateway'')) a = Some (b, Inr rs)" "check_admissions rs = Inr ()"
        "rows w (trace_path out (name @ ''-dispatcher'')) b = Some (c, Inr ss)" "check_attempts ss = Inr ()"
      by (auto simp: bind_Inr give_Inr)
    with rows_reads [OF o(1)] rows_reads [OF o(3)] check_admissions_Inr [OF o(2)] check_attempts_Inr [OF o(4)]
    show "kept_limits w out name" unfolding kept_limits_def by blast
  qed
  from c r rows_reads [OF r] show "no_credential_seen w (trace_path out ''support-upstream'')"
    unfolding no_credential_seen_def all_of_Inr by (auto simp: result_simps)
qed

lemma gates_closed_Inr:
  assumes "gates_closed w out h = Some (g, Inr ())"
  shows "\<forall>name \<in> set service_names. gate_closed w out name h"
proof -
  have "\<exists>rs r. rows w (trace_path out (name @ ''-dispatcher'')) h = Some (h, Inr rs) \<and> r \<in> set rs \<and>
      of_event ''gate_final'' r = Inr True \<and> field_is r ''active'' (JInt 0) = Inr True"
    if "teach (\<lambda>name. tbind (rows w (trace_path out (name @ ''-dispatcher''))) (\<lambda>rs.
         tbind (give (any_of (\<lambda>r. rbind (of_event ''gate_final'' r) (\<lambda>b. if b then field_is r ''active'' (JInt 0) else Inr False)) rs))
         (\<lambda>closed. check closed []))) xs h = Some (g, Inr ())" "name \<in> set xs" for xs name
    using that
  proof (induction xs)
    case (Cons x xs)
    from Cons.prems(1) obtain k rs where r: "rows w (trace_path out (x @ ''-dispatcher'')) h = Some (k, Inr rs)"
      and c: "any_of (\<lambda>r. rbind (of_event ''gate_final'' r) (\<lambda>b. if b then field_is r ''active'' (JInt 0) else Inr False)) rs = Inr True"
      and rest: "teach (\<lambda>name. tbind (rows w (trace_path out (name @ ''-dispatcher''))) (\<lambda>rs.
         tbind (give (any_of (\<lambda>r. rbind (of_event ''gate_final'' r) (\<lambda>b. if b then field_is r ''active'' (JInt 0) else Inr False)) rs))
         (\<lambda>closed. check closed []))) xs k = Some (g, Inr ())"
      by (auto simp: bind_Inr give_Inr check_Inr)
    note k = rows_reads [OF r]
    show ?case
    proof (cases "name = x")
      case True
      from any_of_Inr [OF c] obtain r where "r \<in> set rs" "of_event ''gate_final'' r = Inr True" "field_is r ''active'' (JInt 0) = Inr True"
        by (auto simp: result_simps split: if_splits)
      with True r k show ?thesis by blast
    next
      case False
      with Cons rest k show ?thesis by auto
    qed
  qed simp
  with assms show ?thesis unfolding gates_closed_def gate_closed_def by blast
qed

lemma lab_block_Inr:
  assumes "lab_block w n base t out ports origins sockets h = Some (g, Inr ())"
    and "distinct (map fst origins)" "full t \<noteq> []" "limited t \<noteq> []"
  shows "\<exists>selected.
    (\<forall>name \<in> set service_names. \<exists>op v origin. entry selected name = Inr op \<and> (name, origin) \<in> set origins \<and>
       answered_directly w origin op v \<and> answered_equally w (full t) op v) \<and>
    (\<exists>op. entry selected ''support'' = Inr op \<and> refused_unseen w (limited t) (trace_path out ''support-upstream'') op) \<and>
    (\<forall>name \<in> set service_names. kept_limits w out name) \<and> no_credential_seen w (trace_path out ''support-upstream'')"
proof -
  obtain k1 k2 selected direct k3 k4 results k5 lop k6 x k7 k8 k9 where
    d: "direct_calls w n t out origins k1 = Some (k2, Inr (selected, direct))"
    and e: "dispatched_calls w t sockets selected direct k3 = Some (k4, Inr results)"
    and r: "restricted_calls w t out sockets selected lop k5 = Some (k6, Inr x)"
    and c: "check_traces w out k8 = Some (k9, Inr ())"
    using assms(1) unfolding lab_block_def bind_Inr
    by (elim exE conjE) (auto simp: bind_Inr split: prod.splits)
  have "\<exists>op v origin. entry selected name = Inr op \<and> (name, origin) \<in> set origins \<and>
       answered_directly w origin op v \<and> answered_equally w (full t) op v" if "name \<in> set service_names" for name
  proof -
    from dispatched_calls_Inr [OF e assms(3)] that obtain op v where
      o: "entry selected name = Inr op" "entry direct name = Inr v" "answered_equally w (full t) op v" by blast
    from direct_calls_Inr [OF d assms(2)] entry_Inr [OF o(2)] o(1) show ?thesis using o(3) by force
  qed
  with restricted_calls_Inr [OF r assms(4)] check_traces_Inr [OF c] show ?thesis by blast
qed

end
