(* ===== verification/Integration_Sample.thy ===== *)
theory Integration_Sample
  imports Integration_Success
begin

text \<open>
  A host on which the integration demonstration returns, so that the properties about its runs can
  be applied: two services whose answers and traces satisfy every check of the script.
\<close>

definition lab_operation :: json where
  "lab_operation = JDict [(''name'', JStr ''get_ticket''), (''description'', JStr ''d''), (''method'', JStr ''POST''),
     (''path'', JStr ''/q''), (''input_schema'', JDict [(''properties'', JDict [(''query'', JDict [(''type'', JStr ''string'')])])])]"

definition lab_policy :: "string \<Rightarrow> json" where
  "lab_policy service = JDict [(''version'', JInt 3), (''service_id'', JStr service), (''principal_id'', JStr ''demo-owner''),
     (''client_class'', JStr ''agent''), (''limits'', JDict [(''scope'', JStr ''principal''), (''max_outstanding'', JInt 2)]),
     (''operations'', JList [lab_operation]), (''outstanding'', JInt 0)]"

definition lab_answer :: json where
  "lab_answer = JDict [(''products'', JList [JNull]), (''tickets'', JList [JNull]), (''ticket'', JDict [(''id'', JInt 101)])]"

definition lab_reply :: "bool \<Rightarrow> string \<Rightarrow> string \<Rightarrow> int \<Rightarrow> int \<Rightarrow> json" where
  "lab_reply ok code execution attempts status =
     JDict [(''ok'', JBool ok), (''code'', JStr code), (''execution'', JStr execution), (''attempts'', JInt attempts),
       (''status'', JInt status), (''body'', lab_answer)]"

text \<open>The peers' answers and the rows of the traces, by a letter each.\<close>

definition lab_loads :: "string \<Rightarrow> json result" where
  "lab_loads s =
     (let row = (\<lambda>event. [(''event'', JStr event), (''authorization_present'', JBool False)])
      in if s = ''o'' @ [newline] then Inr (lab_reply True ''ok'' ''completed'' 1 200)
         else if s = ''f'' @ [newline] then Inr (lab_reply False ''forbidden'' ''not_started'' 1 403)
         else if s = ''i'' @ [newline] then Inr (lab_reply False ''invalid_dispatch_request'' ''not_started'' 0 400)
         else if s = ''2'' then Inr (JDict (row ''policy'' @ [(''limit'', JInt 2)]))
         else if s = ''3'' then Inr (JDict (row ''policy'' @ [(''limit'', JInt 3)]))
         else if s = ''a'' then Inr (JDict (row ''admission'' @ [(''outstanding'', JInt 1), (''limit'', JInt 2)]))
         else if s = ''s'' then Inr (JDict (row ''attempt_start'' @ [(''local_active'', JInt 1), (''local_limit'', JInt 1)]))
         else Inr (JDict (row ''gate_final'' @ [(''active'', JInt 0)])))"

definition lab_peer :: "history \<Rightarrow> peer" where
  "lab_peer h =
     (case rev h of
        Handed path tok operation params # _ \<Rightarrow>
          if params = JDict [(''query'', JStr ''must-not-run'')] then Replies (''f'' @ [newline])
          else if params = JDict [] then Replies (''i'' @ [newline])
          else Replies (''o'' @ [newline])
      | _ \<Rightarrow> Refuses OSError)"

definition sample_lab :: lab_host where
  "sample_lab =
     \<lparr>variables = [(''PATH'', ''/bin'')], interpreter = ''python'', root_dir = ''/r'',
      private_dir = (\<lambda>_. ''/tmp/p''), fresh_token = (\<lambda>_ name. if name = [] then ''x'' else name), bind_any = (\<lambda>h. Inr (int (length h))),
      popen = (\<lambda>_ _. Inr ()), os_status = (\<lambda>_ _. None), os_wait = (\<lambda>_ _ _. Some 0), os_reap = (\<lambda>_ _. Some 0),
      clock = (\<lambda>_. 0), nap = (\<lambda>_. Inr ()),
      fetch = (\<lambda>_ _ url. Inr \<lparr>status_code = 200,
        resp_json = Some (lab_policy (if startswith url ''http://127.0.0.1:3'' then ''catalog'' else ''support'')), retry_after = None\<rparr>),
      path_exists = (\<lambda>_ _. True), save = (\<lambda>_ _. Inr ()),
      schemas = (\<lambda>_. None), validator = (\<lambda>_ _. None), call_clock = (\<lambda>_ _. 0),
      call_answers = (\<lambda>_ _. Inr \<lparr>status_code = 200, resp_json = Some lab_answer, retry_after = None\<rparr>),
      read_file = (\<lambda>_ _. Inr (records [''2'', ''3'', ''a'', ''s'', ''g''])), open_log = (\<lambda>_ _. Inr ()), make_output = (\<lambda>_ _. Inr ()),
      resolved_path = (\<lambda>p. p),
      patch_answer = (\<lambda>_ _ _. Inr \<lparr>status_code = 200, resp_json = None, retry_after = None\<rparr>),
      post_answer = (\<lambda>_ _ _. Inr \<lparr>status_code = 422, resp_json = None, retry_after = None\<rparr>),
      wall_clock = (\<lambda>_ _. 0), fresh_uid = (\<lambda>_. ''u''), socket_peer = (\<lambda>h _ _. lab_peer h), loads = lab_loads, float_text = (\<lambda>_. ''1'')\<rparr>"

text \<open>\<open>good m x\<close>: from a history without a seen end, \<open>m\<close> returns \<open>x\<close> and leaves such a history.\<close>

definition running :: "history \<Rightarrow> bool" where
  "running h \<longleftrightarrow> (\<forall>p. returncode h p = None)"

definition good :: "'a task \<Rightarrow> 'a \<Rightarrow> bool" where
  "good m x \<longleftrightarrow> (\<forall>h. running h \<longrightarrow> (\<exists>g. m h = Some (g, Inr x) \<and> running g))"

lemma goodI: "(\<And>h. running h \<Longrightarrow> \<exists>k. m h = Some (h @ k, Inr x) \<and> running k) \<Longrightarrow> good m x"
  unfolding good_def running_def by (metis (no_types, lifting) option.simps(4) returncode_append)

lemma good_give: "r = Inr x \<Longrightarrow> good (give r) x"
  by (auto simp: good_def give_def)

lemma good_bind: "good m x \<Longrightarrow> good (f x) y \<Longrightarrow> good (tbind m f) y"
  unfolding good_def by (metis bind_known)

lemma good_ask: "(\<And>h. q h = Inr x) \<Longrightarrow> good (ask q) x"
  by (auto simp: good_def ask_def)

lemma good_check: "b \<Longrightarrow> good (check b m) ()"
  by (auto simp: good_def check_def give_def)

lemma good_teach: "\<forall>x \<in> set xs. good (f x) () \<Longrightarrow> good (teach f xs) ()"
  by (induction xs) (auto intro: good_give good_bind)

lemma good_tmap: "list_all2 (\<lambda>x y. good (f x) y) xs ys \<Longrightarrow> good (tmap f xs) ys"
proof (induction xs arbitrary: ys)
  case (Cons x xs)
  then obtain y zs where "ys = y # zs" "good (f x) y" "list_all2 (\<lambda>x y. good (f x) y) xs zs" by (auto simp: list_all2_Cons1)
  with Cons.IH show ?case by (auto intro!: good_bind good_give)
qed (simp add: good_give)

lemma good_tdict:
  "good (f a x) u \<Longrightarrow> good (f b y) v \<Longrightarrow> good (tdict f [(a, x), (b, y)]) [(a, u), (b, v)]"
  unfolding tdict_def by (rule good_tmap) (auto intro!: good_bind good_give)

lemma good_one: "(\<And>p. seen_exit p d = None) \<Longrightarrow> (\<And>h. q h = Inr x) \<Longrightarrow> good (\<lambda>h. Some (h @ [d], q h)) x"
  by (rule goodI) (auto simp: running_def)

lemma sample_any_exited:
  "running h \<Longrightarrow> any_exited sample_lab ps h = Some (h @ map (\<lambda>p. Polled p None) ps, Inr False)"
proof (induction ps arbitrary: h)
  case (Cons p ps)
  then have r: "returncode h p = None" and g: "running (h @ [Polled p None])" by (auto simp: running_def returncode_append)
  have "os_status sample_lab h p = None" by (simp add: sample_lab_def)
  with r Cons.IH [OF g] show ?case by (simp add: tbind_def poll_def Let_def)
qed (simp add: give_def)

lemma good_until:
  assumes "good holds True"
  shows "good (until_running sample_lab n holds) ()"
  unfolding good_def
proof (intro allI impI)
  fix h assume h: "running h"
  let ?k = "h @ map (\<lambda>p. Polled p None) (processes n h)"
  have "returncode (map (\<lambda>p. Polled p None) ps) q = None" for ps q by (induction ps) auto
  with h have "running ?k" by (simp add: running_def returncode_append)
  with assms obtain g where g: "holds ?k = Some (g, Inr True)" "running g" unfolding good_def by blast
  have "until_round sample_lab holds (processes n h) h = Some (g, Inr True)"
    using sample_any_exited [OF h, of "processes n h"] g(1) by (simp add: until_round_def tbind_def texcept_def)
  moreover have "clock sample_lab h = 0" for h by (simp add: sample_lab_def)
  ultimately have "until_running sample_lab n holds h = Some (g, Inr ())"
    by (simp add: until_running_def until_def until_loop.simps)
  with g(2) show "\<exists>g. until_running sample_lab n holds h = Some (g, Inr ()) \<and> running g" by blast
qed

subsubsection \<open>The answers of the sample services\<close>

abbreviation ok_reply :: json where
  "ok_reply \<equiv> lab_reply True ''ok'' ''completed'' 1 200"

abbreviation forbidden_reply :: json where
  "forbidden_reply \<equiv> lab_reply False ''forbidden'' ''not_started'' 1 403"

abbreviation invalid_reply :: json where
  "invalid_reply \<equiv> lab_reply False ''invalid_dispatch_request'' ''not_started'' 0 400"

abbreviation lab_dispatch :: "string \<Rightarrow> string \<Rightarrow> json \<Rightarrow> json \<Rightarrow> json result" where
  "lab_dispatch raw tok operation params \<equiv>
     snd (dispatch_call (\<lambda>_. None) (\<lambda>_ _. None) (\<lambda>_. ''1'') lab_loads (\<lambda>_. 0) ''u'' (Replies raw) tok operation params 10 JNull)"

lemma lab_dispatched_answers:
  "lab_dispatch (''o'' @ [newline]) ''full'' lab_operation empty_query = Inr ok_reply"
  "lab_dispatch (''f'' @ [newline]) ''limited'' lab_operation (JDict [(''query'', JStr ''must-not-run'')]) = Inr forbidden_reply"
  "lab_dispatch (''o'' @ [newline]) ''limited'' lab_operation (JDict [(''id'', JInt 101)]) = Inr ok_reply"
  "lab_dispatch (''i'' @ [newline]) ''limited'' (JStr ''unpublished_operation'') (JDict []) = Inr invalid_reply"
  by code_simp+

lemma lab_call_good:
  assumes "\<And>h. lab_peer (h @ [handed c op params]) = Replies raw" "lab_dispatch raw (snd c) op params = Inr reply"
  shows "good (call_dispatcher sample_lab c op params) reply"
proof (rule goodI)
  fix h
  have "answer_of sample_lab h (h @ [handed c op params]) c op params = Inr reply"
    using assms by (simp add: answer_of_def Let_def sample_lab_def)
  then show "\<exists>k. call_dispatcher sample_lab c op params h = Some (h @ k, Inr reply) \<and> running k"
    by (auto simp: call_dispatcher_def Let_def running_def handed_def)
qed

lemma lab_peers:
  "lab_peer (h @ [handed c op empty_query]) = Replies (''o'' @ [newline])"
  "lab_peer (h @ [handed c op (JDict [(''query'', JStr ''must-not-run'')])]) = Replies (''f'' @ [newline])"
  "lab_peer (h @ [handed c op (JDict [(''id'', JInt 101)])]) = Replies (''o'' @ [newline])"
  "lab_peer (h @ [handed c op (JDict [])]) = Replies (''i'' @ [newline])"
  by (simp_all add: lab_peer_def handed_def empty_query_def)

lemma lab_calls_good:
  "good (call_dispatcher sample_lab (path, ''full'') lab_operation empty_query) ok_reply"
  "good (call_dispatcher sample_lab (path, ''limited'') lab_operation (JDict [(''query'', JStr ''must-not-run'')])) forbidden_reply"
  "good (call_dispatcher sample_lab (path, ''limited'') lab_operation (JDict [(''id'', JInt 101)])) ok_reply"
  "good (call_dispatcher sample_lab (path, ''limited'') (JStr ''unpublished_operation'') (JDict [])) invalid_reply"
  by (rule lab_call_good, rule lab_peers, simp only: snd_conv lab_dispatched_answers)+

lemma lab_connect_good:
  "tok \<noteq> [] \<Longrightarrow> path \<noteq> [] \<Longrightarrow> good (connect sample_lab path tok) (path, tok)"
  unfolding connect_def by (rule good_give) (auto simp: dispatcher_client_def or_environ_def split: list.split)

text \<open>The rows that every trace of the sample holds.\<close>

definition lab_rows_read :: "json list" where
  "lab_rows_read = (case each_of lab_loads [''2'', ''3'', ''a'', ''s'', ''g''] of Inr rs \<Rightarrow> rs | Inl _ \<Rightarrow> [])"

lemma lab_rows_eq: "rows sample_lab path h = Some (h, Inr lab_rows_read)"
proof -
  have "complete_rows lab_loads (records [''2'', ''3'', ''a'', ''s'', ''g'']) = Inr lab_rows_read" by code_simp
  then show ?thesis by (simp add: rows_def ask_def sample_lab_def)
qed

lemma lab_rows_good: "good (rows sample_lab path) lab_rows_read"
  by (simp add: good_def lab_rows_eq)

lemma lab_rows_checked:
  "check_admissions lab_rows_read = Inr ()" "check_attempts lab_rows_read = Inr ()"
  "any_of (saw_limit 3) lab_rows_read = Inr True" "any_of (saw_limit 2) lab_rows_read = Inr True"
  "all_of (\<lambda>r. rbind (subscript r ''authorization_present'') (\<lambda>v. Inr (\<not> truthy v))) lab_rows_read = Inr True"
  "any_of (\<lambda>r. rbind (of_event ''gate_final'' r) (\<lambda>b. if b then field_is r ''active'' (JInt 0) else Inr False)) lab_rows_read = Inr True"
  by code_simp+

lemma lab_launch_good: "good (launch sample_lab base out name command env) ()"
  unfolding launch_def Let_def
proof (rule good_bind)
  show "good (\<lambda>h. case open_log sample_lab h p of Inl e \<Rightarrow> Some (h, Inl e) | Inr _ \<Rightarrow> Some (h @ [Opened_log p], Inr ())) ()" for p
    by (rule goodI) (simp add: sample_lab_def running_def)
  show "good (tbind (spawn sample_lab command (merge base env)) (\<lambda>_. give (Inr ()))) ()"
    by (rule goodI) (simp add: spawn_def sample_lab_def tbind_def give_def running_def)
qed

lemma lab_get_good:
  "good (gets_ok sample_lab c url) True"
  "good (get_json sample_lab c url) (lab_policy (if startswith url ''http://127.0.0.1:3'' then ''catalog'' else ''support''))"
  unfolding gets_ok_def get_json_def
  by (rule goodI, simp add: tbind_def request_get_def give_def sample_lab_def running_def response_json_def)+

lemma lab_discover_good: "good (discover_at sample_lab http origin) [lab_operation]"
proof (rule goodI)
  fix h
  have "discover (\<lambda>_. None) (Inr \<lparr>status_code = 200, resp_json = Some (lab_policy s), retry_after = None\<rparr>) = Inr [lab_operation]"
    if "s = ''catalog'' \<or> s = ''support''" for s
    using that by (elim disjE; simp only:; code_simp)
  then show "\<exists>k. discover_at sample_lab http origin h = Some (h @ k, Inr [lab_operation]) \<and> running k"
    by (simp add: discover_at_def Let_def running_def) (simp add: sample_lab_def)
qed

lemma lab_service_good:
  assumes "tok = ''full'' \<or> tok = ''limited''" "\<And>http. good (body http) x"
  shows "good (in_service sample_lab tok body) x"
proof -
  have "\<exists>http. service_client [] (Some tok) = Inr http"
  proof -
    have "fullmatch token_rx ''full''" "fullmatch token_rx ''limited''" by code_simp+
    with assms(1) show ?thesis by (auto simp: service_client_def)
  qed
  then obtain http where "service_client [] (Some tok) = Inr http" by blast
  moreover have "service_client (variables sample_lab) (Some tok) = service_client [] (Some tok)"
    using assms(1) by (auto simp: service_client_def)
  ultimately show ?thesis unfolding in_service_def by (auto intro!: good_bind good_give assms(2))
qed

subsubsection \<open>The sample run\<close>

abbreviation "O3 \<equiv> ''http://127.0.0.1:3''"
abbreviation "O4 \<equiv> ''http://127.0.0.1:4''"

abbreviation both :: "'a \<Rightarrow> 'a \<Rightarrow> (string, 'a) dict" where
  "both x y \<equiv> [(''catalog'', x), (''support'', y)]"

abbreviation both_ports :: "string list" where
  "both_ports \<equiv> [''1'', ''2'', ''3'', ''4'']"

definition well :: "'a result \<Rightarrow> bool" where
  "well r \<longleftrightarrow> (case r of Inr _ \<Rightarrow> True | Inl _ \<Rightarrow> False)"

lemma wellE: "well r \<Longrightarrow> (\<And>x. r = Inr x \<Longrightarrow> P) \<Longrightarrow> P"
  by (cases r) (auto simp: well_def)

lemma lab_save_good: "well (pretty (\<lambda>_. ''1'') [] v) \<Longrightarrow> good (save_pretty sample_lab path v) ()"
  unfolding save_pretty_def
  by (erule wellE, rule good_bind, rule good_give, simp add: sample_lab_def)
    (rule goodI, simp add: save_file_def sample_lab_def running_def)

lemma lab_execute_good:
  "good (execute_at sample_lab http O3 lab_operation empty_query) lab_answer"
  "good (execute_at sample_lab http O4 lab_operation empty_query) lab_answer"
proof -
  have e: "snd (execute (\<lambda>_. None) (\<lambda>_ _. None) (\<lambda>_. 0)
      (\<lambda>_. Inr \<lparr>status_code = 200, resp_json = Some lab_answer, retry_after = None\<rparr>) (base_url [(''PATH'', ''/bin'')])
      (Some origin) lab_operation empty_query 120) = Inr (Some lab_answer)" if "origin = O3 \<or> origin = O4" for origin
    using that by (elim disjE; simp only:; code_simp)
  have c: "running (called http acts)" for acts
  proof (induction acts)
    case (Cons a acts)
    then show ?case by (cases a) (auto simp: running_def)
  qed (simp add: running_def)
  have "good (execute_at sample_lab http origin lab_operation empty_query) lab_answer" if "origin = O3 \<or> origin = O4" for origin
    by (rule goodI) (use e [OF that] c in \<open>simp add: execute_at_def Let_def sample_lab_def\<close>)
  then show "good (execute_at sample_lab http O3 lab_operation empty_query) lab_answer"
    "good (execute_at sample_lab http O4 lab_operation empty_query) lab_answer" by simp_all
qed

lemma lab_patch_good: "good (patch_limit sample_lab tok origin limit) ()"
  unfolding patch_limit_def Let_def
  by (rule goodI) (simp add: tbind_def give_def sample_lab_def raise_for_status_def is_success_def running_def)

lemma lab_direct_facts:
  "check_policies (both (lab_policy ''catalog'') (lab_policy ''support'')) = Inr ()"
  "select_operations (both [lab_operation] [lab_operation]) = Inr (both lab_operation lab_operation)"
  "both_answered (both lab_answer lab_answer) = Inr ()"
  "well (pretty (\<lambda>_. ''1'') [] (JDict (both (lab_policy ''catalog'') (lab_policy ''support''))))"
  by code_simp+

lemma lab_policies_good:
  "good (get_json sample_lab c (O3 @ ''/agent-policy'')) (lab_policy ''catalog'')"
  "good (get_json sample_lab c (O4 @ ''/agent-policy'')) (lab_policy ''support'')"
  using lab_get_good(2) [of c "O3 @ ''/agent-policy''"] lab_get_good(2) [of c "O4 @ ''/agent-policy''"]
  by (simp_all add: startswith_def)

lemma entry_both: "entry (both x y) ''catalog'' = Inr x" "entry (both x y) ''support'' = Inr y"
  by (simp_all add: entry_def)

lemma lab_direct_good:
  "full t = ''full'' \<Longrightarrow> good (direct_calls sample_lab n t out (both O3 O4)) (both lab_operation lab_operation, both lab_answer lab_answer)"
  unfolding direct_calls_def
proof (rule lab_service_good, simp)
  fix http
  let ?rest = "\<lambda>direct. tbind (give (both_answered direct)) (\<lambda>_.
       tbind (teach (\<lambda>(name, origin). patch_limit sample_lab (admin t) origin (if name = ''catalog'' then 1 else 2)) (both O3 O4)) (\<lambda>_.
       give (Inr (both lab_operation lab_operation, direct))))"
  have exec: "good (tdict (\<lambda>name origin. tbind (give (entry (both lab_operation lab_operation) name))
      (\<lambda>op. execute_at sample_lab http origin op empty_query)) (both O3 O4)) (both lab_answer lab_answer)"
    by (rule good_tdict; rule good_bind, rule good_give, rule entry_both, rule lab_execute_good)
  have rest: "good (?rest (both lab_answer lab_answer)) (both lab_operation lab_operation, both lab_answer lab_answer)"
    by (rule good_bind, rule good_give, rule lab_direct_facts(3), rule good_bind, rule good_teach)
      (auto intro: lab_patch_good good_give)
  show "good (tbind (teach (\<lambda>(_, origin). until_running sample_lab n (gets_ok sample_lab (Some http) (origin @ ''/agent-policy''))) (both O3 O4)) (\<lambda>_.
       tbind (tdict (\<lambda>_ origin. get_json sample_lab (Some http) (origin @ ''/agent-policy'')) (both O3 O4)) (\<lambda>policies.
       tbind (give (check_policies policies)) (\<lambda>_.
       tbind (tdict (\<lambda>_ origin. discover_at sample_lab http origin) (both O3 O4)) (\<lambda>operations.
       tbind (save_pretty sample_lab (child_path out ''discovery.json'') (JDict policies)) (\<lambda>_.
       tbind (give (select_operations operations)) (\<lambda>selected.
       tbind (tdict (\<lambda>name origin. tbind (give (entry selected name)) (\<lambda>op. execute_at sample_lab http origin op empty_query)) (both O3 O4))
         (\<lambda>direct.
       tbind (give (both_answered direct)) (\<lambda>_.
       tbind (teach (\<lambda>(name, origin). patch_limit sample_lab (admin t) origin (if name = ''catalog'' then 1 else 2)) (both O3 O4)) (\<lambda>_.
       give (Inr (selected, direct))))))))))))
     (both lab_operation lab_operation, both lab_answer lab_answer)"
    by (rule good_bind, rule good_teach, simp add: good_until lab_get_good(1) del: append.simps,
        rule good_bind, rule good_tdict, rule lab_policies_good(1), rule lab_policies_good(2),
        rule good_bind, rule good_give, rule lab_direct_facts(1),
        rule good_bind, rule good_tdict, rule lab_discover_good, rule lab_discover_good,
        rule good_bind, rule lab_save_good, rule lab_direct_facts(4),
        rule good_bind, rule good_give, rule lab_direct_facts(2), rule good_bind, rule exec, rule rest)
qed

abbreviation "both_selected \<equiv> both lab_operation lab_operation"

abbreviation lab_paths :: "string \<Rightarrow> (string, string) dict" where
  "lab_paths d \<equiv> both (child_path d ''catalog.sock'') (child_path d ''support.sock'')"

lemma lab_reply_facts:
  "subscript ok_reply ''ok'' = Inr (JBool True)" "subscript ok_reply ''body'' = Inr lab_answer" "py_eq lab_answer lab_answer"
  "assert_both (field_is forbidden_reply ''status'' (JInt 403)) (field_is forbidden_reply ''attempts'' (JInt 1)) = Inr ()"
  "assert_both (rbind (subscript ok_reply ''ok'') (\<lambda>ok. Inr (truthy ok)))
     (rbind (rbind (subscript ok_reply ''body'') (\<lambda>b. subscript b ''ticket'')) (\<lambda>tk. field_is tk ''id'' (JInt 101))) = Inr ()"
  "assert_both (field_is invalid_reply ''code'' (JStr ''invalid_dispatch_request'')) (field_is invalid_reply ''attempts'' (JInt 0)) = Inr ()"
  "subscript lab_operation ''name'' = Inr (JStr ''get_ticket'')" "rbind (subscript lab_operation ''path'') text_of = Inr ''/q''"
  by code_simp+

lemma lab_path_nonempty: "child_path d s \<noteq> []"
  by (simp add: child_path_def)

lemma lab_dispatched_good:
  assumes "full t = ''full''"
  shows "good (dispatched_calls sample_lab t (lab_paths d) both_selected (both lab_answer lab_answer)) (both ok_reply ok_reply)"
proof -
  have u: "map (\<lambda>name. (name, ())) service_names = both () ()" by (simp add: service_names_def)
  show ?thesis
    unfolding dispatched_calls_def u assms
    by (rule good_tdict;
        rule good_bind, rule good_give, rule entry_both, rule good_bind, rule lab_connect_good, simp, rule lab_path_nonempty,
        rule good_bind, rule good_give, rule entry_both, rule good_bind, rule lab_calls_good(1),
        rule good_bind, rule good_give, rule lab_reply_facts(1), rule good_bind, rule good_check, simp,
        rule good_bind, rule good_give, rule lab_reply_facts(2), rule good_bind, rule good_give, rule entry_both,
        rule good_bind, rule good_check, rule lab_reply_facts(3), rule good_give, rule refl)
qed

lemma lab_limited_good: "limited t = ''limited'' \<Longrightarrow> good (limited_operation sample_lab t (both O3 O4)) lab_operation"
  unfolding limited_operation_def
  by (rule lab_service_good, simp, rule good_bind, rule good_give, rule entry_both(2), rule good_bind, rule lab_discover_good)
    (simp, rule good_bind, rule good_give, rule lab_reply_facts(7), rule good_bind, rule good_check, simp, rule good_give, rule refl)

lemma lab_restricted_good:
  assumes "limited t = ''limited''"
  shows "good (restricted_calls sample_lab t out (lab_paths d) both_selected lab_operation) (forbidden_reply, ok_reply)"
  unfolding restricted_calls_def assms
  by (rule good_bind, rule good_give, rule entry_both(2), rule good_bind, rule lab_connect_good, simp, rule lab_path_nonempty,
      rule good_bind, rule lab_rows_good, rule good_bind, rule good_give, rule entry_both(2), rule good_bind, rule lab_calls_good(2),
      rule good_bind, rule good_give, rule lab_reply_facts(4), rule good_bind, rule lab_rows_good, rule good_bind, rule good_check, rule refl,
      rule good_bind, rule lab_calls_good(3), rule good_bind, rule good_give, rule lab_reply_facts(5),
      rule good_bind, rule lab_calls_good(4), rule good_bind, rule good_give, rule lab_reply_facts(6), rule good_give, rule refl)

lemma lab_limit_good:
  assumes "full t = ''full''"
  shows "good (limit_change sample_lab n t out (both O3 O4) both_selected) ()"
proof -
  have p: "rbind (entry both_selected ''support'') (\<lambda>op. rbind (subscript op ''path'') text_of) = Inr ''/q''"
    unfolding entry_both by (simp add: lab_reply_facts(8))
  have post: "good (post_json sample_lab http url body) \<lparr>status_code = 422, resp_json = None, retry_after = None\<rparr>" for http url body
    by (rule goodI) (simp add: post_json_def sample_lab_def running_def)
  have limit: "rbind (subscript (lab_policy ''support'') ''limits'') (\<lambda>l. subscript l ''max_outstanding'') = Inr (JInt 2)" by code_simp
  show ?thesis
    unfolding limit_change_def assms
    by (rule lab_service_good, simp, rule good_bind, rule good_give, rule entry_both(1), rule good_bind, rule good_give, rule entry_both(2),
        rule good_bind, rule good_give, rule p, rule good_bind, rule post, rule good_bind, rule good_check, simp,
        rule good_bind, rule lab_patch_good, rule good_bind, rule good_until, rule good_bind, rule lab_rows_good,
        rule good_give, rule lab_rows_checked(3), rule good_bind, rule lab_policies_good(2), rule good_bind, rule good_give, rule limit,
        rule good_bind, rule good_check, simp add: num_eq_def, rule good_bind, rule lab_rows_good,
        rule good_bind, rule good_give, rule lab_rows_checked(4), rule good_check, rule TrueI)
qed

lemma lab_gather_good:
  assumes "calls \<noteq> []" "\<forall>(c, op) \<in> set calls. snd c = ''full'' \<and> op = lab_operation"
  shows "good (gather sample_lab calls empty_query) (map (\<lambda>_. ok_reply) calls)"
proof (rule goodI)
  fix h
  let ?sent = "h @ map (\<lambda>(c, op). handed c op empty_query) calls"
  have "lab_peer ?sent = Replies (''o'' @ [newline])"
    using assms(1) lab_peers(1) by (cases calls rule: rev_exhaust) (auto simp: lab_peer_def handed_def empty_query_def split: prod.split)
  then have a: "answer_of sample_lab before ?sent c lab_operation empty_query = Inr ok_reply" if "snd c = ''full''" for before c
    using that lab_dispatched_answers(1) by (simp add: answer_of_def Let_def sample_lab_def)
  have "answers_of sample_lab ?sent before cs empty_query = Inr (map (\<lambda>_. ok_reply) cs)"
    if "\<forall>(c, op) \<in> set cs. snd c = ''full'' \<and> op = lab_operation" for before cs
    using that by (induction cs arbitrary: before) (auto simp: a)
  moreover have "running (map (\<lambda>(c, op). handed c op empty_query) calls)"
    by (induction calls) (auto simp: running_def handed_def)
  ultimately show "\<exists>k. gather sample_lab calls empty_query h = Some (h @ k, Inr (map (\<lambda>_. ok_reply) calls)) \<and> running k"
    using assms(2) by (simp add: gather_def Let_def)
qed

lemma lab_client_good:
  "entry sockets name = Inr path \<Longrightarrow> path \<noteq> [] \<Longrightarrow> entry selected name = Inr op \<Longrightarrow>
   good (tbind (give (entry sockets name)) (\<lambda>path. tbind (connect sample_lab path ''full'') (\<lambda>client.
         tbind (give (entry selected name)) (\<lambda>op. give (Inr (client, op)))))) ((path, ''full''), op)"
  by (rule good_bind, rule good_give, assumption, rule good_bind, rule lab_connect_good, simp, assumption,
      rule good_bind, rule good_give, assumption, rule good_give, rule refl)

lemma lab_concurrent_good:
  assumes "full t = ''full''"
  shows "good (concurrent_calls sample_lab t (lab_paths d) both_selected) (replicate 12 ok_reply)"
proof -
  let ?call = "\<lambda>name. ((if name = ''catalog'' then child_path d ''catalog.sock'' else child_path d ''support.sock'', ''full''), lab_operation)"
  let ?names = "concat (map (replicate 6) service_names)"
  have n: "set ?names \<subseteq> {''catalog'', ''support''}" "length ?names = 12" by (simp_all add: service_names_def)
  have one: "good (tbind (give (entry (lab_paths d) name)) (\<lambda>path. tbind (connect sample_lab path ''full'') (\<lambda>client.
         tbind (give (entry both_selected name)) (\<lambda>op. give (Inr (client, op)))))) (?call name)" if "name \<in> set ?names" for name
  proof -
    from that n(1) consider "name = ''catalog''" | "name = ''support''" by blast
    then show ?thesis
      by cases (simp only: simp_thms if_True, rule lab_client_good, rule entry_both, rule lab_path_nonempty, rule entry_both,
        simp only:, rule lab_client_good, simp add: entry_def, simp add: child_path_def, rule entry_both)
  qed
  have all: "list_all2 (\<lambda>name y. good (tbind (give (entry (lab_paths d) name)) (\<lambda>path. tbind (connect sample_lab path ''full'') (\<lambda>client.
         tbind (give (entry both_selected name)) (\<lambda>op. give (Inr (client, op)))))) y) ?names (map ?call ?names)"
    by (rule list_all2_all_nthI) (use one in \<open>simp_all only: length_map nth_map nth_mem\<close>)
  have m: "map (\<lambda>_. ok_reply) (map ?call ?names) = replicate 12 ok_reply"
    by (simp only: map_replicate_const length_map n(2))
  have g: "good (gather sample_lab (map ?call ?names) empty_query) (replicate 12 ok_reply)"
    unfolding m [symmetric]
  proof (rule lab_gather_good)
    show "map ?call ?names \<noteq> []" using n(2) by (metis length_map list.size(3) zero_neq_numeral)
  qed (auto simp del: append.simps)
  have a: "all_of (\<lambda>r. rbind (subscript r ''ok'') (\<lambda>ok. Inr (truthy ok))) (replicate 12 ok_reply) = Inr True"
    unfolding all_of_Inr by (simp add: lab_reply_facts(1))
  show ?thesis
    unfolding concurrent_calls_def assms
    by (rule good_bind, rule good_tmap, rule all, rule good_bind, rule g, rule good_bind, rule good_give, rule a,
        rule good_bind, rule good_check, rule TrueI, rule good_give, rule refl)
qed

lemma lab_final_good:
  assumes "full t = ''full''"
  shows "good (final_policies sample_lab n t (both O3 O4)) (both (lab_policy ''catalog'') (lab_policy ''support''))"
proof -
  have f: "field_is (lab_policy s) ''outstanding'' (JInt 0) = Inr True" for s
    by (simp add: field_is_def lab_policy_def num_eq_def)
  show ?thesis
    unfolding final_policies_def assms
    by (rule lab_service_good, simp, rule good_tdict;
        rule good_bind, rule good_until, rule good_bind, rule lab_policies_good, rule good_give, rule f, rule lab_policies_good)
qed

lemma lab_traces_good: "good (check_traces sample_lab out) ()"
proof -
  have "good (tbind (rows sample_lab p) (\<lambda>rs. tbind (give (check_admissions rs)) (\<lambda>_. tbind (rows sample_lab q)
      (\<lambda>rs. give (check_attempts rs))))) ()" for p q
    by (rule good_bind, rule lab_rows_good, rule good_bind, rule good_give, rule lab_rows_checked(1), rule good_bind,
        rule lab_rows_good, rule good_give, rule lab_rows_checked(2))
  then show "good (check_traces sample_lab out) ()"
    unfolding check_traces_def
    by (intro good_bind [OF good_teach]) (simp, rule good_bind, rule lab_rows_good, rule good_bind, rule good_give,
        rule lab_rows_checked(5), rule good_check, rule TrueI)
qed

lemma lab_gates_closed: "gates_closed sample_lab out h = Some (h, Inr ())"
  by (simp add: gates_closed_def service_names_def tbind_def lab_rows_eq give_def check_def lab_rows_checked(6))

lemma lab_starts_good:
  "good (start_upstreams sample_lab n base out a b) ()"
  "good (start_gateways sample_lab base t out envs) ()"
  "good (start_dispatchers sample_lab n base t out (both O3 O4) (lab_paths d)) ()"
proof -
  show "good (start_upstreams sample_lab n base out a b) ()"
    unfolding start_upstreams_def
    by (rule good_bind, rule lab_launch_good, rule good_bind, rule lab_launch_good, rule good_until, rule good_bind, rule lab_get_good(1))
      (simp add: lab_get_good(1))
  show "good (start_gateways sample_lab base t out envs) ()"
    unfolding start_gateways_def by (intro good_teach) (auto intro: lab_launch_good)
  have l: "good (case x of (name, origin) \<Rightarrow> tbind (give (entry (lab_paths d) name)) (\<lambda>socket_path.
      launch sample_lab base out (name @ ''-dispatcher'') (binary sample_lab ''dispatcher'')
        (dispatcher_settings t out name origin socket_path))) ()" if "x \<in> set (both O3 O4)" for x
  proof -
    from that consider "x = (''catalog'', O3)" | "x = (''support'', O4)" by auto
    then show ?thesis
      by cases (simp only: prod.case, rule good_bind, rule good_give, rule entry_both, rule lab_launch_good)+
  qed
  show "good (start_dispatchers sample_lab n base t out (both O3 O4) (lab_paths d)) ()"
    unfolding start_dispatchers_def
    by (rule good_bind, rule good_teach, rule ballI, rule l, assumption, rule good_until, rule good_ask) (simp add: sample_lab_def)
qed

lemma lab_result_facts:
  "well (rbind (result_doc (both lab_answer lab_answer) (both ok_reply ok_reply) forbidden_reply ok_reply (replicate 12 ok_reply)
     (both (lab_policy ''catalog'') (lab_policy ''support''))) (pretty (\<lambda>_. ''1'') []))"
  by code_simp

lemma lab_block_good:
  assumes "full t = ''full''" "limited t = ''limited''"
  shows "good (lab_block sample_lab n base t out both_ports (both O3 O4) (lab_paths d)) ()"
proof -
  obtain doc where doc: "result_doc (both lab_answer lab_answer) (both ok_reply ok_reply) forbidden_reply ok_reply (replicate 12 ok_reply)
     (both (lab_policy ''catalog'') (lab_policy ''support'')) = Inr doc" "well (pretty (\<lambda>_. ''1'') [] doc)"
    using lab_result_facts by (rule wellE) (auto simp: result_simps well_def)
  show ?thesis
    unfolding lab_block_def
    by (rule good_bind, rule lab_starts_good(1), rule good_bind, rule lab_starts_good(2), rule good_bind, rule lab_direct_good, rule assms,
        unfold prod.case, rule good_bind, rule lab_starts_good(3), rule good_bind, rule lab_dispatched_good, rule assms,
        rule good_bind, rule lab_limited_good, rule assms, rule good_bind, rule lab_restricted_good, rule assms, unfold prod.case,
        rule good_bind, rule lab_limit_good, rule assms, rule good_bind, rule lab_concurrent_good, rule assms,
        rule good_bind, rule lab_final_good, rule assms, rule good_bind, rule lab_traces_good,
        rule good_bind, rule good_give, rule doc(1), rule lab_save_good, rule doc(2))
qed

lemma sample_stop_all: "\<exists>g. stop_all sample_lab start h = Some (g, Inr ())"
proof -
  have one: "\<exists>g x. stop_child sample_lab s p h = Some (g, x)" for s p h
    by (simp add: stop_child_def send_signal_def wait_for_def poll_def tbind_def texcept_def log_def give_def Let_def sample_lab_def
        split: option.split)
  have "\<exists>g x. teach (stop_child sample_lab SIGINT) ps h = Some (g, x)" for ps h
  proof (induction ps arbitrary: h)
    case (Cons p ps)
    from one [of SIGINT p h] obtain k x where k: "stop_child sample_lab SIGINT p h = Some (k, x)" by blast
    from Cons [of k] obtain g y where "teach (stop_child sample_lab SIGINT) ps k = Some (g, y)" by blast
    with k show ?case by (cases x) (auto simp: tbind_def)
  qed (simp add: give_def)
  then obtain k x where "teach (stop_child sample_lab SIGINT) (rev (processes (started_in start) h)) h = Some (k, x)" by blast
  then have "\<exists>g r. stop_all sample_lab start h = Some (g, r)"
    by (cases x) (auto simp: stop_all_def tbind_def teach_log)
  then obtain g r where "stop_all sample_lab start h = Some (g, r)" by blast
  with stop_all_out [OF this] show ?thesis by blast
qed

lemma sample_lab_ports:
  "some_ports sample_lab 4 [] [Made_subdir ''o''] = Some ([Made_subdir ''o'', Bound_port 1, Bound_port 2, Bound_port 3, Bound_port 4], Inr [4, 3, 2, 1])"
  "each_of int_str (sort [4, 3, 2, 1 :: int]) = Inr both_ports"
  by code_simp+

lemma finally_known: "m h = Some (g, r) \<Longrightarrow> n g = Some (k, Inr ()) \<Longrightarrow> tfinally m n h = Some (k, r)"
  by (simp add: tfinally_def)

lemma sample_lab_tokens: "fresh_token sample_lab h name \<noteq> []"
  by (simp add: sample_lab_def)

lemma sample_integration: "\<exists>g. integration_main sample_lab ''o'' [] = Some (g, Inr ())"
proof -
  let ?h = "[Made_subdir ''o'']" and ?i = "[Made_subdir ''o'', Bound_port 1, Bound_port 2, Bound_port 3, Bound_port 4]"
  let ?d = "''/tmp/p''" and ?t = "lab_tokens_at sample_lab ?i" and ?base = "[(''PATH'', ''/bin''), (''PYTHONUNBUFFERED'', ''1'')]"
  let ?steps = "\<lambda>private_path. tfinally (lab_block sample_lab (started_in ?h) ?base ?t ''o'' both_ports
    (lab_origins both_ports) (lab_sockets private_path)) (stop_all sample_lab ?h)"
  have base: "base_env sample_lab = Inr ?base" by (simp add: base_env_def sample_lab_def)
  have t: "full ?t = ''full''" "limited ?t = ''limited''" by (simp_all add: lab_tokens_at_def sample_lab_def)
  have d: "private_dir sample_lab h = ?d" for h by (simp add: sample_lab_def)
  have o: "lab_origins both_ports = both O3 O4" "lab_sockets ?d = lab_paths ?d" by (simp_all add: service_names_def)
  have "running (?i @ [Made_dir ?d])" by (simp add: running_def)
  then obtain k where k: "lab_block sample_lab (started_in ?h) ?base ?t ''o'' both_ports (both O3 O4) (lab_paths ?d) (?i @ [Made_dir ?d]) = Some (k, Inr ())"
    using lab_block_good [OF t] unfolding good_def by blast
  obtain g where g: "stop_all sample_lab ?h k = Some (g, Inr ())" using sample_stop_all by blast
  have f: "?steps ?d (?i @ [Made_dir ?d]) = Some (g, Inr ())"
    by (rule finally_known [where n = "stop_all sample_lab ?h" and g = k], simp only: o k) (rule g)
  have "tfinally (?steps ?d) (log (Removed_dir ?d) (Inr ())) (?i @ [Made_dir ?d]) = Some (g @ [Removed_dir ?d], Inr ())"
    by (rule finally_known [where m = "?steps ?d" and n = "log (Removed_dir ?d) (Inr ())" and g = g], rule f) (simp only: log_def)
  then have ip: "in_private_dir sample_lab ?steps ?i = Some (g @ [Removed_dir ?d], Inr ())"
    unfolding in_private_dir_def Let_def d log_bind .
  have "run_steps sample_lab ?h ''o'' ?h = Some (g @ [Removed_dir ?d], Inr ())"
    unfolding run_steps_def base bind_give sum.case bind_known [where m = "some_ports sample_lab 4 []", OF sample_lab_ports(1)]
      sample_lab_ports(2) ask_bind
    using bind_known [where m = "in_private_dir sample_lab ?steps" and f = "\<lambda>_. gates_closed sample_lab ''o''", OF ip]
    by (simp add: lab_gates_closed)
  then show ?thesis
    by (simp add: integration_main_def tbind_def integration_run_def coroutine_def texcept_def sample_lab_def)
qed

end
