(* ===== verification/Integration_Results.thy ===== *)
theory Integration_Results
  imports Integration_Sample
begin

text \<open>
  The properties of \<^verbatim>\<open>examples/service_integration_demo.py\<close>, each applied to the sample host.
\<close>

text \<open>
  A trace can be read while another process writes it: when the file will hold records of
  one line each, reading any beginning of it gives the values of exactly the records that have been
  written to their end, and never the text of a record that is still being written.
\<close>

theorem trace_reads_whole_records:
  assumes "\<forall>l \<in> set lines. CHR 0x0A \<notin> set l" and "path_exists w h path"
    and "read_file w h path = Inr (take k (concat (map (\<lambda>l. l @ [CHR 0x0A]) lines)))"
  shows "\<exists>j \<le> length lines. rows w path h = Some (h, each_of (loads w) (take j lines)) \<and>
    length (concat (map (\<lambda>l. l @ [CHR 0x0A]) (take j lines))) \<le> k \<and>
    (j < length lines \<longrightarrow> k < length (concat (map (\<lambda>l. l @ [CHR 0x0A]) (take (Suc j) lines))))"
proof -
  obtain j rest where j: "take k (records lines) = records (take j lines) @ rest" "newline \<notin> set rest"
      "j \<le> length lines" "j < length lines \<longrightarrow> k < length (records (take (Suc j) lines))"
    using prefix_of_records assms(1) unfolding newline_def by blast
  have "\<forall>l \<in> set (take j lines). newline \<notin> set l" using assms(1) by (auto simp: newline_def dest: in_set_takeD)
  from split_at_records [OF this j(2)] j(1)
  have "complete_rows (loads w) (take k (records lines)) = each_of (loads w) (take j lines)"
    by (simp add: complete_rows_def newline_def)
  then have r: "rows w path h = Some (h, each_of (loads w) (take j lines))"
    using assms(2,3) by (simp add: rows_def ask_def newline_def)
  have "length (records (take j lines)) \<le> length (take k (records lines))" unfolding j(1) by simp
  with r j(3,4) show ?thesis by (auto simp: newline_def)
qed

definition half_written :: lab_host where
  "half_written = sample_lab\<lparr>read_file := \<lambda>_ _. Inr (''a'' @ [CHR 0x0A] @ ''2'' @ [CHR 0x0A] @ ''g'')\<rparr>"

lemma trace_reads_whole_records_witness:
  "\<exists>j \<le> 3. rows half_written ''t'' [] = Some ([], each_of lab_loads (take j [''a'', ''2'', ''gate'']))"
  using trace_reads_whole_records [of "[''a'', ''2'', ''gate'']" half_written "[]" "''t''" 5]
  by (auto simp: half_written_def sample_lab_def numeral_eq_Suc)



text \<open>
  Claim C28. An integration demonstration that returns has shown that its two services are isolated
  and faithful: for each service, an operation that it published and that takes a query gave the
  same body directly and through its dispatcher; the restricted token was refused for the support
  operation with status 403 after one attempt, and the upstream's trace did not grow meanwhile; no
  recorded admission or attempt exceeded its limit, no upstream request carried a credential, and at
  the end both gates had been recorded as closed with nothing active.
\<close>

theorem integration_success:
  assumes "integration_main w output_arg [] = Some (g, Inr ())" and "\<And>h name. fresh_token w h name \<noteq> []"
  shows "\<exists>h selected.
    (\<forall>name \<in> set service_names. \<exists>port op v. entry selected name = Inr op \<and>
       answered_directly w (''http://127.0.0.1:'' @ port) op v \<and> answered_equally w (full (lab_tokens_at w h)) op v) \<and>
    (\<exists>op. entry selected ''support'' = Inr op \<and>
       refused_unseen w (limited (lab_tokens_at w h)) (trace_path (resolved_path w output_arg) ''support-upstream'') op) \<and>
    (\<forall>name \<in> set service_names. kept_limits w (resolved_path w output_arg) name) \<and>
    no_credential_seen w (trace_path (resolved_path w output_arg) ''support-upstream'') \<and>
    (\<forall>name \<in> set service_names. gate_closed w (resolved_path w output_arg) name g)"
proof -
  let ?out = "resolved_path w output_arg" and ?h = "[Made_subdir output_arg]"
  have "integration_run w ?out ?h = Some (g, Inr ())"
    using assms(1) by (cases "make_output w [] output_arg") (simp_all add: integration_main_def tbind_def)
  then show ?thesis
  proof (cases rule: integration_shape)
    case (ran j d k base ports x)
    let ?t = "lab_tokens_at w (?h @ j)"
    from ran(5) have x: "x = Inr ()" "gates_closed w ?out g = Some (g, Inr ())" by auto
    from ran(2) x(1) obtain i where
      b: "lab_block w (started_in ?h) base ?t ?out ports (lab_origins ports) (lab_sockets d) (?h @ j @ [Made_dir d]) = Some (i, Inr ())"
      by (auto simp: tfinally_def split: option.splits prod.splits sum.splits)
    have t: "full ?t \<noteq> []" "limited ?t \<noteq> []" using assms(2) by (simp_all add: lab_tokens_at_def)
    have n: "distinct (map fst (lab_origins ports))" by simp
    from lab_block_Inr [OF b n t] obtain selected where s:
      "\<forall>name \<in> set service_names. \<exists>op v origin. entry selected name = Inr op \<and> (name, origin) \<in> set (lab_origins ports) \<and>
         answered_directly w origin op v \<and> answered_equally w (full ?t) op v"
      "\<exists>op. entry selected ''support'' = Inr op \<and> refused_unseen w (limited ?t) (trace_path ?out ''support-upstream'') op"
      "\<forall>name \<in> set service_names. kept_limits w ?out name" "no_credential_seen w (trace_path ?out ''support-upstream'')" by blast
    have "\<forall>name \<in> set service_names. \<exists>port op v. entry selected name = Inr op \<and>
       answered_directly w (''http://127.0.0.1:'' @ port) op v \<and> answered_equally w (full ?t) op v"
      using s(1) origin_known(1) by metis
    with s(2-4) gates_closed_Inr [OF x(2)] show ?thesis by blast
  qed auto
qed

lemma integration_success_witness:
  "\<exists>g. integration_main sample_lab ''o'' [] = Some (g, Inr ()) \<and> (\<forall>name \<in> set service_names. gate_closed sample_lab (resolved_path sample_lab ''o'') name g)"
  using sample_integration integration_success [of sample_lab "''o''", OF _ sample_lab_tokens] by blast

end
