(* ===== verification/Dynamic_Demo.thy ===== *)
theory Dynamic_Demo
  imports Py_Values Services
begin

text \<open>
  \<^verbatim>\<open>examples/dynamic_demo.py\<close>: a gateway and a load client with sixty tasks, while the limit of the gateway is
  changed from 5 to 2 and back. The gateway, the client and the catalog's requests answer as the
  \<open>dynamic_host\<close>; \<open>load_lines w h t\<close> are the lines of the client that the reader thread has taken when a
  \<^verbatim>\<open>get\<close> that begins after \<open>h\<close> with the timeout \<open>t\<close> returns or gives up, and whether the output had ended.

  The callbacks of the \<^verbatim>\<open>ExitStack\<close> are nested \<open>tfinally\<close> blocks: the last registered one runs first.
\<close>

record dynamic_host = host +
  next_started :: "history \<Rightarrow> bool"
  load_lines :: "history \<Rightarrow> rat \<Rightarrow> string list \<times> bool"
  patch_answer :: "history \<Rightarrow> string \<Rightarrow> json \<Rightarrow> response result"
  loads :: "string \<Rightarrow> json result"

subsection \<open>Loops\<close>

text \<open>\<^verbatim>\<open>while True: m\<close>, left by \<^verbatim>\<open>break\<close> or \<^verbatim>\<open>return\<close> with a value, or by an exception.\<close>

partial_function (option) tloop :: "'a option task \<Rightarrow> history \<Rightarrow> (history \<times> 'a result) option" where
  "tloop m h =
     (case m h of
        None \<Rightarrow> None
      | Some (g, r) \<Rightarrow>
          (case r of
             Inl e \<Rightarrow> Some (g, Inl e)
           | Inr left \<Rightarrow> (case left of Some x \<Rightarrow> Some (g, Inr x) | None \<Rightarrow> tloop m g)))"

text \<open>\<^verbatim>\<open>queue.get(timeout=...)\<close> raises \<^verbatim>\<open>queue.Empty\<close>.\<close>

definition Queue_Empty :: exn where
  "Queue_Empty = OtherError ''Empty''"

subsection \<open>The catalog\<close>

datatype catalog_act = Put_started | Acquire_release nat

definition controlled_GET :: "(string \<Rightarrow> bool) \<Rightarrow> (string \<Rightarrow> string) \<Rightarrow> bool \<Rightarrow> string \<Rightarrow> catalog_act list \<times> served" where
  "controlled_GET bracket_ok dec acquired target =
     ([Put_started, Acquire_release 10], if acquired then catalog_GET bracket_ok dec target else Error_Page 503 None)"

subsection \<open>Settings\<close>

definition role_names :: "string list" where
  "role_names = [''AGENT_TOKEN_1'', ''AGENT_TOKEN_2'', ''PRODUCT_ONLY_TOKEN'', ''INTERACTIVE_TOKEN'', ''OTHER_AGENT_TOKEN'', ''ADMIN_TOKEN'']"

definition demo_environment :: "'w host_scheme \<Rightarrow> (string, string) dict task" where
  "demo_environment w = ask (\<lambda>h. Inr
     (fold (\<lambda>name env. dset env name (fresh_token w h name)) role_names
        (dpop (dpop (variables w) ''OPENAI_API_KEY'') ''TEST_429'')))"

definition load_environment :: "(string, string) dict \<Rightarrow> (string, string) dict" where
  "load_environment env =
     dset (dset (fold (\<lambda>name env. dpop env name) (tl role_names) env) ''LOAD_AGENT_TASKS'' ''60'') ''LOAD_DEADLINE_SECS'' ''60''"

subsection \<open>The gateway becomes ready\<close>

definition sleep :: "'w host_scheme \<Rightarrow> rat \<Rightarrow> unit task" where
  "sleep w t h = Some (h @ [Napped t], nap w h)"

definition ready_round :: "'w host_scheme \<Rightarrow> string \<Rightarrow> nat \<Rightarrow> rat \<Rightarrow> unit option task" where
  "ready_round w base gateway deadline =
     tbind (poll w gateway) (\<lambda>code.
     tbind (ask (\<lambda>h. Inr (clock w h))) (\<lambda>now.
     if code \<noteq> None \<or> deadline \<le> now
     then give (Inl (RuntimeError ''Gateway did not become ready; build the binaries first''))
     else
       tbind (texcept (tbind (request_get w None (base @ ''/agent-policy'')) (\<lambda>r. give (Inr (status_code r = 401))))
           (\<lambda>e. e = HTTPError) (give (Inr False))) (\<lambda>ready.
       if ready then give (Inr (Some ())) else tbind (sleep w (5/100)) (\<lambda>_. give (Inr None)))))"

definition await_gateway :: "'w host_scheme \<Rightarrow> string \<Rightarrow> nat \<Rightarrow> unit task" where
  "await_gateway w base gateway h = tloop (ready_round w base gateway (clock w h + 10)) h"

subsection \<open>What the load client reports\<close>

definition JSONDecodeError :: exn where
  "JSONDecodeError = ValueError ''JSONDecodeError''"

definition leaks :: "(string, string) dict \<Rightarrow> string \<Rightarrow> bool" where
  "leaks env line \<longleftrightarrow> list_ex (\<lambda>name. contains_text line (token env name)) role_names"

definition simple_event :: "string \<Rightarrow> json" where
  "simple_event name = JDict [(''event'', JStr name)]"

text \<open>\<^verbatim>\<open>read_output\<close>: the events it puts for these lines; any other exception of the parser ends the thread.\<close>

fun read_output :: "(string, string) dict \<Rightarrow> (string \<Rightarrow> json result) \<Rightarrow> bool \<Rightarrow> string list \<Rightarrow> json list" where
  "read_output env parse eof [] = (if eof then [simple_event ''exited''] else [])"
| "read_output env parse eof (line # lines) =
     (if leaks env line then simple_event ''credential_leak'' # read_output env parse eof lines
      else case parse line of
             Inr v \<Rightarrow> v # read_output env parse eof lines
           | Inl e \<Rightarrow> if e = JSONDecodeError then read_output env parse eof lines else [])"

text \<open>\<^verbatim>\<open>events.get(timeout=...)\<close>: the event after the ones that were taken before.\<close>

definition taken :: "history \<Rightarrow> nat" where
  "taken h = length (filter (\<lambda>d. d = Did ''events.get'') h)"

definition get_event :: "dynamic_host \<Rightarrow> (string, string) dict \<Rightarrow> rat \<Rightarrow> json task" where
  "get_event w env timeout h =
     (let (lines, eof) = load_lines w h timeout; events = read_output env (loads w) eof lines
      in Some (h @ [Did ''events.get''], if taken h < length events then Inr (events ! taken h) else Inl Queue_Empty))"

definition is_over :: "json \<Rightarrow> bool result" where
  "is_over event = rbind (subscript event ''event'') (\<lambda>k. Inr (py_eq k (JStr ''exited'') \<or> py_eq k (JStr ''credential_leak'')))"

definition event_round ::
  "dynamic_host \<Rightarrow> (string, string) dict \<Rightarrow> (json \<Rightarrow> bool result) \<Rightarrow> rat \<Rightarrow> json option task" where
  "event_round w env predicate deadline =
     tbind (\<lambda>h. get_event w env (max (1/100) (deadline - clock w h)) h) (\<lambda>event.
     tbind (give (is_over event)) (\<lambda>over.
     if over then give (Inl (RuntimeError ''Load client ended unexpectedly or emitted credentials''))
     else
       tbind (give (predicate event)) (\<lambda>held.
       if held then give (Inr (Some event))
       else
         tbind (ask (\<lambda>h. Inr (clock w h))) (\<lambda>now.
         if deadline \<le> now then give (Inl (RuntimeError ''Expected client policy transition was not observed''))
         else give (Inr None)))))"

definition wait_event :: "dynamic_host \<Rightarrow> (string, string) dict \<Rightarrow> (json \<Rightarrow> bool result) \<Rightarrow> json task" where
  "wait_event w env predicate h = tloop (event_round w env predicate (clock w h + 20)) h"

text \<open>\<^verbatim>\<open>item[a] == x and item[b] == y and ...\<close>.\<close>

fun fields_are :: "(string \<times> json) list \<Rightarrow> json \<Rightarrow> bool result" where
  "fields_are [] item = Inr True"
| "fields_are ((k, v) # kvs) item = rbind (field_is item k v) (\<lambda>b. if b then fields_are kvs item else Inr False)"

subsection \<open>Changing the limit\<close>

definition change :: "dynamic_host \<Rightarrow> (string, string) dict \<Rightarrow> string \<Rightarrow> int \<Rightarrow> json task" where
  "change w env base maximum =
     tbind (\<lambda>h.
       let url = base @ ''/admin/principals/demo-owner/limits''; body = JDict [(''max_outstanding'', JInt maximum)]
       in Some (h @ [Patched (''Bearer '' @ token env ''ADMIN_TOKEN'') url body], patch_answer w h url body)) (\<lambda>response.
     tbind (give (raise_for_status response)) (\<lambda>_.
     tbind (give (response_json response)) (\<lambda>result.
     tbind (give (subscript result ''policy_revision'')) (\<lambda>_.
     tbind (give (rbind (subscript result ''limits'') (\<lambda>l. subscript l ''max_outstanding''))) (\<lambda>_.
     tbind (give (subscript result ''outstanding'')) (\<lambda>_.
     give (Inr result)))))))"

subsection \<open>The scenario\<close>

definition take_started :: "dynamic_host \<Rightarrow> unit task" where
  "take_started w h = Some (h @ [Did ''started.get''], if next_started w h then Inr () else Inl Queue_Empty)"

definition policy_event :: "(string \<times> json) list \<Rightarrow> json \<Rightarrow> bool result" where
  "policy_event kvs = fields_are ((''event'', JStr ''policy'') # kvs)"

definition at_two :: "json \<Rightarrow> bool result" where
  "at_two item =
     rbind (policy_event [(''limit'', JInt 2), (''client_active'', JInt 2)] item) (\<lambda>b.
       if b then rbind (subscript item ''server_outstanding'') (\<lambda>n. py_le n (JInt 2)) else Inr False)"

definition final_outstanding :: "'w host_scheme \<Rightarrow> (string, string) dict \<Rightarrow> string \<Rightarrow> unit task" where
  "final_outstanding w env base =
     tbind (request_get w (Some (''Bearer '' @ token env ''AGENT_TOKEN_1'')) (base @ ''/agent-policy'')) (\<lambda>response.
     tbind (give (raise_for_status response)) (\<lambda>_.
     tbind (give (response_json response)) (\<lambda>policy.
     tbind (give (field_is policy ''outstanding'' (JInt 0))) (\<lambda>drained. check drained []))))"

definition reduce_limit :: "dynamic_host \<Rightarrow> (string, string) dict \<Rightarrow> string \<Rightarrow> unit task" where
  "reduce_limit w env base =
     tbind (teach (\<lambda>_. take_started w) [0 ..< 5]) (\<lambda>_.
     tbind (change w env base 2) (\<lambda>reduced.
     tbind (give (rbind (fields_are [(''outstanding'', JInt 5), (''policy_revision'', JInt 2)] reduced) assert_that)) (\<lambda>_.
     tbind (wait_event w env (policy_event [(''policy_revision'', JInt 2)])) (\<lambda>event.
     give (rbind (fields_are [(''client_active'', JInt 5), (''limit'', JInt 2)] event) assert_that)))))"

definition raise_limit :: "dynamic_host \<Rightarrow> (string, string) dict \<Rightarrow> string \<Rightarrow> unit task" where
  "raise_limit w env base =
     tbind (did ''paced_completion.start'') (\<lambda>_.
     tbind (wait_event w env at_two) (\<lambda>_.
     tbind (change w env base 5) (\<lambda>raised.
     tbind (give (rbind (field_is raised ''policy_revision'' (JInt 3)) assert_that)) (\<lambda>_.
     tbind (wait_event w env (policy_event [(''policy_revision'', JInt 3), (''client_active'', JInt 5)])) (\<lambda>_.
     give (Inr ()))))))"

definition all_completed :: "dynamic_host \<Rightarrow> (string, string) dict \<Rightarrow> string \<Rightarrow> nat \<Rightarrow> unit task" where
  "all_completed w env base load =
     tbind (wait_event w env (fields_are [(''event'', JStr ''completed'')])) (\<lambda>completed.
     tbind (give (rbind (fields_are [(''successful'', JInt 60), (''errors'', JInt 0)] completed) assert_that)) (\<lambda>_.
     tbind (wait_for w load 5) (\<lambda>code.
     tbind (check (code = 0) []) (\<lambda>_.
     tbind (did ''reader.join'') (\<lambda>_.
     final_outstanding w env base)))))"

definition scenario :: "dynamic_host \<Rightarrow> (string, string) dict \<Rightarrow> string \<Rightarrow> nat \<Rightarrow> unit task" where
  "scenario w env base load =
     tbind (did ''reader.start'') (\<lambda>_.
     tbind (reduce_limit w env base) (\<lambda>_.
     tbind (raise_limit w env base) (\<lambda>_.
     all_completed w env base load)))"

subsection \<open>main\<close>

definition stop_load :: "'w host_scheme \<Rightarrow> nat \<Rightarrow> unit task" where
  "stop_load w load = tfinally (stop_process w load) (log (Closed_output load) (Inr ()))"

definition with_load :: "dynamic_host \<Rightarrow> (string, string) dict \<Rightarrow> string \<Rightarrow> unit task" where
  "with_load w env base =
     tbind (spawn w (binary w ''load'') (load_environment env)) (\<lambda>load.
     tfinally (scenario w env base load) (stop_load w load))"

definition with_gateway :: "dynamic_host \<Rightarrow> (string, string) dict \<Rightarrow> string \<Rightarrow> unit task" where
  "with_gateway w env base =
     child w (binary w ''ai-protocol'') env SIGTERM (\<lambda>gateway.
       tfinally (tbind (await_gateway w base gateway) (\<lambda>_. with_load w env base)) (did ''http.close''))"

definition with_catalog :: "'w host_scheme \<Rightarrow> (int \<Rightarrow> unit task) \<Rightarrow> unit task" where
  "with_catalog w body =
     tbind (free_port w) (\<lambda>port.
     tfinally
       (tbind (did ''catalog.serve_forever'') (\<lambda>_.
        tfinally (tfinally (body port) (did ''stopped.set'')) (did ''catalog.shutdown'')))
       (did ''catalog.server_close''))"

definition dynamic_main :: "dynamic_host \<Rightarrow> unit task" where
  "dynamic_main w =
     tbind (demo_environment w) (\<lambda>env.
     with_catalog w (\<lambda>port.
       tbind (free_port w) (\<lambda>gateway.
       tbind (give (int_str gateway)) (\<lambda>gateway_port.
       tbind (give (int_str port)) (\<lambda>upstream_port.
       with_gateway w (dset (dset env ''GATEWAY_PORT'' gateway_port) ''CATALOG_PORT'' upstream_port)
         (''http://127.0.0.1:'' @ gateway_port))))))"

end
