(* ===== verification/Dynamic_Props.thy ===== *)
theory Dynamic_Props
  imports Dynamic_Demo "HOL-Library.Sublist"
begin

text \<open>
  Lemmas about the limit demonstration: its loops, the end of its processes, and where its credentials go.
  The properties are in \<^verbatim>\<open>Dynamic_Results\<close>.
\<close>

subsection \<open>Loops\<close>

context history_rel
begin

lemma runs_tloop:
  assumes "runs R m"
  shows "runs R (tloop m)"
proof (rule runsI)
  fix h g r assume t: "tloop m h = Some (g, r)"
  have "m = m \<longrightarrow> R h (fst (g, r))"
  proof (rule tloop.raw_induct [where P = "\<lambda>m' h s. m' = m \<longrightarrow> R h (fst s)", OF _ t])
    fix loop m' h and s :: "history \<times> 'a result"
    assume IH: "\<And>m' h (s :: history \<times> 'a result). loop m' h = Some s \<Longrightarrow> m' = m \<longrightarrow> R h (fst s)"
    assume eq: "(case m' h of None \<Rightarrow> None
        | Some (g, r) \<Rightarrow> (case r of Inl e \<Rightarrow> Some (g, Inl e)
            | Inr left \<Rightarrow> (case left of Some x \<Rightarrow> Some (g, Inr x) | None \<Rightarrow> loop m' g))) = Some s"
    show "m' = m \<longrightarrow> R h (fst s)"
      using eq by (auto split: option.splits prod.splits sum.splits dest!: IH dest: runsD [OF assms] intro: trans)
  qed
  then show "R h g" by simp
qed

lemma runs_tloop_at: "(\<And>d. runs R (f d)) \<Longrightarrow> runs R (\<lambda>h. tloop (f (q h)) h)"
  using runs_tloop unfolding runs_def by blast

text \<open>The round that leaves the loop.\<close>

lemma tloop_left:
  assumes m: "\<And>h g y. m h = Some (g, Inr y) \<Longrightarrow> R h g" and t: "tloop m h = Some (g, Inr (x :: 'a))"
  shows "\<exists>k. R h k \<and> m k = Some (g, Inr (Some x))"
proof -
  have "m = m \<longrightarrow> (\<forall>y. snd (g, Inr x :: 'a result) = Inr y \<longrightarrow> (\<exists>k. R h k \<and> m k = Some (fst (g, Inr x :: 'a result), Inr (Some y))))"
  proof (rule tloop.raw_induct [where P = "\<lambda>m' h s. m' = m \<longrightarrow> (\<forall>y. snd s = Inr y \<longrightarrow> (\<exists>k. R h k \<and> m k = Some (fst s, Inr (Some y))))", OF _ t])
    fix loop m' h and s :: "history \<times> 'a result"
    assume IH: "\<And>m' h (s :: history \<times> 'a result). loop m' h = Some s \<Longrightarrow>
        m' = m \<longrightarrow> (\<forall>y. snd s = Inr y \<longrightarrow> (\<exists>k. R h k \<and> m k = Some (fst s, Inr (Some y))))"
    assume eq: "(case m' h of None \<Rightarrow> None
        | Some (g, r) \<Rightarrow> (case r of Inl e \<Rightarrow> Some (g, Inl e)
            | Inr left \<Rightarrow> (case left of Some x \<Rightarrow> Some (g, Inr x) | None \<Rightarrow> loop m' g))) = Some s"
    show "m' = m \<longrightarrow> (\<forall>y. snd s = Inr y \<longrightarrow> (\<exists>k. R h k \<and> m k = Some (fst s, Inr (Some y))))"
    proof (intro impI allI)
      fix y assume m': "m' = m" and y: "snd s = Inr y"
      with eq obtain g' r' where r: "m h = Some (g', Inr r')" by (auto split: option.splits prod.splits sum.splits)
      show "\<exists>k. R h k \<and> m k = Some (fst s, Inr (Some y))"
      proof (cases r')
        case None
        with eq r m' have "loop m g' = Some s" by simp
        with IH y m [OF r] show ?thesis by (blast intro: trans)
      next
        case (Some z)
        with eq r m' y have "m h = Some (fst s, Inr (Some y))" by auto
        then show ?thesis using refl by blast
      qed
    qed
  qed
  then show ?thesis by simp
qed

end

subsection \<open>The processes are stopped\<close>

lemma tidy_free_port: "runs tidy (free_port w)"
  by (simp add: runs_def free_port_def tidied.refl tidy_one split: sum.splits)

lemma tidy_dynamic_steps:
  "runs tidy (\<lambda>h. get_event w env (t h) h)" "runs tidy (take_started w)"
  "runs tidy (\<lambda>h. let url = base; body = v in Some (h @ [Patched c url body], q h url body))"
  by (auto simp: runs_def get_event_def take_started_def Let_def tidy_one split: prod.splits)

lemma tidy_sleep: "runs tidy (sleep w s)"
  by (simp add: runs_def sleep_def tidy_one)

lemma tidy_change: "runs tidy (change w env base n)"
  unfolding change_def by (intro tidy_rules tidy_dynamic_steps)

lemma tidy_wait_event: "runs tidy (wait_event w env pred)"
  unfolding wait_event_def by (rule tidied.runs_tloop_at) (unfold event_round_def, intro tidy_rules tidy_dynamic_steps)

lemma tidy_await_gateway: "runs tidy (await_gateway w base p)"
  unfolding await_gateway_def by (rule tidied.runs_tloop_at) (unfold ready_round_def, intro tidy_rules tidy_sleep)

lemma tidy_scenario: "runs tidy (scenario w env base load)"
  unfolding scenario_def reduce_limit_def raise_limit_def all_completed_def final_outstanding_def
  by (intro tidy_rules tidy_dynamic_steps tidy_change tidy_wait_event; simp)

lemma ends_stop_load: "ends (stop_load w)"
  unfolding ends_def
proof (intro allI impI)
  fix p h g r assume s: "stop_load w p h = Some (g, r)" and p: "p < started_in h"
  then obtain k x where k: "stop_child w SIGTERM p h = Some (k, x)" "g = k @ [Closed_output p]"
    by (auto simp: stop_load_def stop_process_def tfinally_def log_def split: option.splits prod.splits)
  from stop_child_out [OF k(1) p] have o: "tidy h k" "returncode k p \<noteq> None" by simp_all
  have "tidy k g" unfolding k(2) by (rule tidy_one) simp_all
  with o show "tidy h g \<and> returncode g p \<noteq> None"
    by (auto intro: tidied.trans simp: k(2) returncode_append split: option.splits)
qed

lemma tidy_gateway: "runs tidy (with_gateway w env base)"
proof -
  have "runs tidy (with_load w env base)"
    unfolding with_load_def by (rule tidy_owned [OF _ ends_stop_load]) (rule tidy_from_tidy [OF tidy_scenario])
  then show ?thesis
    unfolding with_gateway_def by (intro tidy_child tidied.runs_finally tidied.runs_bind tidy_await_gateway tidy_log) simp_all
qed

lemma tidy_catalog: "(\<And>port. runs tidy (body port)) \<Longrightarrow> runs tidy (with_catalog w body)"
  unfolding with_catalog_def by (intro tidied.runs_bind tidied.runs_finally tidy_free_port tidy_log) simp_all

lemma tidy_dynamic: "runs tidy (dynamic_main w)"
  unfolding dynamic_main_def demo_environment_def
  by (intro tidied.runs_bind tidied.runs_quiet tidy_catalog tidy_free_port tidy_gateway)

subsection \<open>Credentials\<close>

lemma dget_tokens:
  "dget (fold (\<lambda>name env. dset env name (tok name)) ns env) k = (if k \<in> set ns then Some (tok k) else dget env k)"
  by (induction ns arbitrary: env) (auto simp: dict_simps)

lemma dget_without:
  "dget (fold (\<lambda>name env. dpop env name) ns env) k = (if k \<in> set ns then None else dget env k)"
  by (induction ns arbitrary: env) (auto simp: dict_simps)

text \<open>The environment of the gateway, for the tokens \<open>tok\<close>: every role's token and neither of the two
  variables that would change the scenario.\<close>

definition gateway_roles :: "(string \<Rightarrow> string) \<Rightarrow> (string, string) dict \<Rightarrow> bool" where
  "gateway_roles tok env \<longleftrightarrow> (\<forall>name \<in> set role_names. dget env name = Some (tok name)) \<and>
     dget env ''OPENAI_API_KEY'' = None \<and> dget env ''TEST_429'' = None"

definition load_roles :: "(string \<Rightarrow> string) \<Rightarrow> (string, string) dict \<Rightarrow> bool" where
  "load_roles tok env \<longleftrightarrow> dget env ''AGENT_TOKEN_1'' = Some (tok ''AGENT_TOKEN_1'') \<and>
     (\<forall>name \<in> set (tl role_names). dget env name = None) \<and> dget env ''OPENAI_API_KEY'' = None \<and> dget env ''TEST_429'' = None"

fun dynamic_permitted :: "dynamic_host \<Rightarrow> (string \<Rightarrow> string) \<Rightarrow> deed \<Rightarrow> bool" where
  "dynamic_permitted w tok (Started p command env) \<longleftrightarrow>
     command = binary w ''ai-protocol'' \<and> gateway_roles tok env \<or> command = binary w ''load'' \<and> load_roles tok env"
| "dynamic_permitted w tok (Asked credential url) \<longleftrightarrow>
     (credential = None \<or> credential = Some (''Bearer '' @ tok ''AGENT_TOKEN_1'')) \<and>
     (\<exists>port. url = ''http://127.0.0.1:'' @ port @ ''/agent-policy'')"
| "dynamic_permitted w tok (Patched credential url body) \<longleftrightarrow>
     credential = ''Bearer '' @ tok ''ADMIN_TOKEN'' \<and>
     (\<exists>port. url = ''http://127.0.0.1:'' @ port @ ''/admin/principals/demo-owner/limits'')"
| "dynamic_permitted w tok (Called credential url body) = False"
| "dynamic_permitted w tok (Handed path credential operation params) = False"
| "dynamic_permitted w tok (Saved path content) = False"
| "dynamic_permitted w tok (Ran command env) = False"
| "dynamic_permitted w tok d = True"

lemma dynamic_quietly: "quietly (\<lambda>_. dynamic_permitted w tok)"
  unfolding quietly_def
proof (intro allI impI)
  fix d assume "quiet d"
  then show "dynamic_permitted w tok d" by (cases d) simp_all
qed

lemma token_known: "gateway_roles tok env \<Longrightarrow> name \<in> set role_names \<Longrightarrow> token env name = tok name"
  by (simp add: gateway_roles_def token_def)

lemma load_roles_environment: "gateway_roles tok env \<Longrightarrow> load_roles tok (load_environment env)"
  unfolding load_roles_def load_environment_def gateway_roles_def
  by (simp add: dget_without dict_simps) (simp add: role_names_def)

abbreviation dynamic_runs :: "dynamic_host \<Rightarrow> (string \<Rightarrow> string) \<Rightarrow> 'a task \<Rightarrow> bool" where
  "dynamic_runs w tok \<equiv> runs (grows (\<lambda>_. dynamic_permitted w tok))"

lemma dynamic_one: "dynamic_permitted w tok d \<Longrightarrow> dynamic_runs w tok (\<lambda>h. Some (h @ [d], q h))"
  by (simp add: runs_def grows_one)

lemma dynamic_steps:
  "dynamic_runs w tok (\<lambda>h. get_event w env (t h) h)" "dynamic_runs w tok (take_started w)" "dynamic_runs w tok (sleep w s)"
  by (auto simp: runs_def get_event_def take_started_def sleep_def Let_def grows_one split: prod.splits)

lemma dynamic_waits:
  "dynamic_runs w tok (wait_event w env pred)" "dynamic_runs w tok (await_gateway w (''http://127.0.0.1:'' @ port) p)"
proof -
  show "dynamic_runs w tok (wait_event w env pred)"
    unfolding wait_event_def by (rule grow.runs_tloop_at)
      (unfold event_round_def, intro grow.runs_bind grow.runs_if grow.runs_quiet dynamic_steps)
  show "dynamic_runs w tok (await_gateway w (''http://127.0.0.1:'' @ port) p)"
    unfolding await_gateway_def by (rule grow.runs_tloop_at)
      (unfold ready_round_def, intro grow.runs_bind grow.runs_if grow.runs_quiet grow.runs_except grows_poll
        grows_request_get dynamic_steps dynamic_quietly, simp)
qed

lemma dynamic_change:
  assumes "gateway_roles tok env"
  shows "dynamic_runs w tok (change w env (''http://127.0.0.1:'' @ port) n)"
proof -
  have "token env ''ADMIN_TOKEN'' = tok ''ADMIN_TOKEN''" using assms by (rule token_known) (simp add: role_names_def)
  then show ?thesis
    unfolding change_def Let_def by (intro grow.runs_bind grow.runs_quiet dynamic_one) simp
qed

lemma dynamic_scenario:
  assumes "gateway_roles tok env"
  shows "dynamic_runs w tok (scenario w env (''http://127.0.0.1:'' @ port) load)"
proof -
  have "token env ''AGENT_TOKEN_1'' = tok ''AGENT_TOKEN_1''" using assms by (rule token_known) (simp add: role_names_def)
  then have "dynamic_runs w tok (final_outstanding w env (''http://127.0.0.1:'' @ port))"
    unfolding final_outstanding_def by (intro grow.runs_bind grow.runs_quiet grows_request_get) simp
  then show ?thesis
    unfolding scenario_def reduce_limit_def raise_limit_def all_completed_def
    by (intro grow.runs_bind grow.runs_quiet grow.runs_each grows_log grows_wait dynamic_steps dynamic_waits
        dynamic_change assms dynamic_quietly) simp_all
qed

lemma dynamic_gateway:
  assumes "gateway_roles tok env"
  shows "dynamic_runs w tok (with_gateway w env (''http://127.0.0.1:'' @ port))"
proof -
  have s: "dynamic_runs w tok (spawn w (binary w ''load'') (load_environment env))"
    using load_roles_environment [OF assms] by (auto simp: runs_def spawn_def grows.stays intro!: grows_one split: sum.splits)
  have "dynamic_runs w tok (stop_load w p)" for p
    unfolding stop_load_def stop_process_def by (intro grow.runs_finally grows_stop_child grows_log dynamic_quietly) simp
  then have "dynamic_runs w tok (with_load w env (''http://127.0.0.1:'' @ port))"
    unfolding with_load_def by (intro grow.runs_bind grow.runs_finally s dynamic_scenario assms)
  then show ?thesis
    unfolding with_gateway_def
    by (intro grows_child grow.runs_finally grow.runs_bind grows_log dynamic_waits dynamic_quietly) (use assms in simp_all)
qed

lemma finally_Inr: "tfinally m n h = Some (g, Inr x) \<Longrightarrow> \<exists>k. m h = Some (k, Inr x) \<and> n k = Some (g, Inr ())"
  by (auto simp: tfinally_def split: option.splits prod.splits sum.splits)

lemma spawn_Inr: "spawn w command env h = Some (g, Inr p) \<longleftrightarrow> popen w h command = Inr () \<and> g = h @ [Started p command env] \<and> p = started_in h"
  by (auto simp: spawn_def split: sum.splits)

text \<open>The catalog is closed as the last thing.\<close>

definition catalog_closed :: history where
  "catalog_closed = [Did ''stopped.set'', Did ''catalog.shutdown'', Did ''catalog.server_close'']"

lemma finally_did: "tfinally m (did what) h = Some (g, r) \<longleftrightarrow> (\<exists>k. m h = Some (k, r) \<and> g = k @ [Did what])"
  by (auto simp: tfinally_def log_def split: option.splits prod.splits)

lemma catalog_shape:
  assumes "with_catalog w body h = Some (g, r)"
  obtains (unbound) e where "bind_any w h = Inl e" "g = h" "r = Inl e"
  | (bound) port k where "bind_any w h = Inr port" "body port (h @ [Bound_port port, Did ''catalog.serve_forever'']) = Some (k, r)"
      "g = k @ catalog_closed"
  using assms
  by (cases "bind_any w h")
    (auto simp: with_catalog_def free_port_def tbind_def [of "free_port w"] finally_did log_bind catalog_closed_def)

definition demo_roles :: "'w host_scheme \<Rightarrow> history \<Rightarrow> (string, string) dict" where
  "demo_roles w h = fold (\<lambda>name env. dset env name (fresh_token w h name)) role_names
     (dpop (dpop (variables w) ''OPENAI_API_KEY'') ''TEST_429'')"

lemma demo_environment_roles: "tbind (demo_environment w) f h = f (demo_roles w h) h"
  by (simp add: demo_environment_def ask_bind demo_roles_def)

definition run_environment :: "'w host_scheme \<Rightarrow> string \<Rightarrow> string \<Rightarrow> (string, string) dict" where
  "run_environment w port_text upstream_port = dset (dset (demo_roles w []) ''GATEWAY_PORT'' port_text) ''CATALOG_PORT'' upstream_port"

lemma gateway_roles_run: "gateway_roles (fresh_token w []) (run_environment w port_text upstream_port)"
  by (simp add: gateway_roles_def run_environment_def demo_roles_def dict_simps dget_tokens) (simp add: role_names_def)

text \<open>The part of a run inside the catalog's block.\<close>

definition dynamic_block :: "dynamic_host \<Rightarrow> int \<Rightarrow> unit task" where
  "dynamic_block w port =
     tbind (free_port w) (\<lambda>gateway. tbind (give (int_str gateway)) (\<lambda>port_text. tbind (give (int_str port)) (\<lambda>upstream_port.
       with_gateway w (run_environment w port_text upstream_port) (''http://127.0.0.1:'' @ port_text))))"

lemma dynamic_main_block: "dynamic_main w [] = with_catalog w (dynamic_block w) []"
  by (simp add: dynamic_main_def demo_environment_roles dynamic_block_def [abs_def] run_environment_def)

lemma dynamic_block_permitted: "dynamic_runs w (fresh_token w []) (dynamic_block w port)"
proof -
  have "dynamic_runs w (fresh_token w []) (free_port w)"
    by (auto simp: runs_def free_port_def grows.stays grows_one split: sum.splits)
  then show ?thesis
    unfolding dynamic_block_def by (intro grow.runs_bind grow.runs_quiet dynamic_gateway gateway_roles_run)
qed

end
