(* ===== verification/Dynamic_Success.thy ===== *)
theory Dynamic_Success
  imports Dynamic_Props
begin

text \<open>
  What a returning limit demonstration has seen, and the lines of the load client up to its last report.
\<close>

subsection \<open>Events that were taken\<close>

definition events_by :: "dynamic_host \<Rightarrow> (string, string) dict \<Rightarrow> history \<Rightarrow> rat \<Rightarrow> json list" where
  "events_by w env h t = (case load_lines w h t of (lines, eof) \<Rightarrow> read_output env (loads w) eof lines)"

text \<open>A \<^verbatim>\<open>get\<close> after \<open>h\<close> gave this event, and it was neither the end nor a leak.\<close>

definition took :: "dynamic_host \<Rightarrow> (string, string) dict \<Rightarrow> history \<Rightarrow> json \<Rightarrow> bool" where
  "took w env h event \<longleftrightarrow>
     (\<exists>t. taken h < length (events_by w env h t) \<and> events_by w env h t ! taken h = event) \<and> is_over event = Inr False"

abbreviation sound :: "dynamic_host \<Rightarrow> (string, string) dict \<Rightarrow> history \<Rightarrow> history \<Rightarrow> bool" where
  "sound w env \<equiv> grows (\<lambda>h d. d = Did ''events.get'' \<longrightarrow> (\<exists>event. took w env h event))"

lemma get_event_Inr:
  assumes "get_event w env t h = Some (g, Inr event)" "is_over event = Inr False"
  shows "took w env h event \<and> g = h @ [Did ''events.get'']"
  using assms unfolding took_def
  by (auto simp: get_event_def events_by_def Let_def split: prod.splits if_splits intro!: exI [of _ t])

lemma event_round_Inr:
  assumes "event_round w env pred d h = Some (g, Inr y)"
  shows "\<exists>event. took w env h event \<and> g = h @ [Did ''events.get''] \<and> (\<forall>v. y = Some v \<longrightarrow> v = event \<and> pred event = Inr True)"
proof -
  let ?rest = "\<lambda>event held. if held then give (Inr (Some event))
       else tbind (ask (\<lambda>h. Inr (clock w h))) (\<lambda>now.
         if d \<le> now then give (Inl (RuntimeError ''Expected client policy transition was not observed''))
         else give (Inr None))"
  from assms obtain k event where e: "get_event w env (max (1/100) (d - clock w h)) h = Some (k, Inr event)"
    and o: "tbind (give (is_over event)) (\<lambda>over.
      if over then give (Inl (RuntimeError ''Load client ended unexpectedly or emitted credentials''))
      else tbind (give (pred event)) (?rest event)) k = Some (g, Inr y)"
    unfolding event_round_def by (cases rule: tbind_cases) auto
  from o obtain held where over: "is_over event = Inr False" and held: "pred event = Inr held" "?rest event held k = Some (g, Inr y)"
    unfolding bind_give by (simp only: give_def split: sum.splits if_splits) auto
  from get_event_Inr [OF e over] have t: "took w env h event" "k = h @ [Did ''events.get'']" by simp_all
  have "g = k \<and> (\<forall>v. y = Some v \<longrightarrow> v = event \<and> held)"
  proof (cases held)
    case True
    with held show ?thesis by (auto simp: give_Inr)
  next
    case False
    with held show ?thesis by (simp add: ask_bind give_Inr split: if_splits)
  qed
  with t held(1) show ?thesis by auto
qed

lemma wait_event_Inr:
  assumes "wait_event w env pred h = Some (g, Inr v)"
  shows "\<exists>k. sound w env h k \<and> took w env k v \<and> pred v = Inr True \<and> g = k @ [Did ''events.get'']"
proof -
  let ?m = "event_round w env pred (clock w h + 20)"
  have s: "sound w env h g" if r: "?m h = Some (g, Inr y)" for h g y
    using event_round_Inr [OF r] by (auto intro!: grows_one)
  have "\<exists>k. sound w env h k \<and> ?m k = Some (g, Inr (Some v))"
    by (rule grow.tloop_left [OF _ assms [unfolded wait_event_def]]) (rule s)
  then obtain k where k: "sound w env h k" "?m k = Some (g, Inr (Some v))" by blast
  from event_round_Inr [OF k(2)] k(1) show ?thesis by blast
qed

lemma took_sound: "took w env h event \<Longrightarrow> sound w env h (h @ [Did ''events.get''])"
  by (rule grows_one) blast

subsection \<open>The stages\<close>

text \<open>The gateway accepted the limit \<open>n\<close> after \<open>h\<close> and answered \<open>result\<close>.\<close>

definition changed :: "dynamic_host \<Rightarrow> string \<Rightarrow> int \<Rightarrow> history \<Rightarrow> json \<Rightarrow> bool" where
  "changed w base n h result \<longleftrightarrow>
     (\<exists>response. patch_answer w h (base @ ''/admin/principals/demo-owner/limits'') (JDict [(''max_outstanding'', JInt n)]) = Inr response \<and>
        is_success response \<and> response_json response = Inr result)"

lemma change_Inr:
  assumes "change w env base n h = Some (g, Inr result)"
  shows "changed w base n h result \<and> (\<exists>c url body. g = h @ [Patched c url body])"
  using assms unfolding change_def changed_def
  by (auto simp: bind_Inr give_Inr Let_def raise_for_status_def split: if_splits)

definition limit_followed :: "dynamic_host \<Rightarrow> (string, string) dict \<Rightarrow> string \<Rightarrow> history \<Rightarrow> bool" where
  "limit_followed w env base f \<longleftrightarrow>
     (\<exists>a b c d e reduced seen lowered raised full.
        changed w base 2 a reduced \<and> fields_are [(''outstanding'', JInt 5), (''policy_revision'', JInt 2)] reduced = Inr True \<and>
        took w env b seen \<and> policy_event [(''policy_revision'', JInt 2)] seen = Inr True \<and>
        fields_are [(''client_active'', JInt 5), (''limit'', JInt 2)] seen = Inr True \<and>
        took w env c lowered \<and> at_two lowered = Inr True \<and>
        changed w base 5 d raised \<and> field_is raised ''policy_revision'' (JInt 3) = Inr True \<and>
        took w env e full \<and> policy_event [(''policy_revision'', JInt 3), (''client_active'', JInt 5)] full = Inr True \<and>
        strict_prefix a b \<and> strict_prefix b c \<and> strict_prefix c d \<and> strict_prefix d e \<and> strict_prefix e f)"

definition nothing_outstanding :: "'w host_scheme \<Rightarrow> (string, string) dict \<Rightarrow> string \<Rightarrow> history \<Rightarrow> bool" where
  "nothing_outstanding w env base h \<longleftrightarrow>
     (\<exists>response policy. fetch w h (Some (''Bearer '' @ token env ''AGENT_TOKEN_1'')) (base @ ''/agent-policy'') = Inr response \<and>
        is_success response \<and> response_json response = Inr policy \<and> field_is policy ''outstanding'' (JInt 0) = Inr True)"

lemma asserted: "rbind r assert_that = Inr () \<longleftrightarrow> r = Inr True"
  by (auto simp: assert_that_def result_simps split: if_splits)

lemma grows_strict: "grows ok h g \<Longrightarrow> strict_prefix h (g @ [d])"
  by (auto simp: strict_prefix_def dest!: grows_extends)

lemma sound_other: "d \<noteq> Did ''events.get'' \<Longrightarrow> sound w env h (h @ [d])"
  by (rule grows_one) simp

lemma reduce_limit_Inr:
  assumes "reduce_limit w env base h = Some (g, Inr u)"
  shows "\<exists>a b reduced seen. sound w env h a \<and> changed w base 2 a reduced \<and>
    fields_are [(''outstanding'', JInt 5), (''policy_revision'', JInt 2)] reduced = Inr True \<and>
    strict_prefix a b \<and> sound w env a b \<and> took w env b seen \<and> policy_event [(''policy_revision'', JInt 2)] seen = Inr True \<and>
    fields_are [(''client_active'', JInt 5), (''limit'', JInt 2)] seen = Inr True \<and> g = b @ [Did ''events.get'']"
proof -
  obtain a reduced k seen where s: "teach (\<lambda>_. take_started w) [0 ..< 5] h = Some (a, Inr ())"
    "change w env base 2 a = Some (k, Inr reduced)"
    "fields_are [(''outstanding'', JInt 5), (''policy_revision'', JInt 2)] reduced = Inr True"
    "wait_event w env (policy_event [(''policy_revision'', JInt 2)]) k = Some (g, Inr seen)"
    "fields_are [(''client_active'', JInt 5), (''limit'', JInt 2)] seen = Inr True"
    using assms unfolding reduce_limit_def bind_Inr give_Inr by (auto simp: asserted)
  have "runs (sound w env) (teach (\<lambda>_. take_started w) [0 ..< 5])"
    by (rule grow.runs_each) (auto simp: runs_def take_started_def intro!: grows_one)
  from runsD [OF this s(1)] have a: "sound w env h a" .
  from change_Inr [OF s(2)] obtain x y z where c: "changed w base 2 a reduced" "k = a @ [Patched x y z]" by blast
  from wait_event_Inr [OF s(4)] obtain b where b: "sound w env k b" "took w env b seen"
    "policy_event [(''policy_revision'', JInt 2)] seen = Inr True" "g = b @ [Did ''events.get'']" by blast
  have ak: "sound w env a k" unfolding c(2) by (rule sound_other) simp
  from grows_extends [OF b(1)] c(2) have "strict_prefix a b" by (auto simp: strict_prefix_def)
  with a c(1) s(3,5) b grows_trans [OF b(1) ak] show ?thesis by blast
qed

lemma did_Inr: "did what h = Some (g, Inr u) \<longleftrightarrow> g = h @ [Did what]"
  by (auto simp: log_def)

lemma raise_limit_Inr:
  assumes "raise_limit w env base h = Some (g, Inr u)"
  shows "\<exists>c d e lowered raised full. sound w env h c \<and> strict_prefix h c \<and> took w env c lowered \<and> at_two lowered = Inr True \<and>
    sound w env c d \<and> strict_prefix c d \<and> changed w base 5 d raised \<and> field_is raised ''policy_revision'' (JInt 3) = Inr True \<and>
    sound w env d e \<and> strict_prefix d e \<and> took w env e full \<and>
    policy_event [(''policy_revision'', JInt 3), (''client_active'', JInt 5)] full = Inr True \<and> g = e @ [Did ''events.get'']"
proof -
  let ?h = "h @ [Did ''paced_completion.start'']"
  obtain lowered d k raised full where s: "wait_event w env at_two ?h = Some (d, Inr lowered)"
    "change w env base 5 d = Some (k, Inr raised)" "field_is raised ''policy_revision'' (JInt 3) = Inr True"
    "wait_event w env (policy_event [(''policy_revision'', JInt 3), (''client_active'', JInt 5)]) k = Some (g, Inr full)"
    using assms unfolding raise_limit_def log_bind sum.case bind_Inr give_Inr by (auto simp: asserted)
  have h: "sound w env h ?h" by (rule sound_other) simp
  from wait_event_Inr [OF s(1)] obtain c where c: "sound w env ?h c" "took w env c lowered" "at_two lowered = Inr True"
    "d = c @ [Did ''events.get'']" by blast
  from change_Inr [OF s(2)] obtain x y z where r: "changed w base 5 d raised" "k = d @ [Patched x y z]" by blast
  from wait_event_Inr [OF s(4)] obtain e where e: "sound w env k e" "took w env e full"
    "policy_event [(''policy_revision'', JInt 3), (''client_active'', JInt 5)] full = Inr True" "g = e @ [Did ''events.get'']" by blast
  have "sound w env d k" unfolding r(2) by (rule sound_other) simp
  then have "sound w env d e" using e(1) by (rule grows_trans [rotated])
  moreover have "strict_prefix d e" using grows_extends [OF e(1)] r(2) by (auto simp: strict_prefix_def)
  moreover have "strict_prefix h c" using grows_extends [OF c(1)] by (auto simp: strict_prefix_def)
  moreover have "sound w env h c" using c(1) h by (rule grows_trans)
  moreover have "sound w env c d" "strict_prefix c d" unfolding c(4) using took_sound [OF c(2)] by (simp_all add: strict_prefix_def)
  ultimately show ?thesis using c(2,3) r(1) s(3) e(2-4) by blast
qed

lemma wait_for_Inr': "wait_for w p t h = Some (g, Inr c) \<Longrightarrow> g = h @ [Waited p t (Some c)]"
  by (auto simp: wait_for_def Let_def split: option.splits)

lemma all_completed_Inr:
  assumes "all_completed w env base load h = Some (g, Inr u)"
  shows "\<exists>f k completed. sound w env h f \<and> took w env f completed \<and>
    fields_are [(''event'', JStr ''completed'')] completed = Inr True \<and>
    fields_are [(''successful'', JInt 60), (''errors'', JInt 0)] completed = Inr True \<and>
    strict_prefix f g \<and> Waited load 5 (Some 0) \<in> set g \<and> nothing_outstanding w env base k \<and> prefix f k"
proof -
  obtain k completed where s: "wait_event w env (fields_are [(''event'', JStr ''completed'')]) h = Some (k, Inr completed)"
    "fields_are [(''successful'', JInt 60), (''errors'', JInt 0)] completed = Inr True"
    and r: "tbind (wait_for w load 5) (\<lambda>code. tbind (check (code = 0) []) (\<lambda>_. tbind (did ''reader.join'') (\<lambda>_.
       final_outstanding w env base))) k = Some (g, Inr u)"
    using assms unfolding all_completed_def
    by (auto simp: bind_Inr [of "wait_event w env (fields_are [(''event'', JStr ''completed'')])"] bind_Inr [of "give r" for r]
        give_Inr asserted simp del: fields_are.simps)
  from wait_event_Inr [OF s(1)] obtain f where f: "sound w env h f" "took w env f completed"
    "fields_are [(''event'', JStr ''completed'')] completed = Inr True" "k = f @ [Did ''events.get'']" by blast
  let ?j = "(k @ [Waited load 5 (Some 0)]) @ [Did ''reader.join'']"
  from r obtain c j where c: "wait_for w load 5 k = Some (j, Inr c)" "c = 0"
    "final_outstanding w env base (j @ [Did ''reader.join'']) = Some (g, Inr u)"
    by (auto simp: bind_Inr [of "wait_for w load 5"] check_bind log_bind split: if_splits)
  with wait_for_Inr' [OF c(1)] have o: "final_outstanding w env base ?j = Some (g, Inr u)" by simp
  then have "nothing_outstanding w env base ?j \<and> (\<exists>d. g = ?j @ [d])"
    unfolding final_outstanding_def nothing_outstanding_def request_get_def
    by (auto simp: bind_Inr give_Inr check_Inr raise_for_status_def split: if_splits)
  moreover have "prefix f ?j" unfolding f(4) by (simp add: prefix_def)
  moreover have "strict_prefix f g" if "g = ?j @ [d]" for d unfolding that f(4) by (auto simp: strict_prefix_def)
  ultimately show ?thesis using f s(2) by fastforce
qed

lemma scenario_Inr:
  assumes "scenario w env base load h = Some (g, Inr u)"
  shows "\<exists>f k completed. limit_followed w env base f \<and> strict_prefix f g \<and> sound w env h f \<and> took w env f completed \<and>
    fields_are [(''event'', JStr ''completed'')] completed = Inr True \<and>
    fields_are [(''successful'', JInt 60), (''errors'', JInt 0)] completed = Inr True \<and>
    Waited load 5 (Some 0) \<in> set g \<and> nothing_outstanding w env base k \<and> prefix f k"
proof -
  let ?h = "h @ [Did ''reader.start'']"
  obtain i j where s: "reduce_limit w env base ?h = Some (i, Inr ())" "raise_limit w env base i = Some (j, Inr ())"
    "all_completed w env base load j = Some (g, Inr u)"
    using assms unfolding scenario_def log_bind sum.case bind_Inr by auto
  from reduce_limit_Inr [OF s(1)] obtain a b reduced seen where r: "sound w env ?h a" "changed w base 2 a reduced"
    "fields_are [(''outstanding'', JInt 5), (''policy_revision'', JInt 2)] reduced = Inr True"
    "strict_prefix a b" "sound w env a b" "took w env b seen" "policy_event [(''policy_revision'', JInt 2)] seen = Inr True"
    "fields_are [(''client_active'', JInt 5), (''limit'', JInt 2)] seen = Inr True" "i = b @ [Did ''events.get'']" by blast
  from raise_limit_Inr [OF s(2)] obtain c d e lowered raised full where l: "sound w env i c" "strict_prefix i c" "took w env c lowered"
    "at_two lowered = Inr True" "sound w env c d" "strict_prefix c d" "changed w base 5 d raised"
    "field_is raised ''policy_revision'' (JInt 3) = Inr True" "sound w env d e" "strict_prefix d e" "took w env e full"
    "policy_event [(''policy_revision'', JInt 3), (''client_active'', JInt 5)] full = Inr True" "j = e @ [Did ''events.get'']" by blast
  from all_completed_Inr [OF s(3)] obtain f k completed where f: "sound w env j f" "took w env f completed"
    "fields_are [(''event'', JStr ''completed'')] completed = Inr True"
    "fields_are [(''successful'', JInt 60), (''errors'', JInt 0)] completed = Inr True"
    "strict_prefix f g" "Waited load 5 (Some 0) \<in> set g" "nothing_outstanding w env base k" "prefix f k" by blast
  have bc: "strict_prefix b c" using l(2) unfolding r(9) by (auto simp: strict_prefix_def dest: append_prefixD)
  have ef: "strict_prefix e f" using grows_extends [OF f(1)] unfolding l(13) by (auto simp: strict_prefix_def)
  have "sound w env h ?h" by (rule sound_other) simp
  then have "sound w env h a" using r(1) grows_trans by blast
  then have "sound w env h b" using r(5) grows_trans by blast
  then have "sound w env h i" using took_sound [OF r(6)] grows_trans unfolding r(9) by blast
  then have "sound w env h c" using l(1) grows_trans by blast
  then have "sound w env h e" using l(5,9) grows_trans by blast
  then have "sound w env h j" using took_sound [OF l(11)] grows_trans unfolding l(13) by blast
  then have "sound w env h f" using f(1) grows_trans by blast
  moreover have "limit_followed w env base f"
    unfolding limit_followed_def using r(2-4,6-8) bc l(3,4,6-8,10-12) ef by blast
  ultimately show ?thesis using f by blast
qed

subsection \<open>The whole run\<close>

lemma quiet_sound:
  "runs (sound w env) (free_port v)" "runs (sound w env) (poll v p)" "runs (sound w env) (sleep v s)" "runs (sound w env) (request_get v c url)"
  by (auto simp: runs_def free_port_def poll_def sleep_def request_get_def Let_def grows.stays intro!: grows_one split: sum.splits)

lemma await_gateway_sound: "runs (sound w env) (await_gateway v base p)"
  unfolding await_gateway_def by (rule grow.runs_tloop_at)
    (unfold ready_round_def, intro grow.runs_bind grow.runs_if grow.runs_quiet grow.runs_except quiet_sound)

lemma gateway_run:
  assumes "with_gateway w env base h = Some (g, Inr ())"
  obtains load i k where "sound w env h i" "Started load (binary w ''load'') (load_environment env) \<in> set i"
    "scenario w env base load i = Some (k, Inr ())" "prefix k g"
proof -
  let ?p = "started_in h" and ?h = "h @ [Started (started_in h) (binary w ''ai-protocol'') env]"
  from assms obtain a where a: "tfinally (tbind (await_gateway w base ?p) (\<lambda>_. with_load w env base)) (did ''http.close'') ?h = Some (a, Inr ())"
    and ga: "stop_child w SIGTERM ?p a = Some (g, Inr ())"
    unfolding with_gateway_def child_def bind_Inr spawn_Inr by (elim exE conjE) (drule finally_Inr, auto)
  from finally_Inr [OF a] obtain b where b: "tbind (await_gateway w base ?p) (\<lambda>_. with_load w env base) ?h = Some (b, Inr ())"
    "a = b @ [Did ''http.close'']" by (auto simp: log_def)
  from b(1) obtain c where c: "await_gateway w base ?p ?h = Some (c, Inr ())" "with_load w env base c = Some (b, Inr ())"
    by (auto simp: bind_Inr)
  let ?load = "started_in c" and ?c = "c @ [Started (started_in c) (binary w ''load'') (load_environment env)]"
  from c(2) obtain k where k: "scenario w env base ?load ?c = Some (k, Inr ())" "stop_load w ?load k = Some (b, Inr ())"
    unfolding with_load_def bind_Inr spawn_Inr by (elim exE conjE) (drule finally_Inr, auto)
  have "sound w env h ?h" "sound w env c ?c" by (rule sound_other; simp)+
  then have "sound w env h ?c" using runsD [OF await_gateway_sound c(1)] grows_trans by blast
  moreover have "prefix k g"
  proof -
    have q: "quietly (\<lambda>_ _. True)" by (simp add: quietly_def)
    have "runs (grows (\<lambda>_ _. True)) (stop_load w ?load)"
      unfolding stop_load_def stop_process_def by (intro grow.runs_finally grows_stop_child grows_log q) simp
    from grows_extends [OF runsD [OF this k(2)]] obtain x where "b = k @ x" by blast
    moreover from grows_extends [OF runsD [OF grows_stop_child [OF q] ga]] obtain y where "g = a @ y" by blast
    ultimately show ?thesis using b(2) by (simp add: prefix_def)
  qed
  ultimately show thesis by (intro that [OF _ _ k(1)]) simp_all
qed

lemma dynamic_run:
  assumes "dynamic_main w [] = Some (g, Inr ())"
  obtains env base load i k where "gateway_roles (fresh_token w []) env" "sound w env [] i"
    "Started load (binary w ''load'') (load_environment env) \<in> set i" "scenario w env base load i = Some (k, Inr ())" "prefix k g"
  using assms [unfolded dynamic_main_block]
proof (cases rule: catalog_shape)
  case (bound port k)
  let ?h = "[Bound_port port, Did ''catalog.serve_forever'']"
  from bound(2) obtain a gateway port_text upstream_port where f: "free_port w ?h = Some (a, Inr gateway)"
    and m: "with_gateway w (run_environment w port_text upstream_port) (''http://127.0.0.1:'' @ port_text) a = Some (k, Inr ())"
    unfolding dynamic_block_def bind_Inr give_Inr by auto
  let ?env = "run_environment w port_text upstream_port"
  obtain load i j where j: "sound w ?env a i" "Started load (binary w ''load'') (load_environment ?env) \<in> set i"
    "scenario w ?env (''http://127.0.0.1:'' @ port_text) load i = Some (j, Inr ())" "prefix j k"
    by (rule gateway_run [OF m])
  have "sound w ?env [] [Bound_port port]" "sound w ?env [Bound_port port] ?h"
    using sound_other [of "Bound_port port" w ?env "[]"] sound_other [of "Did ''catalog.serve_forever''" w ?env "[Bound_port port]"]
    by simp_all
  then have "sound w ?env [] i" using runsD [OF quiet_sound(1) f] j(1) grows_trans by meson
  moreover have "prefix j g" using j(4) bound(3) by (auto simp: prefix_def)
  ultimately show thesis using that [OF gateway_roles_run] j(2,3) by blast
qed simp

subsection \<open>The lines of the load client\<close>

text \<open>The reader only adds lines while the run goes on.\<close>

definition output_grows :: "dynamic_host \<Rightarrow> bool" where
  "output_grows w \<longleftrightarrow> (\<forall>h d k t u. prefix (fst (load_lines w h t)) (fst (load_lines w (h @ d # k) u)))"

lemma read_output_prefix: "prefix (read_output env parse False xs) (read_output env parse eof (xs @ ys))"
  by (induction xs) (auto split: sum.splits)

lemma read_output_end: "read_output env parse eof xs = read_output env parse False xs \<or>
    read_output env parse eof xs = read_output env parse False xs @ [simple_event ''exited'']"
  by (induction xs) (auto split: sum.splits)

lemma over_events: "is_over (simple_event ''exited'') = Inr True" "is_over (simple_event ''credential_leak'') = Inr True"
  by (simp_all add: is_over_def simple_event_def dict_simps)

text \<open>An event that is not the end comes from a line, and stays where it is when more lines come.\<close>

lemma event_stays:
  assumes "n < length (read_output env parse eof xs)" "is_over (read_output env parse eof xs ! n) = Inr False"
  shows "n < length (read_output env parse False (xs @ ys)) \<and>
    read_output env parse False (xs @ ys) ! n = read_output env parse eof xs ! n"
proof -
  have "n < length (read_output env parse False xs) \<and> read_output env parse False xs ! n = read_output env parse eof xs ! n"
    using read_output_end [of env parse eof xs]
  proof
    assume e: "read_output env parse eof xs = read_output env parse False xs @ [simple_event ''exited'']"
    have "n \<noteq> length (read_output env parse False xs)" using assms(2) over_events(1) unfolding e by auto
    with assms(1) show ?thesis unfolding e by (simp add: nth_append)
  qed (use assms(1) in simp)
  moreover obtain zs where "read_output env parse False (xs @ ys) = read_output env parse False xs @ zs"
    using read_output_prefix by (rule prefixE)
  ultimately show ?thesis by (simp add: nth_append)
qed

text \<open>The lines behind the first events, when none of these is a leak.\<close>

lemma clean_lines:
  assumes "n < length (read_output env parse False xs)" "\<forall>i \<le> n. is_over (read_output env parse False xs ! i) = Inr False"
  shows "\<exists>ls. prefix ls xs \<and> read_output env parse False ls = take (Suc n) (read_output env parse False xs) \<and>
    (\<forall>line \<in> set ls. \<not> leaks env line)"
  using assms
proof (induction xs arbitrary: n)
  case (Cons line xs)
  have l: "\<not> leaks env line"
  proof
    assume "leaks env line"
    with Cons.prems(2) have "is_over (simple_event ''credential_leak'') = Inr False" by force
    then show False by (simp add: over_events)
  qed
  show ?case
  proof (cases "parse line")
    case (Inr v)
    show ?thesis
    proof (cases n)
      case 0
      with l Inr show ?thesis by (intro exI [of _ "[line]"]) simp
    next
      case (Suc m)
      have "m < length (read_output env parse False xs)" using Cons.prems(1) l Inr Suc by simp
      moreover have "\<forall>i \<le> m. is_over (read_output env parse False xs ! i) = Inr False"
      proof (intro allI impI)
        fix i assume "i \<le> m"
        then have "Suc i \<le> n" using Suc by simp
        with Cons.prems(2) l Inr show "is_over (read_output env parse False xs ! i) = Inr False" by fastforce
      qed
      ultimately obtain ls where "prefix ls xs" "read_output env parse False ls = take (Suc m) (read_output env parse False xs)"
        "\<forall>line \<in> set ls. \<not> leaks env line" using Cons.IH by blast
      with l Inr Suc show ?thesis by (intro exI [of _ "line # ls"]) simp
    qed
  next
    case (Inl e)
    with Cons.prems(1) l have e: "e = JSONDecodeError" by (auto split: if_splits)
    with Cons Inl l obtain ls where "prefix ls xs" "read_output env parse False ls = take (Suc n) (read_output env parse False xs)"
      "\<forall>line \<in> set ls. \<not> leaks env line" by force
    with l Inl e show ?thesis by (intro exI [of _ "line # ls"]) simp
  qed
qed simp

lemma taken_before:
  assumes "i < taken h"
  shows "\<exists>before after. h = before @ Did ''events.get'' # after \<and> taken before = i"
  using assms
proof (induction h rule: rev_induct)
  case (snoc d h)
  show ?case
  proof (cases "i < taken h")
    case True
    with snoc.IH show ?thesis by (metis append_Cons append_assoc)
  next
    case False
    with snoc.prems have "d = Did ''events.get''" "taken h = i" by (auto simp: taken_def split: if_splits)
    then show ?thesis by blast
  qed
qed (simp add: taken_def)

lemma clean_until:
  assumes s: "sound w env [] f" and t: "took w env f event" and o: "output_grows w"
  shows "\<exists>t ls. prefix ls (fst (load_lines w f t)) \<and> (\<forall>line \<in> set ls. \<not> leaks env line) \<and>
    length (read_output env (loads w) False ls) = Suc (taken f) \<and> last (read_output env (loads w) False ls) = event"
proof -
  let ?read = "\<lambda>eof. read_output env (loads w) eof"
  from t obtain u where u: "taken f < length (events_by w env f u)" "events_by w env f u ! taken f = event" "is_over event = Inr False"
    unfolding took_def by blast
  obtain xs eof where xs: "load_lines w f u = (xs, eof)" by fastforce
  have l: "taken f < length (?read False xs)" "?read False xs ! taken f = event"
    using event_stays [of "taken f" env "loads w" eof xs "[]"] u xs by (simp_all add: events_by_def)
  have "is_over (?read False xs ! i) = Inr False" if "i \<le> taken f" for i
  proof (cases "i = taken f")
    case False
    with that have "i < taken f" by simp
    from taken_before [OF this] obtain before after where b: "f = before @ Did ''events.get'' # after" "taken before = i" by blast
    from grows_each [OF s, of before "Did ''events.get''" after] b(1) obtain e where "took w env before e" by auto
    then obtain v where v: "i < length (events_by w env before v)" "is_over (events_by w env before v ! i) = Inr False"
      unfolding took_def b(2) by blast
    obtain ys eof' where ys: "load_lines w before v = (ys, eof')" by fastforce
    have "prefix (fst (load_lines w before v)) (fst (load_lines w f u))" using o unfolding output_grows_def b(1) by blast
    then obtain zs where "xs = ys @ zs" using xs ys by (auto simp: prefix_def)
    with event_stays [of i env "loads w" eof' ys zs] v ys show ?thesis by (simp add: events_by_def)
  qed (use l u(3) in simp)
  with clean_lines [OF l(1)] obtain ls where ls: "prefix ls xs" "?read False ls = take (Suc (taken f)) (?read False xs)"
    "\<forall>line \<in> set ls. \<not> leaks env line" by blast
  have "length (?read False ls) = Suc (taken f)" "last (?read False ls) = event"
    using l unfolding ls(2) by (simp_all add: take_Suc_conv_app_nth)
  with ls xs show ?thesis by (intro exI [of _ u] exI [of _ ls]) simp
qed

subsection \<open>A sample run\<close>

definition sample_event :: "int \<Rightarrow> int \<Rightarrow> int \<Rightarrow> int \<Rightarrow> json" where
  "sample_event revision limit active outstanding =
     JDict [(''event'', JStr ''policy''), (''policy_revision'', JInt revision), (''limit'', JInt limit),
       (''client_active'', JInt active), (''server_outstanding'', JInt outstanding)]"

text \<open>The client's lines by a letter each.\<close>

definition sample_loads :: "string \<Rightarrow> json result" where
  "sample_loads line =
     (if line = ''a'' then Inr (sample_event 2 2 5 5)
      else if line = ''b'' then Inr (sample_event 2 2 2 2)
      else if line = ''c'' then Inr (sample_event 3 5 5 5)
      else if line = ''d'' then Inr (JDict [(''event'', JStr ''completed''), (''successful'', JInt 60), (''errors'', JInt 0)])
      else Inl JSONDecodeError)"

definition sample_dynamic :: dynamic_host where
  "sample_dynamic =
     \<lparr>variables = [(''PATH'', ''/bin''), (''OPENAI_API_KEY'', ''k'')], interpreter = ''python'', root_dir = ''/r'',
      private_dir = (\<lambda>_. ''/tmp/p''), fresh_token = (\<lambda>_ name. name), bind_any = (\<lambda>h. Inr (if h = [] then 1 else 2)),
      popen = (\<lambda>_ _. Inr ()), os_status = (\<lambda>_ _. None), os_wait = (\<lambda>_ _ _. Some 0), os_reap = (\<lambda>_ _. Some 0),
      clock = (\<lambda>_. 0), nap = (\<lambda>_. Inr ()),
      fetch = (\<lambda>_ credential _. Inr (if credential = None then \<lparr>status_code = 401, resp_json = None, retry_after = None\<rparr>
        else \<lparr>status_code = 200, resp_json = Some (JDict [(''outstanding'', JInt 0)]), retry_after = None\<rparr>)),
      path_exists = (\<lambda>_ _. True), save = (\<lambda>_ _. Inr ()),
      next_started = (\<lambda>_. True), load_lines = (\<lambda>_ _. ([''Compiling'', ''a'', ''b'', ''c'', ''d''], False)),
      patch_answer = (\<lambda>_ _ body. Inr \<lparr>status_code = 200,
        resp_json = Some (JDict [(''policy_revision'', JInt (if py_eq body (JDict [(''max_outstanding'', JInt 2)]) then 2 else 3)),
          (''limits'', JDict [(''max_outstanding'', JInt 2)]), (''outstanding'', JInt 5)]), retry_after = None\<rparr>),
      loads = sample_loads\<rparr>"

definition sample_roles :: "(string, string) dict" where
  "sample_roles = run_environment sample_dynamic ''2'' ''1''"

definition sample_events :: "json list" where
  "sample_events = [sample_event 2 2 5 5, sample_event 2 2 2 2, sample_event 3 5 5 5,
     JDict [(''event'', JStr ''completed''), (''successful'', JInt 60), (''errors'', JInt 0)]]"

lemma sample_reads:
  "read_output sample_roles (loads sample_dynamic) False [''Compiling'', ''a'', ''b'', ''c'', ''d''] = sample_events"
  by code_simp

lemma sample_wait:
  assumes "taken h < 4" "is_over (sample_events ! taken h) = Inr False" "pred (sample_events ! taken h) = Inr True"
  shows "wait_event sample_dynamic sample_roles pred h = Some (h @ [Did ''events.get''], Inr (sample_events ! taken h))"
proof -
  have "load_lines sample_dynamic h t = ([''Compiling'', ''a'', ''b'', ''c'', ''d''], False)" for t by (simp add: sample_dynamic_def)
  then have e: "get_event sample_dynamic sample_roles t h = Some (h @ [Did ''events.get''], Inr (sample_events ! taken h))" for t
    using assms(1) by (simp add: get_event_def sample_reads sample_events_def del: read_output.simps)
  have "event_round sample_dynamic sample_roles pred d h = Some (h @ [Did ''events.get''], Inr (Some (sample_events ! taken h)))" for d
    unfolding event_round_def using assms(2,3) by (simp add: tbind_def e give_def)
  then show ?thesis unfolding wait_event_def by (subst tloop.simps) simp
qed

definition sample_result :: "int \<Rightarrow> json" where
  "sample_result revision =
     JDict [(''policy_revision'', JInt revision), (''limits'', JDict [(''max_outstanding'', JInt 2)]), (''outstanding'', JInt 5)]"

lemma sample_change:
  "change sample_dynamic env base 2 h =
     Some (h @ [Patched (''Bearer '' @ token env ''ADMIN_TOKEN'') (base @ ''/admin/principals/demo-owner/limits'')
       (JDict [(''max_outstanding'', JInt 2)])], Inr (sample_result 2))"
  "change sample_dynamic env base 5 h =
     Some (h @ [Patched (''Bearer '' @ token env ''ADMIN_TOKEN'') (base @ ''/admin/principals/demo-owner/limits'')
       (JDict [(''max_outstanding'', JInt 5)])], Inr (sample_result 3))"
  by (simp_all add: change_def tbind_def give_def Let_def sample_dynamic_def raise_for_status_def response_json_def is_success_def
      sample_result_def num_eq_def dict_simps)

lemma sample_facts:
  "fields_are [(''outstanding'', JInt 5), (''policy_revision'', JInt 2)] (sample_result 2) = Inr True"
  "policy_event [(''policy_revision'', JInt 2)] (sample_event 2 2 5 5) = Inr True"
  "fields_are [(''client_active'', JInt 5), (''limit'', JInt 2)] (sample_event 2 2 5 5) = Inr True"
  "at_two (sample_event 2 2 2 2) = Inr True"
  "field_is (sample_result 3) ''policy_revision'' (JInt 3) = Inr True"
  "policy_event [(''policy_revision'', JInt 3), (''client_active'', JInt 5)] (sample_event 3 5 5 5) = Inr True"
  "is_over (sample_event 2 2 5 5) = Inr False" "is_over (sample_event 2 2 2 2) = Inr False" "is_over (sample_event 3 5 5 5) = Inr False"
  by code_simp+

lemma sample_completed:
  "is_over (sample_events ! 3) = Inr False" "fields_are [(''event'', JStr ''completed'')] (sample_events ! 3) = Inr True"
  "fields_are [(''successful'', JInt 60), (''errors'', JInt 0)] (sample_events ! 3) = Inr True"
  by code_simp+

lemma sample_nth: "sample_events ! 0 = sample_event 2 2 5 5" "sample_events ! Suc 0 = sample_event 2 2 2 2" "sample_events ! Suc (Suc 0) = sample_event 3 5 5 5"
  by (simp_all add: sample_events_def)

lemma taken_snoc: "taken (h @ k) = taken h + taken k" "taken [] = 0" "taken (d # k) = (if d = Did ''events.get'' then Suc (taken k) else taken k)"
  by (simp_all add: taken_def)

text \<open>A stage returns, takes its events, and sees no process end.\<close>

definition passes :: "nat \<Rightarrow> nat \<Rightarrow> nat \<Rightarrow> unit task \<Rightarrow> bool" where
  "passes m n load stage \<longleftrightarrow> (\<forall>h. taken h = m \<and> returncode h load = None \<longrightarrow>
     (\<exists>k. stage h = Some (k, Inr ()) \<and> taken k = n \<and> returncode k load = None))"

lemma passesI:
  "(\<And>h. taken h = m \<Longrightarrow> returncode h load = None \<Longrightarrow> \<exists>k. stage h = Some (k, Inr ()) \<and> taken k = n \<and> returncode k load = None) \<Longrightarrow>
   passes m n load stage"
  by (simp add: passes_def)

lemma sample_started: "passes n n load (teach (\<lambda>_. take_started sample_dynamic) (xs :: nat list))"
proof (induction xs)
  case (Cons x xs)
  have "take_started sample_dynamic h = Some (h @ [Did ''started.get''], Inr ())" for h
    by (simp add: take_started_def sample_dynamic_def)
  with Cons show ?case unfolding passes_def by (simp add: tbind_def taken_snoc returncode_append)
qed (simp add: passes_def give_def)

lemma sample_reduce: "passes 0 1 load (reduce_limit sample_dynamic sample_roles base)"
proof (rule passesI)
  fix h assume "taken h = 0" "returncode h load = None"
  with sample_started [of 0 load "[0 ..< 5]"] obtain j where j: "teach (\<lambda>_. take_started sample_dynamic) [0 ..< 5] h = Some (j, Inr ())"
    "taken j = 0" "returncode j load = None" unfolding passes_def by blast
  then show "\<exists>k. reduce_limit sample_dynamic sample_roles base h = Some (k, Inr ()) \<and> taken k = 1 \<and> returncode k load = None"
    unfolding reduce_limit_def
    by (simp add: tbind_def give_def sample_change sample_facts sample_wait taken_snoc sample_nth assert_that_def returncode_append
        del: upt_Suc fields_are.simps)
qed

lemma sample_raise: "passes 1 3 load (raise_limit sample_dynamic sample_roles base)"
  by (rule passesI)
    (simp add: raise_limit_def tbind_def give_def log_def sample_change sample_facts sample_wait taken_snoc sample_nth
      assert_that_def returncode_append del: fields_are.simps)

lemma sample_complete:
  assumes "taken h = 3" "returncode h load = None"
  shows "\<exists>k. all_completed sample_dynamic sample_roles base load h = Some (k, Inr ())"
proof -
  have w: "wait_event sample_dynamic sample_roles (fields_are [(''event'', JStr ''completed'')]) h =
      Some (h @ [Did ''events.get''], Inr (sample_events ! 3))"
    using sample_wait [of h "fields_are [(''event'', JStr ''completed'')]"] sample_completed(1,2) assms(1) by (simp del: fields_are.simps)
  have o: "wait_for sample_dynamic load 5 (h @ [Did ''events.get'']) =
      Some (h @ [Did ''events.get'', Waited load 5 (Some 0)], Inr 0)"
    using assms(2) by (simp add: wait_for_def Let_def returncode_append sample_dynamic_def)
  have "\<exists>k. final_outstanding sample_dynamic sample_roles base j = Some (k, Inr ())" for j
    by (simp add: final_outstanding_def request_get_def tbind_def give_def check_def sample_dynamic_def raise_for_status_def
        response_json_def is_success_def field_is_def dict_simps num_eq_def)
  then show ?thesis
    unfolding all_completed_def
    by (simp add: tbind_def w o give_def check_def log_def sample_completed assert_that_def del: fields_are.simps)
qed

lemma sample_scenario:
  assumes "taken h = 0" "returncode h load = None"
  shows "\<exists>k. scenario sample_dynamic sample_roles base load h = Some (k, Inr ())"
proof -
  have "taken (h @ [Did ''reader.start'']) = 0" "returncode (h @ [Did ''reader.start'']) load = None"
    using assms by (simp_all add: taken_snoc returncode_append)
  with sample_reduce obtain i where i: "reduce_limit sample_dynamic sample_roles base (h @ [Did ''reader.start'']) = Some (i, Inr ())"
    "taken i = 1" "returncode i load = None" unfolding passes_def by blast
  with sample_raise obtain j where j: "raise_limit sample_dynamic sample_roles base i = Some (j, Inr ())"
    "taken j = 3" "returncode j load = None" unfolding passes_def by blast
  from sample_complete [OF j(2,3)] show ?thesis by (simp add: scenario_def tbind_def log_def i(1) j(1))
qed

lemma sample_dynamic_stop: "\<exists>k. stop_child sample_dynamic s p h = Some (k, Inr ())"
  by (simp add: stop_child_def send_signal_def wait_for_def poll_def tbind_def texcept_def log_def give_def Let_def
      sample_dynamic_def split: option.split)

lemma sample_ready:
  "await_gateway sample_dynamic base 0 [Bound_port 1, Did ''catalog.serve_forever'', Bound_port 2, Started 0 c v] =
     Some ([Bound_port 1, Did ''catalog.serve_forever'', Bound_port 2, Started 0 c v, Polled 0 None, Asked None (base @ ''/agent-policy'')], Inr ())"
  unfolding await_gateway_def
  by (subst tloop.simps)
    (simp add: ready_round_def tbind_def poll_def Let_def ask_def give_def texcept_def request_get_def sample_dynamic_def)

lemma sample_dynamic_run: "\<exists>g. dynamic_main sample_dynamic [] = Some (g, Inr ())"
proof -
  let ?h = "[Bound_port 1, Did ''catalog.serve_forever'', Bound_port 2]" and ?base = "''http://127.0.0.1:2''"
  let ?gateway = "Started 0 (binary sample_dynamic ''ai-protocol'') sample_roles"
  let ?i = "?h @ [?gateway, Polled 0 None, Asked None (?base @ ''/agent-policy'')]"
  let ?j = "?i @ [Started 1 (binary sample_dynamic ''load'') (load_environment sample_roles)]"
  have p: "popen sample_dynamic h c = Inr ()" for h c by (simp add: sample_dynamic_def)
  obtain k where k: "scenario sample_dynamic sample_roles ?base 1 ?j = Some (k, Inr ())"
    using sample_scenario [of ?j 1 ?base] by (auto simp: taken_def)
  obtain l where l: "stop_child sample_dynamic SIGTERM 1 k = Some (l, Inr ())" using sample_dynamic_stop by blast
  obtain m where m: "stop_child sample_dynamic SIGTERM 0 (l @ [Closed_output 1, Did ''http.close'']) = Some (m, Inr ())"
    using sample_dynamic_stop by blast
  have load: "with_load sample_dynamic sample_roles ?base ?i = Some (l @ [Closed_output 1], Inr ())"
    using k l by (simp add: with_load_def tbind_def spawn_def p tfinally_def stop_load_def stop_process_def log_def)
  have gateway: "with_gateway sample_dynamic sample_roles ?base ?h = Some (m, Inr ())"
    using sample_ready [of ?base] load m by (simp add: with_gateway_def child_def tbind_def spawn_def p tfinally_def log_def)
  have ports: "free_port sample_dynamic [] = Some ([Bound_port 1], Inr 1)"
    "free_port sample_dynamic [Bound_port 1, Did ''catalog.serve_forever''] = Some (?h, Inr 2)"
    by (simp_all add: free_port_def sample_dynamic_def)
  have digits: "int_str 2 = Inr ''2''" "int_str 1 = Inr ''1''" by code_simp+
  have "dynamic_block sample_dynamic 1 [Bound_port 1, Did ''catalog.serve_forever''] = Some (m, Inr ())"
    using gateway by (simp add: dynamic_block_def tbind_def ports give_def digits sample_roles_def)
  then show ?thesis
    by (simp add: dynamic_main_block with_catalog_def tbind_def ports tfinally_def log_def)
qed

end
