(* ===== verification/Dynamic_Results.thy ===== *)
theory Dynamic_Results
  imports Dynamic_Success
begin

text \<open>
  The properties of \<^verbatim>\<open>examples/dynamic_demo.py\<close>, each applied to the sample run.
\<close>

text \<open>
  The limit demonstration leaves nothing behind and spreads no credential: however it ends,
  the gateway and the load client have been seen to end and were signalled only while they were
  running, and an opened catalog was closed as the last thing; the gateway got the tokens of all roles,
  the load client only that of its own role, neither got the variables that could reach a paid service; the
  administration token was sent only with a limit change and the agent token only to read the
  policy, both to the loopback interface.
\<close>

theorem dynamic_contained:
  assumes "dynamic_main w [] = Some (g, r)"
  shows "(\<forall>p < started_in g. returncode g p \<noteq> None) \<and>
    (\<forall>before p s after. g = before @ Signalled p s # after \<longrightarrow> p < started_in before \<and> returncode before p = None) \<and>
    (g \<noteq> [] \<longrightarrow> (\<exists>k. g = k @ catalog_closed)) \<and> (\<forall>x \<in> set g. dynamic_permitted w (fresh_token w []) x)"
proof (intro conjI)
  have t: "tidy [] g" using tidy_dynamic assms by (rule runsD)
  then show "\<forall>p < started_in g. returncode g p \<noteq> None" by (simp add: tidy_def)
  show "\<forall>before p s after. g = before @ Signalled p s # after \<longrightarrow> p < started_in before \<and> returncode before p = None"
    using t grows_each [of signal_owned "[]" g] unfolding tidy_def by fastforce
  from assms [unfolded dynamic_main_block]
  have "(g \<noteq> [] \<longrightarrow> (\<exists>k. g = k @ catalog_closed)) \<and> (\<forall>x \<in> set g. dynamic_permitted w (fresh_token w []) x)"
  proof (cases rule: catalog_shape)
    case (bound port k)
    from grows_permitted [OF dynamic_block_permitted bound(2)] obtain j where
      "k = [Bound_port port, Did ''catalog.serve_forever''] @ j" "\<forall>x \<in> set j. dynamic_permitted w (fresh_token w []) x" by auto
    then show ?thesis using bound(3) by (auto simp: catalog_closed_def)
  qed simp
  then show "g \<noteq> [] \<longrightarrow> (\<exists>k. g = k @ catalog_closed)" "\<forall>x \<in> set g. dynamic_permitted w (fresh_token w []) x" by simp_all
qed

theorem dynamic_contained_witness:
  "\<exists>g. dynamic_main sample_dynamic [] = Some (g, Inr ()) \<and> (\<forall>p < started_in g. returncode g p \<noteq> None) \<and>
     (\<forall>x \<in> set g. dynamic_permitted sample_dynamic (fresh_token sample_dynamic []) x)"
  using sample_dynamic_run dynamic_contained by blast

text \<open>
  Claim C29. A limit demonstration that returns has seen the client follow the limit: with five
  operations outstanding the gateway accepted the limit 2; the client reported the new policy while
  five of its requests were active, and later two active requests and at most two outstanding
  operations; then the gateway accepted the limit 5 and the client reported five active requests again;
  then it reported sixty successes and no error and ended with 0, and the gateway nothing outstanding.
\<close>

theorem dynamic_success:
  assumes "dynamic_main w [] = Some (g, Inr ())"
  shows "\<exists>env base load f k completed. gateway_roles (fresh_token w []) env \<and> limit_followed w env base f \<and> strict_prefix f g \<and>
    took w env f completed \<and> fields_are [(''event'', JStr ''completed'')] completed = Inr True \<and>
    fields_are [(''successful'', JInt 60), (''errors'', JInt 0)] completed = Inr True \<and>
    Started load (binary w ''load'') (load_environment env) \<in> set g \<and> Waited load 5 (Some 0) \<in> set g \<and>
    prefix f k \<and> nothing_outstanding w env base k"
proof -
  obtain env base load i j where s: "gateway_roles (fresh_token w []) env" "sound w env [] i"
    "Started load (binary w ''load'') (load_environment env) \<in> set i" "scenario w env base load i = Some (j, Inr ())" "prefix j g"
    by (rule dynamic_run [OF assms])
  from scenario_Inr [OF s(4)] obtain f k completed where f: "limit_followed w env base f" "strict_prefix f j" "sound w env i f" "took w env f completed"
    "fields_are [(''event'', JStr ''completed'')] completed = Inr True"
    "fields_are [(''successful'', JInt 60), (''errors'', JInt 0)] completed = Inr True"
    "Waited load 5 (Some 0) \<in> set j" "nothing_outstanding w env base k" "prefix f k" by blast
  have "prefix i j" using f(2) grows_extends [OF f(3)] by (auto simp: strict_prefix_def prefix_def)
  with s(3,5) have "Started load (binary w ''load'') (load_environment env) \<in> set g" by (auto simp: prefix_def)
  moreover have "Waited load 5 (Some 0) \<in> set g" using f(7) s(5) by (auto simp: prefix_def)
  moreover have "strict_prefix f g" using f(2) s(5) by (rule prefix_order.less_le_trans)
  ultimately show ?thesis using s(1) f by blast
qed

theorem dynamic_success_witness:
  "\<exists>env base f. gateway_roles (fresh_token sample_dynamic []) env \<and> limit_followed sample_dynamic env base f"
  using sample_dynamic_run dynamic_success [of sample_dynamic] by blast

text \<open>
  Claim C30. A credential in the load client's output stops the demonstration: when it returns, then among all
  the lines up to the report of completion, whether they were events or not, none contains the
  token of any role.
\<close>

theorem dynamic_output_clean:
  assumes "dynamic_main w [] = Some (g, Inr ())" and "output_grows w"
  shows "\<exists>env f t lines completed. prefix f g \<and> prefix lines (fst (load_lines w f t)) \<and>
    length (read_output env (loads w) False lines) = Suc (taken f) \<and> last (read_output env (loads w) False lines) = completed \<and>
    fields_are [(''event'', JStr ''completed'')] completed = Inr True \<and>
    (\<forall>line \<in> set lines. \<forall>name \<in> set role_names. \<not> contains_text line (fresh_token w [] name))"
proof -
  obtain env base load i j where s: "gateway_roles (fresh_token w []) env" "sound w env [] i"
    "scenario w env base load i = Some (j, Inr ())" "prefix j g"
    by (rule dynamic_run [OF assms(1)])
  from scenario_Inr [OF s(3)] obtain f completed where f: "strict_prefix f j" "sound w env i f" "took w env f completed"
    "fields_are [(''event'', JStr ''completed'')] completed = Inr True" by blast
  from clean_until [OF grows_trans [OF f(2) s(2)] f(3) assms(2)] obtain t ls where
    l: "prefix ls (fst (load_lines w f t))" "\<forall>line \<in> set ls. \<not> leaks env line"
    "length (read_output env (loads w) False ls) = Suc (taken f)" "last (read_output env (loads w) False ls) = completed" by blast
  have "\<forall>line \<in> set ls. \<forall>name \<in> set role_names. \<not> contains_text line (fresh_token w [] name)"
    using l(2) token_known [OF s(1)] by (fastforce simp: leaks_def list_ex_iff)
  moreover have "prefix f g" using f(1) s(4) by (auto simp: strict_prefix_def)
  ultimately show ?thesis using l f(4) by blast
qed

theorem dynamic_output_clean_witness:
  "\<exists>f t lines. prefix lines (fst (load_lines sample_dynamic f t)) \<and> lines \<noteq> [] \<and>
     (\<forall>line \<in> set lines. \<not> contains_text line (fresh_token sample_dynamic [] ''ADMIN_TOKEN''))"
proof -
  obtain g where g: "dynamic_main sample_dynamic [] = Some (g, Inr ())" using sample_dynamic_run by blast
  have o: "output_grows sample_dynamic" by (simp add: output_grows_def sample_dynamic_def)
  from dynamic_output_clean [OF g o] obtain env f t lines where l: "prefix lines (fst (load_lines sample_dynamic f t))"
    "length (read_output env (loads sample_dynamic) False lines) = Suc (taken f)"
    "\<forall>line \<in> set lines. \<forall>name \<in> set role_names. \<not> contains_text line (fresh_token sample_dynamic [] name)" by blast
  from l(2) have "lines \<noteq> []" by auto
  with l(1,3) show ?thesis by (intro exI [of _ f] exI [of _ t] exI [of _ lines]) (simp add: role_names_def)
qed

end
