(* ===== verification/Queue_Demo.thy ===== *)
theory Queue_Demo
  imports Dynamic_Props
begin

text \<open>
  \<^verbatim>\<open>examples/queue_demo.py\<close>: ten requests hold the gateway's permits, a further one expires in its queue
  and must never reach the catalog, then twenty streams of ten requests each run side by side.
  The gateway and the catalog answer as the \<open>queue_host\<close>: \<open>hold_answers w h\<close> are the ten results that
  \<^verbatim>\<open>asyncio.gather\<close> collects, \<open>next_stream w h n\<close> is the one of \<open>n\<close> waiting streams that is answered next.

  Tasks that \<^verbatim>\<open>asyncio\<close> has created send their request at once. What tasks still do after another one has
  raised is not modelled: they are cancelled with the client that they use.
\<close>

record queue_host = host +
  hold_started :: "history \<Rightarrow> bool"
  seen_queries :: "history \<Rightarrow> string list"
  post_answer :: "history \<Rightarrow> string \<Rightarrow> json \<Rightarrow> response result"
  limit_answer :: "history \<Rightarrow> string \<Rightarrow> json \<Rightarrow> response result"
  hold_answers :: "history \<Rightarrow> response list result"
  next_stream :: "history \<Rightarrow> nat \<Rightarrow> nat"
  stream_answer :: "history \<Rightarrow> string \<Rightarrow> response result"
  streams_expired :: "history \<Rightarrow> bool"

subsection \<open>The catalog\<close>

datatype queue_act = Add_seen string | Release_started | Wait_holds nat | Acquire_work nat

definition queue_GET ::
  "(string \<Rightarrow> bool) \<Rightarrow> (string \<Rightarrow> string) \<Rightarrow> bool \<Rightarrow> bool \<Rightarrow> string \<Rightarrow> queue_act list \<times> served" where
  "queue_GET bracket_ok dec released acquired target =
     (case rbind (urlparse bracket_ok target) (\<lambda>url. param_or_blank (parse_qs dec False (uquery url)) ''query'') of
        Inl e \<Rightarrow> ([], Crashed e)
      | Inr query \<Rightarrow>
          (let hold = startswith query ''hold-''; ready = (if hold then released else acquired)
           in (Add_seen query # (if hold then [Release_started, Wait_holds 4] else [Acquire_work 4]),
               if ready then catalog_GET bracket_ok dec target else Error_Page 503 None)))"

subsection \<open>Settings and requests\<close>

definition queue_environment :: "'w host_scheme \<Rightarrow> (string, string) dict task" where
  "queue_environment w = demo_environment w"

definition queue_settings :: "(string, string) dict \<Rightarrow> string \<Rightarrow> string \<Rightarrow> (string, string) dict" where
  "queue_settings env gateway catalog =
     dset (dset (dset (dset env ''GATEWAY_PORT'' gateway) ''CATALOG_PORT'' catalog)
       ''INTERACTIVE_MAX_WAIT_MS'' ''500'') ''AGENT_MAX_WAIT_MS'' ''10000''"

definition bearer_of :: "(string, string) dict \<Rightarrow> string \<Rightarrow> string" where
  "bearer_of env name = ''Bearer '' @ token env name"

fun await_ready :: "'w host_scheme \<Rightarrow> string \<Rightarrow> nat \<Rightarrow> nat \<Rightarrow> unit task" where
  "await_ready w base gateway 0 = give (Inl (RuntimeError ''Private gateway did not become ready''))"
| "await_ready w base gateway (Suc n) =
     tbind (poll w gateway) (\<lambda>code.
     if code \<noteq> None then give (Inl (RuntimeError ''Private gateway failed to start; build the binaries first''))
     else
       tbind (texcept (tbind (request_get w None (base @ ''/agent-policy'')) (\<lambda>r. give (Inr (status_code r = 401))))
           (\<lambda>e. e = HTTPError) (give (Inr False))) (\<lambda>ready.
       if ready then give (Inr ()) else tbind (sleep w (5/100)) (\<lambda>_. await_ready w base gateway n)))"

definition search_body :: "string \<Rightarrow> json" where
  "search_body query = JDict [(''query'', JStr query)]"

definition send_search :: "(string, string) dict \<Rightarrow> string \<Rightarrow> string \<Rightarrow> string \<Rightarrow> unit task" where
  "send_search env base name query = log (Called (bearer_of env name) (base @ ''/search'') (search_body query)) (Inr ())"

text \<open>\<^verbatim>\<open>await post(name, query)\<close>.\<close>

definition search :: "queue_host \<Rightarrow> (string, string) dict \<Rightarrow> string \<Rightarrow> string \<Rightarrow> string \<Rightarrow> response task" where
  "search w env base name query =
     tbind (send_search env base name query) (\<lambda>_.
     ask (\<lambda>h. post_answer w h (bearer_of env name) (search_body query)))"

definition read_policy :: "'w host_scheme \<Rightarrow> (string, string) dict \<Rightarrow> string \<Rightarrow> string \<Rightarrow> json task" where
  "read_policy w env base name =
     tbind (request_get w (Some (bearer_of env name)) (base @ ''/agent-policy'')) (\<lambda>response.
     tbind (give (raise_for_status response)) (\<lambda>_. give (response_json response)))"

definition none_outstanding :: "'w host_scheme \<Rightarrow> (string, string) dict \<Rightarrow> string \<Rightarrow> string \<Rightarrow> unit task" where
  "none_outstanding w env base name =
     tbind (read_policy w env base name) (\<lambda>policy.
     tbind (give (field_is policy ''outstanding'' (JInt 0))) (\<lambda>drained. check drained []))"

definition open_limit :: "queue_host \<Rightarrow> (string, string) dict \<Rightarrow> string \<Rightarrow> unit task" where
  "open_limit w env base =
     tbind (\<lambda>h.
       let url = base @ ''/admin/principals/demo-owner/limits''; body = JDict [(''max_outstanding'', JInt 40)]
       in Some (h @ [Patched (bearer_of env ''ADMIN_TOKEN'') url body], limit_answer w h url body)) (\<lambda>response.
     give (raise_for_status response))"

subsection \<open>The request that expires\<close>

definition forbidden_query :: string where
  "forbidden_query = ''must-not-start''"

definition queue_timeout :: json where
  "queue_timeout = JDict [(''error'', JDict [(''code'', JStr ''queue_timeout''), (''execution'', JStr ''not_started'')])]"

definition retry_header :: "response \<Rightarrow> string result" where
  "retry_header r = (case retry_after r of None \<Rightarrow> Inl (KeyError ''Retry-After'') | Some v \<Rightarrow> Inr v)"

definition never_seen :: "queue_host \<Rightarrow> unit task" where
  "never_seen w = tbind (ask (\<lambda>h. Inr (seen_queries w h))) (\<lambda>seen. check (forbidden_query \<notin> set seen) [])"

definition hold_query :: "nat \<Rightarrow> string" where
  "hold_query index = ''hold-'' @ nat_str index"

definition start_holds :: "queue_host \<Rightarrow> (string, string) dict \<Rightarrow> string \<Rightarrow> unit task" where
  "start_holds w env base =
     tbind (teach (\<lambda>index. send_search env base ''AGENT_TOKEN_1'' (hold_query index)) [0 ..< 10]) (\<lambda>_.
     teach (\<lambda>_. tbind (\<lambda>h. Some (h @ [Did ''holds_started.acquire''], Inr (hold_started w h))) (\<lambda>acquired. check acquired []))
       [0 ..< 10])"

definition expire_one :: "queue_host \<Rightarrow> (string, string) dict \<Rightarrow> string \<Rightarrow> unit task" where
  "expire_one w env base =
     tbind (search w env base ''INTERACTIVE_TOKEN'' forbidden_query) (\<lambda>expired.
     tbind (check (status_code expired = 503) []) (\<lambda>_.
     tbind (give (response_json expired)) (\<lambda>body.
     tbind (check (py_eq body queue_timeout) []) (\<lambda>_.
     tbind (give (retry_header expired)) (\<lambda>retry.
     tbind (check (retry = ''1'') []) (\<lambda>_.
     tbind (never_seen w) (\<lambda>_.
     none_outstanding w env base ''INTERACTIVE_TOKEN'')))))))"

definition finish_holds :: "queue_host \<Rightarrow> unit task" where
  "finish_holds w =
     tbind (did ''release_holds.set'') (\<lambda>_.
     tbind (\<lambda>h. Some (h @ [Did ''gather holds''], hold_answers w h)) (\<lambda>results.
     teach (\<lambda>result. check (status_code result = 200) []) results))"

subsection \<open>The streams\<close>

text \<open>A stream of a kind and worker number waits for the answer to its request of this number.\<close>

datatype stream = Stream (kind_of: string) (worker_of: nat) (number_of: nat)

definition stream_query :: "stream \<Rightarrow> string" where
  "stream_query s = kind_of s @ ''-'' @ nat_str (worker_of s) @ ''-'' @ nat_str (number_of s)"

definition stream_role :: "stream \<Rightarrow> string" where
  "stream_role s = (if kind_of s = ''interactive'' then ''INTERACTIVE_TOKEN'' else ''AGENT_TOKEN_1'')"

definition first_streams :: "stream list" where
  "first_streams = map (\<lambda>worker. Stream ''interactive'' worker 0) [0 ..< 8] @ map (\<lambda>worker. Stream ''agent'' worker 0) [0 ..< 12]"

definition send_stream :: "(string, string) dict \<Rightarrow> string \<Rightarrow> stream \<Rightarrow> unit task" where
  "send_stream env base s = send_search env base (stream_role s) (stream_query s)"

text \<open>\<^verbatim>\<open>completed\<close>: the counts of the interactive and the agent requests.\<close>

definition count_one :: "stream \<Rightarrow> nat \<times> nat \<Rightarrow> nat \<times> nat" where
  "count_one s = (\<lambda>(interactive, agent). if kind_of s = ''interactive'' then (Suc interactive, agent) else (interactive, Suc agent))"

text \<open>What happens when a stream's request is answered: its next request, or its end.\<close>

definition answered_stream :: "queue_host \<Rightarrow> stream \<Rightarrow> unit task" where
  "answered_stream w s =
     tbind (\<lambda>h. Some (h @ [Did (stream_query s)], stream_answer w h (stream_query s))) (\<lambda>result.
     if status_code result = 200 then give (Inr ())
     else give (rbind (int_str (status_code result)) (\<lambda>code.
       Inl (AssertionError (''Unexpected '' @ code @ '' in '' @ kind_of s @ '' stream'')))))"

definition next_request :: "stream \<Rightarrow> stream option" where
  "next_request s = (if Suc (number_of s) < 10 then Some (Stream (kind_of s) (worker_of s) (Suc (number_of s))) else None)"

function run_streams ::
  "queue_host \<Rightarrow> (string, string) dict \<Rightarrow> string \<Rightarrow> stream list \<Rightarrow> nat \<times> nat \<Rightarrow> (nat \<times> nat) task" where
  "run_streams w env base waiting completed h =
     (if waiting = [] then Some (h, Inr completed)
      else if streams_expired w h then Some (h @ [Did ''gather streams''], Inl (TimeoutError []))
      else
        (let i = next_stream w h (length waiting) mod length waiting; s = waiting ! i
         in case answered_stream w s h of
              None \<Rightarrow> None
            | Some (g, Inl e) \<Rightarrow> Some (g, Inl e)
            | Some (g, Inr _) \<Rightarrow>
                (case next_request s of
                   None \<Rightarrow> run_streams w env base (take i waiting @ drop (Suc i) waiting) (count_one s completed) g
                 | Some s' \<Rightarrow>
                     (case send_stream env base s' g of
                        Some (k, Inr _) \<Rightarrow> run_streams w env base (waiting[i := s']) (count_one s completed) k
                      | _ \<Rightarrow> None))))"
  by pat_completeness auto

text \<open>The requests that are still to be answered.\<close>

definition remaining :: "stream list \<Rightarrow> nat" where
  "remaining waiting = sum_list (map (\<lambda>s. Suc (10 - number_of s)) waiting)"

lemma remaining_step:
  assumes "i < length waiting"
  shows "remaining (take i waiting @ drop (Suc i) waiting) < remaining waiting"
    "next_request (waiting ! i) = Some s \<Longrightarrow> remaining (waiting[i := s]) < remaining waiting"
proof -
  have w: "waiting = take i waiting @ waiting ! i # drop (Suc i) waiting" using assms by (simp add: id_take_nth_drop)
  have r: "remaining waiting = remaining (take i waiting) + Suc (10 - number_of (waiting ! i)) + remaining (drop (Suc i) waiting)"
    by (subst w) (simp add: remaining_def)
  show "remaining (take i waiting @ drop (Suc i) waiting) < remaining waiting" unfolding r by (simp add: remaining_def)
  show "remaining (waiting[i := s]) < remaining waiting" if "next_request (waiting ! i) = Some s"
    unfolding r upd_conv_take_nth_drop [OF assms] using that
    by (auto simp: remaining_def next_request_def split: if_splits)
qed

termination run_streams
  by (relation "measure (\<lambda>(w, env, base, waiting, completed, h). remaining waiting)") (auto intro: remaining_step)

declare run_streams.simps [simp del]

definition streams :: "queue_host \<Rightarrow> (string, string) dict \<Rightarrow> string \<Rightarrow> unit task" where
  "streams w env base =
     tbind (did ''pace_completions.start'') (\<lambda>_.
     tbind (teach (send_stream env base) first_streams) (\<lambda>_.
     tbind (run_streams w env base first_streams (0, 0)) (\<lambda>completed.
     check (completed = (80, 120)) [])))"

subsection \<open>main\<close>

definition queue_checks :: "queue_host \<Rightarrow> (string, string) dict \<Rightarrow> string \<Rightarrow> unit task" where
  "queue_checks w env base =
     tbind (open_limit w env base) (\<lambda>_.
     tbind (read_policy w env base ''INTERACTIVE_TOKEN'') (\<lambda>interactive.
     tbind (give (rbind (subscript interactive ''queue'') (\<lambda>q. field_is q ''max_wait_ms'' (JInt 500)))) (\<lambda>bounded.
     tbind (check bounded []) (\<lambda>_.
     tbind (start_holds w env base) (\<lambda>_.
     tbind (expire_one w env base) (\<lambda>_.
     tbind (finish_holds w) (\<lambda>_.
     tbind (streams w env base) (\<lambda>_.
     tbind (teach (none_outstanding w env base) [''AGENT_TOKEN_1'', ''OTHER_AGENT_TOKEN'', ''INTERACTIVE_TOKEN'']) (\<lambda>_.
     tbind (never_seen w) (\<lambda>_.
     tbind (ask (\<lambda>h. Inr (seen_queries w h))) (\<lambda>seen. check (length (remdups seen) = 210) [])))))))))))"

definition queue_gateway :: "queue_host \<Rightarrow> (string, string) dict \<Rightarrow> string \<Rightarrow> unit task" where
  "queue_gateway w env base =
     child w (binary w ''ai-protocol'') env SIGTERM (\<lambda>gateway.
       tfinally (tbind (await_ready w base gateway 100) (\<lambda>_. queue_checks w env base)) (did ''http.aclose''))"

definition queue_main :: "queue_host \<Rightarrow> unit task" where
  "queue_main w =
     tbind (queue_environment w) (\<lambda>env.
     with_catalog w (\<lambda>port.
       tfinally
         (tbind (free_port w) (\<lambda>gateway.
          tbind (give (int_str gateway)) (\<lambda>gateway_port.
          tbind (give (int_str port)) (\<lambda>upstream_port.
          queue_gateway w (queue_settings env gateway_port upstream_port) (''http://127.0.0.1:'' @ gateway_port)))))
         (did ''release_holds.set'')))"

end
