(* ===== verification/Queue_Props.thy ===== *)
theory Queue_Props
  imports Queue_Demo "HOL-Library.Multiset"
begin

text \<open>
  Lemmas about the queue demonstration: under every order of answers its streams send each request once
  and are counted completely; its processes end, and its credentials go where they are needed. The
  properties are in \<^verbatim>\<open>Queue_Results\<close>.
\<close>

subsection \<open>Requests that were sent\<close>

fun searched_in :: "deed \<Rightarrow> string list" where
  "searched_in (Called credential url (JDict [(k, JStr query)])) = [query]"
| "searched_in d = []"

definition searched :: "history \<Rightarrow> string list" where
  "searched h = concat (map searched_in h)"

lemma searched_simps: "searched [] = []" "searched (d # h) = searched_in d @ searched h" "searched (h @ k) = searched h @ searched k"
  by (simp_all add: searched_def)

lemma send_search_out: "send_search env base name query h = Some (h @ [Called (bearer_of env name) (base @ ''/search'') (search_body query)], Inr ())"
  by (simp add: send_search_def log_def)

lemma searched_send: "searched_in (Called c url (search_body query)) = [query]"
  by (simp add: search_body_def)

subsection \<open>The streams\<close>

text \<open>The requests of a stream after its current one, and all requests of the twenty streams.\<close>

definition future :: "stream \<Rightarrow> stream list" where
  "future s = map (Stream (kind_of s) (worker_of s)) [Suc (number_of s) ..< 10]"

definition all_streams :: "stream list" where
  "all_streams = concat (map (\<lambda>s. s # future s) first_streams)"

lemma future_next:
  "next_request s = Some s' \<Longrightarrow> future s = s' # future s'" "next_request s = None \<Longrightarrow> future s = []"
  by (auto simp: next_request_def future_def upt_conv_Cons split: if_splits)

text \<open>Requests sent during \<open>k\<close> and requests still to come make up \<open>whole\<close>; each count and the answers still
  owed to its kind make up 80 and 120.\<close>

definition owed :: "string \<Rightarrow> stream list \<Rightarrow> nat" where
  "owed kind waiting = sum_list (map (\<lambda>s. if (kind_of s = ''interactive'') = (kind = ''interactive'') then 10 - number_of s else 0) waiting)"

definition balanced :: "string multiset \<Rightarrow> history \<Rightarrow> stream list \<Rightarrow> nat \<times> nat \<Rightarrow> bool" where
  "balanced whole k waiting completed \<longleftrightarrow>
     mset (searched k) + mset (map stream_query (concat (map future waiting))) = whole \<and>
     fst completed + owed ''interactive'' waiting = 80 \<and> snd completed + owed ''agent'' waiting = 120 \<and>
     (\<forall>s \<in> set waiting. number_of s < 10)"

lemma owed_split:
  assumes "i < length waiting"
  shows "owed kind waiting = owed kind (take i waiting) + owed kind [waiting ! i] + owed kind (drop (Suc i) waiting)"
    "owed kind (take i waiting @ drop (Suc i) waiting) = owed kind (take i waiting) + owed kind (drop (Suc i) waiting)"
    "owed kind (waiting[i := s]) = owed kind (take i waiting) + owed kind [s] + owed kind (drop (Suc i) waiting)"
proof -
  have "waiting = take i waiting @ waiting ! i # drop (Suc i) waiting" using assms by (simp add: id_take_nth_drop)
  then have "owed kind waiting = owed kind (take i waiting @ waiting ! i # drop (Suc i) waiting)" by simp
  then show "owed kind waiting = owed kind (take i waiting) + owed kind [waiting ! i] + owed kind (drop (Suc i) waiting)"
    by (simp add: owed_def)
  show "owed kind (take i waiting @ drop (Suc i) waiting) = owed kind (take i waiting) + owed kind (drop (Suc i) waiting)"
    by (simp add: owed_def)
  show "owed kind (waiting[i := s]) = owed kind (take i waiting) + owed kind [s] + owed kind (drop (Suc i) waiting)"
    unfolding upd_conv_take_nth_drop [OF assms] by (simp add: owed_def)
qed

lemma future_split:
  assumes "i < length waiting"
  shows "mset (map stream_query (concat (map future waiting))) =
      mset (map stream_query (concat (map future (take i waiting)))) + mset (map stream_query (future (waiting ! i))) +
      mset (map stream_query (concat (map future (drop (Suc i) waiting))))"
proof -
  have "waiting = take i waiting @ waiting ! i # drop (Suc i) waiting" using assms by (simp add: id_take_nth_drop)
  then have "concat (map future waiting) = concat (map future (take i waiting @ waiting ! i # drop (Suc i) waiting))" by simp
  then show ?thesis by simp
qed

lemma balanced_ends:
  assumes "balanced whole k waiting completed" "i < length waiting" "next_request (waiting ! i) = None" "searched j = []"
  shows "balanced whole (k @ j) (take i waiting @ drop (Suc i) waiting) (count_one (waiting ! i) completed)"
proof -
  let ?s = "waiting ! i"
  have n: "number_of ?s = 9" using assms(1,2,3) nth_mem unfolding balanced_def by (fastforce simp: next_request_def split: if_splits)
  have "owed ''interactive'' [?s] = (if kind_of ?s = ''interactive'' then 1 else 0)" "owed ''agent'' [?s] = (if kind_of ?s = ''interactive'' then 0 else 1)"
    using n by (simp_all add: owed_def)
  then show ?thesis
    using assms(1,4) future_next(2) [OF assms(3)] owed_split(1,2) [OF assms(2)] future_split [OF assms(2)]
    unfolding balanced_def by (auto simp: searched_simps count_one_def split: prod.splits dest: in_set_takeD in_set_dropD)
qed

lemma balanced_sends:
  assumes "balanced whole k waiting completed" "i < length waiting" "next_request (waiting ! i) = Some s" "searched j = [stream_query s]"
  shows "balanced whole (k @ j) (waiting[i := s]) (count_one (waiting ! i) completed)"
proof -
  let ?s = "waiting ! i"
  have n: "number_of ?s < 9" "number_of s = Suc (number_of ?s)" "kind_of s = kind_of ?s"
    using assms(3) by (auto simp: next_request_def split: if_splits)
  then have "10 - number_of ?s = Suc (10 - number_of s)" by arith
  with n(3) have "owed ''interactive'' [?s] = (if kind_of ?s = ''interactive'' then 1 else 0) + owed ''interactive'' [s]"
    "owed ''agent'' [?s] = (if kind_of ?s = ''interactive'' then 0 else 1) + owed ''agent'' [s]"
    by (auto simp: owed_def)
  moreover have "mset (map stream_query (concat (map future (waiting[i := s])))) =
      mset (map stream_query (concat (map future (take i waiting)))) + mset (map stream_query (future s)) +
      mset (map stream_query (concat (map future (drop (Suc i) waiting))))"
    unfolding upd_conv_take_nth_drop [OF assms(2)] by simp
  moreover have "\<forall>x \<in> set (waiting[i := s]). number_of x < 10"
    using assms(1) n set_update_subset_insert [of waiting i s] unfolding balanced_def by fastforce
  ultimately show ?thesis
    using assms(1,4) future_next(1) [OF assms(3)] owed_split(1,3) [OF assms(2)] future_split [OF assms(2)]
    unfolding balanced_def by (auto simp: searched_simps count_one_def split: prod.splits)
qed

lemma answered_stream_out: "\<exists>r. answered_stream w s h = Some (h @ [Did (stream_query s)], r)"
proof (cases "stream_answer w h (stream_query s)")
  case (Inr b)
  then show ?thesis by (cases "status_code b = 200") (simp_all add: answered_stream_def tbind_def give_def)
qed (simp add: answered_stream_def tbind_def)

lemma run_streams_balanced:
  "balanced whole k waiting completed \<Longrightarrow>
   \<exists>j r. run_streams w env base waiting completed (h @ k) = Some (h @ k @ j, r) \<and>
     mset (searched (k @ j)) \<subseteq># whole \<and> (\<forall>x. r = Inr x \<longrightarrow> mset (searched (k @ j)) = whole \<and> x = (80, 120))"
proof (induction "remaining waiting" arbitrary: waiting completed k rule: less_induct)
  case less
  show ?case
  proof (cases "waiting = [] \<or> streams_expired w (h @ k)")
    case True
    show ?thesis
    proof (cases "waiting = []")
      case True
      with less.prems have "mset (searched k) = whole \<and> completed = (80, 120)"
        unfolding balanced_def owed_def by (cases completed) simp
      with True show ?thesis by (subst run_streams.simps) (intro exI [of _ "[]"] exI [of _ "Inr completed"], simp)
    next
      case False
      have "mset (searched (k @ [Did ''gather streams''])) \<subseteq># whole"
        using less.prems unfolding balanced_def by (auto simp: searched_simps)
      with False True show ?thesis
        by (subst run_streams.simps) (intro exI [of _ "[Did ''gather streams'']"] exI [of _ "Inl (TimeoutError [])"], simp)
    qed
  next
    case False
    let ?i = "next_stream w (h @ k) (length waiting) mod length waiting"
    let ?s = "waiting ! ?i" and ?d = "[Did (stream_query (waiting ! (next_stream w (h @ k) (length waiting) mod length waiting)))]"
    have i: "?i < length waiting" using False by simp
    have q: "searched ?d = []" by (simp add: searched_def)
    obtain r where a: "answered_stream w ?s (h @ k) = Some (h @ k @ ?d, r)"
      using answered_stream_out [of w ?s "h @ k"] by auto
    show ?thesis
    proof (cases r)
      case (Inl e)
      have "run_streams w env base waiting completed (h @ k) = Some (h @ k @ ?d, Inl e)"
        using False a Inl by (subst run_streams.simps) (simp add: Let_def)
      then show ?thesis using less.prems q unfolding balanced_def by (force simp: searched_simps)
    next
      case (Inr u)
      show ?thesis
      proof (cases "next_request ?s")
        case None
        from less.hyps [OF remaining_step(1) [OF i] balanced_ends [OF less.prems i None q]]
        obtain j y where j: "run_streams w env base (take ?i waiting @ drop (Suc ?i) waiting) (count_one ?s completed) (h @ k @ ?d) =
            Some (h @ (k @ ?d) @ j, y)" "mset (searched ((k @ ?d) @ j)) \<subseteq># whole"
            "\<forall>x. y = Inr x \<longrightarrow> mset (searched ((k @ ?d) @ j)) = whole \<and> x = (80, 120)" by auto
        have "run_streams w env base waiting completed (h @ k) = Some (h @ k @ ?d @ j, y)"
          using False a Inr None j(1) by (subst run_streams.simps) (simp add: Let_def)
        with j(2,3) show ?thesis by (intro exI [of _ "?d @ j"] exI [of _ y]) simp
      next
        case (Some s)
        let ?e = "[Called (bearer_of env (stream_role s)) (base @ ''/search'') (search_body (stream_query s))]"
        have "searched (?d @ ?e) = [stream_query s]" by (simp add: searched_simps searched_send q)
        from less.hyps [OF remaining_step(2) [OF i Some] balanced_sends [OF less.prems i Some this]]
        obtain j y where j: "run_streams w env base (waiting[?i := s]) (count_one ?s completed) (h @ k @ ?d @ ?e) =
            Some (h @ (k @ ?d @ ?e) @ j, y)" "mset (searched ((k @ ?d @ ?e) @ j)) \<subseteq># whole"
            "\<forall>x. y = Inr x \<longrightarrow> mset (searched ((k @ ?d @ ?e) @ j)) = whole \<and> x = (80, 120)" by auto
        have "run_streams w env base waiting completed (h @ k) = Some (h @ k @ (?d @ ?e) @ j, y)"
          using False a Inr Some j(1) by (subst run_streams.simps) (simp add: Let_def send_stream_def send_search_out)
        with j(2,3) show ?thesis by (intro exI [of _ "(?d @ ?e) @ j"] exI [of _ y]) simp
      qed
    qed
  qed
qed

definition stream_queries :: "string list" where
  "stream_queries = map stream_query all_streams"

lemma first_balanced:
  "balanced (mset stream_queries) (map (\<lambda>s. Called (bearer_of env (stream_role s)) (base @ ''/search'') (search_body (stream_query s))) first_streams)
     first_streams (0, 0)"
proof -
  have "searched (map (\<lambda>s. Called (bearer_of env (stream_role s)) (base @ ''/search'') (search_body (stream_query s))) xs) = map stream_query xs" for xs
    by (induction xs) (simp_all add: searched_def search_body_def)
  moreover have "mset (map stream_query (concat (map (\<lambda>s. s # future s) xs))) =
      mset (map stream_query xs) + mset (map stream_query (concat (map future xs)))" for xs
    by (induction xs) simp_all
  moreover have "owed ''interactive'' first_streams = 80" "owed ''agent'' first_streams = 120" "\<forall>s \<in> set first_streams. number_of s < 10"
    by code_simp+
  ultimately show ?thesis unfolding balanced_def stream_queries_def all_streams_def by simp
qed

lemma teach_send: "teach (send_stream env base) xs h =
    Some (h @ map (\<lambda>s. Called (bearer_of env (stream_role s)) (base @ ''/search'') (search_body (stream_query s))) xs, Inr ())"
  by (induction xs arbitrary: h) (simp_all add: give_def tbind_def send_stream_def send_search_out)

subsection \<open>The processes are stopped\<close>

text \<open>The deeds of the streams.\<close>

definition stream_deed :: "(string, string) dict \<Rightarrow> string \<Rightarrow> deed \<Rightarrow> bool" where
  "stream_deed env base d \<longleftrightarrow> (\<exists>what. d = Did what) \<or>
     (\<exists>s. d = Called (bearer_of env (stream_role s)) (base @ ''/search'') (search_body (stream_query s)))"

lemma run_streams_deeds: "run_streams w env base waiting completed h = Some (g, r) \<Longrightarrow> grows (\<lambda>_. stream_deed env base) h g"
proof (induction w env base waiting completed h rule: run_streams.induct)
  case (1 w env base waiting completed h)
  let ?i = "next_stream w h (length waiting) mod length waiting" and ?s = "waiting ! (next_stream w h (length waiting) mod length waiting)"
  let ?h = "h @ [Did (stream_query ?s)]"
  have one: "grows (\<lambda>_. stream_deed env base) k (k @ [Did what])" for k what
    by (rule grows_one) (simp add: stream_deed_def)
  show ?case
  proof (cases "waiting = [] \<or> streams_expired w h")
    case True
    with "1.prems" show ?thesis by (subst (asm) run_streams.simps) (auto simp: grows.stays one split: if_splits)
  next
    case False
    obtain x where a: "answered_stream w ?s h = Some (?h, x)" using answered_stream_out by blast
    show ?thesis
    proof (cases x)
      case (Inl e)
      with "1.prems" False a have "g = ?h" by (subst (asm) run_streams.simps) (simp add: Let_def)
      then show ?thesis using one by simp
    next
      case (Inr u)
      show ?thesis
      proof (cases "next_request ?s")
        case None
        with "1.prems" False a Inr have "run_streams w env base (take ?i waiting @ drop (Suc ?i) waiting) (count_one ?s completed) ?h = Some (g, r)"
          by (subst (asm) run_streams.simps) (simp add: Let_def)
        from "1.IH"(1) [OF _ _ refl refl a refl Inr None this] False show ?thesis using one grows_trans by blast
      next
        case (Some s)
        let ?d = "Called (bearer_of env (stream_role s)) (base @ ''/search'') (search_body (stream_query s))"
        have o: "send_stream env base s ?h = Some (?h @ [?d], Inr ())" by (simp add: send_stream_def send_search_out)
        with "1.prems" False a Inr Some have "run_streams w env base (waiting[?i := s]) (count_one ?s completed) (?h @ [?d]) = Some (g, r)"
          by (subst (asm) run_streams.simps) (simp add: Let_def)
        from "1.IH"(2) [OF _ _ refl refl a refl Inr Some o refl refl this] False
        have "grows (\<lambda>_. stream_deed env base) (?h @ [?d]) g" by blast
        moreover have "grows (\<lambda>_. stream_deed env base) ?h (?h @ [?d])" by (rule grows_one) (auto simp: stream_deed_def)
        ultimately show ?thesis using one grows_trans by blast
      qed
    qed
  qed
qed

lemma grows_weaken: "grows ok h g \<Longrightarrow> (\<And>h d. ok h d \<Longrightarrow> ok' h d) \<Longrightarrow> grows ok' h g"
  by (induction rule: grows.induct) (auto intro: grows.intros)

lemma grows_tidy: "grows ok h g \<Longrightarrow> (\<And>h d. ok h d \<Longrightarrow> signal_owned h d \<and> started_in [d] = 0) \<Longrightarrow> tidy h g"
proof (induction rule: grows.induct)
  case (adds h g d)
  then have "tidy h g" "tidy g (g @ [d])" by (simp_all add: tidy_one)
  then show ?case by (rule tidied.trans)
qed (rule tidied.refl)

lemma tidy_did: "runs tidy (\<lambda>h. Some (h @ [Did what], q h))"
  by (simp add: runs_def tidy_one)

lemma tidy_run_streams: "runs tidy (run_streams w env base waiting completed)"
  by (rule runsI, drule run_streams_deeds, erule grows_tidy) (auto simp: stream_deed_def)

lemma tidy_await_ready: "runs tidy (await_ready w base p n)"
  by (induction n) (simp_all add: tidied.runs_quiet, intro tidy_rules tidy_sleep)

lemma tidy_sends: "runs tidy (send_search env base name query)"
  unfolding send_search_def by (rule tidy_log) simp_all

lemma tidy_queue_steps:
  "runs tidy (search w env base name query)" "runs tidy (none_outstanding v env base name)" "runs tidy (open_limit w env base)"
  "runs tidy (never_seen w)" "runs tidy (start_holds w env base)" "runs tidy (finish_holds w)" "runs tidy (streams w env base)"
proof -
  show "runs tidy (search w env base name query)" unfolding search_def by (intro tidy_rules tidy_sends)
  show "runs tidy (none_outstanding v env base name)" unfolding none_outstanding_def read_policy_def by (intro tidy_rules)
  show "runs tidy (open_limit w env base)"
    unfolding open_limit_def Let_def by (intro tidied.runs_bind tidied.runs_quiet) (simp add: runs_def tidy_one)
  show "runs tidy (never_seen w)" unfolding never_seen_def by (intro tidy_rules)
  show "runs tidy (start_holds w env base)" unfolding start_holds_def by (intro tidied.runs_bind tidied.runs_each tidied.runs_quiet tidy_sends tidy_did)
  show "runs tidy (finish_holds w)" unfolding finish_holds_def by (intro tidied.runs_bind tidied.runs_each tidied.runs_quiet tidy_log tidy_did) simp_all
  show "runs tidy (streams w env base)"
    unfolding streams_def send_stream_def by (intro tidied.runs_bind tidied.runs_each tidied.runs_quiet tidy_log tidy_sends tidy_run_streams) simp_all
qed

lemma tidy_queue_checks: "runs tidy (queue_checks w env base)"
  unfolding queue_checks_def expire_one_def read_policy_def by (intro tidy_rules tidy_queue_steps)

lemma tidy_queue: "runs tidy (queue_main w)"
  unfolding queue_main_def queue_environment_def demo_environment_def queue_gateway_def
  by (intro tidied.runs_bind tidied.runs_quiet tidied.runs_finally tidy_catalog tidy_free_port tidy_child tidy_log
      tidy_await_ready tidy_queue_checks) simp_all

subsection \<open>Credentials\<close>

definition queue_roles :: "string list" where
  "queue_roles = [''AGENT_TOKEN_1'', ''OTHER_AGENT_TOKEN'', ''INTERACTIVE_TOKEN'']"

fun queue_permitted :: "queue_host \<Rightarrow> (string \<Rightarrow> string) \<Rightarrow> deed \<Rightarrow> bool" where
  "queue_permitted w tok (Started p command env) \<longleftrightarrow> command = binary w ''ai-protocol'' \<and> gateway_roles tok env \<and>
     dget env ''INTERACTIVE_MAX_WAIT_MS'' = Some ''500'' \<and> dget env ''AGENT_MAX_WAIT_MS'' = Some ''10000''"
| "queue_permitted w tok (Asked credential url) \<longleftrightarrow>
     (credential = None \<or> (\<exists>role \<in> set queue_roles. credential = Some (''Bearer '' @ tok role))) \<and>
     (\<exists>port. url = ''http://127.0.0.1:'' @ port @ ''/agent-policy'')"
| "queue_permitted w tok (Called credential url body) \<longleftrightarrow>
     (credential = ''Bearer '' @ tok ''AGENT_TOKEN_1'' \<or> credential = ''Bearer '' @ tok ''INTERACTIVE_TOKEN'') \<and>
     (\<exists>port. url = ''http://127.0.0.1:'' @ port @ ''/search'') \<and> (\<exists>query. body = search_body query)"
| "queue_permitted w tok (Patched credential url body) \<longleftrightarrow>
     credential = ''Bearer '' @ tok ''ADMIN_TOKEN'' \<and>
     (\<exists>port. url = ''http://127.0.0.1:'' @ port @ ''/admin/principals/demo-owner/limits'')"
| "queue_permitted w tok (Handed path credential operation params) = False"
| "queue_permitted w tok (Saved path content) = False"
| "queue_permitted w tok (Ran command env) = False"
| "queue_permitted w tok d = True"

lemma queue_quietly: "quietly (\<lambda>_. queue_permitted w tok)"
  unfolding quietly_def
proof (intro allI impI)
  fix d assume "quiet d"
  then show "queue_permitted w tok d" by (cases d) simp_all
qed

abbreviation queue_runs :: "queue_host \<Rightarrow> (string \<Rightarrow> string) \<Rightarrow> 'a task \<Rightarrow> bool" where
  "queue_runs w tok \<equiv> runs (grows (\<lambda>_. queue_permitted w tok))"

abbreviation loopback :: "string \<Rightarrow> string" where
  "loopback port \<equiv> ''http://127.0.0.1:'' @ port"

lemma queue_did: "queue_runs w tok (\<lambda>h. Some (h @ [Did what], q h))"
  by (simp add: runs_def grows_one)

lemma bearer_known: "gateway_roles tok env \<Longrightarrow> name \<in> set role_names \<Longrightarrow> bearer_of env name = ''Bearer '' @ tok name"
  by (simp add: bearer_of_def token_known)

lemma queue_bearers:
  assumes "gateway_roles tok env"
  shows "bearer_of env ''AGENT_TOKEN_1'' = ''Bearer '' @ tok ''AGENT_TOKEN_1''"
    "bearer_of env ''INTERACTIVE_TOKEN'' = ''Bearer '' @ tok ''INTERACTIVE_TOKEN''"
    "bearer_of env ''OTHER_AGENT_TOKEN'' = ''Bearer '' @ tok ''OTHER_AGENT_TOKEN''"
    "bearer_of env ''ADMIN_TOKEN'' = ''Bearer '' @ tok ''ADMIN_TOKEN''"
  by (rule bearer_known [OF assms], simp add: role_names_def)+

lemma queue_await: "queue_runs w tok (await_ready w (loopback port) p n)"
proof (induction n)
  case (Suc n)
  have s: "queue_runs w tok (sleep w s)" for s by (simp add: runs_def sleep_def grows_one)
  show ?case
    unfolding await_ready.simps
    by (intro grow.runs_bind grow.runs_if grow.runs_quiet grow.runs_except grows_poll grows_request_get queue_quietly s Suc) simp
qed (simp add: grow.runs_quiet)

lemma queue_sends:
  assumes "gateway_roles tok env" "name = ''AGENT_TOKEN_1'' \<or> name = ''INTERACTIVE_TOKEN''"
  shows "queue_runs w tok (send_search env (loopback port) name query)"
  unfolding send_search_def by (rule grows_log) (use assms queue_bearers in auto)

lemma queue_policy:
  assumes "gateway_roles tok env" "name \<in> set queue_roles"
  shows "queue_runs w tok (read_policy w env (loopback port) name)"
proof -
  have "bearer_of env name = ''Bearer '' @ tok name"
    using assms by (intro bearer_known) (auto simp: queue_roles_def role_names_def)
  then show ?thesis
    unfolding read_policy_def by (intro grow.runs_bind grow.runs_quiet grows_request_get) (use assms(2) in auto)
qed

lemma queue_run_streams:
  assumes "gateway_roles tok env"
  shows "queue_runs w tok (run_streams w env (loopback port) waiting completed)"
  by (rule runsI, drule run_streams_deeds, erule grows_weaken)
    (use queue_bearers [OF assms] in \<open>auto simp: stream_deed_def stream_role_def\<close>)

lemma queue_checks_permitted:
  assumes "gateway_roles tok env"
  shows "queue_runs w tok (queue_checks w env (loopback port))"
proof -
  have limit: "queue_runs w tok (open_limit w env (loopback port))"
    unfolding open_limit_def Let_def
    by (intro grow.runs_bind grow.runs_quiet) (use queue_bearers [OF assms] in \<open>simp add: runs_def grows_one\<close>)
  have none: "queue_runs w tok (none_outstanding w env (loopback port) name)" if "name \<in> set queue_roles" for name
    unfolding none_outstanding_def by (intro grow.runs_bind grow.runs_quiet queue_policy assms that)
  have holds: "queue_runs w tok (start_holds w env (loopback port))" "queue_runs w tok (finish_holds w)"
    unfolding start_holds_def finish_holds_def
    by (intro grow.runs_bind grow.runs_each grow.runs_quiet queue_sends grows_log assms queue_did; simp)+
  have expire: "queue_runs w tok (expire_one w env (loopback port))"
    unfolding expire_one_def search_def never_seen_def
    by (intro grow.runs_bind grow.runs_quiet queue_sends none assms) (simp_all add: queue_roles_def)
  have streams: "queue_runs w tok (streams w env (loopback port))"
    unfolding streams_def send_stream_def
    by (intro grow.runs_bind grow.runs_each grow.runs_quiet grows_log queue_sends queue_run_streams assms) (simp_all add: stream_role_def)
  show ?thesis
    unfolding queue_checks_def never_seen_def queue_roles_def [symmetric]
    by (intro grow.runs_bind grow.runs_quiet grow.runs_each limit none holds expire streams queue_policy assms)
      (simp_all add: queue_roles_def)
qed

text \<open>The part of a run inside the catalog's block.\<close>

definition queue_block :: "queue_host \<Rightarrow> int \<Rightarrow> unit task" where
  "queue_block w port =
     tbind (free_port w) (\<lambda>gateway. tbind (give (int_str gateway)) (\<lambda>port_text. tbind (give (int_str port)) (\<lambda>upstream_port.
       queue_gateway w (queue_settings (demo_roles w []) port_text upstream_port) (loopback port_text))))"

lemma queue_main_block: "queue_main w [] = with_catalog w (\<lambda>port. tfinally (queue_block w port) (did ''release_holds.set'')) []"
  by (simp add: queue_main_def queue_environment_def demo_environment_roles queue_block_def [abs_def])

lemma queue_settings_roles:
  "gateway_roles (fresh_token w []) (queue_settings (demo_roles w []) port_text upstream_port)"
  "dget (queue_settings (demo_roles w []) port_text upstream_port) ''INTERACTIVE_MAX_WAIT_MS'' = Some ''500''"
  "dget (queue_settings (demo_roles w []) port_text upstream_port) ''AGENT_MAX_WAIT_MS'' = Some ''10000''"
proof -
  show "gateway_roles (fresh_token w []) (queue_settings (demo_roles w []) port_text upstream_port)"
    by (simp add: gateway_roles_def queue_settings_def demo_roles_def dict_simps dget_tokens) (simp add: role_names_def)
qed (simp_all add: queue_settings_def dict_simps)

lemma queue_block_permitted: "queue_runs w (fresh_token w []) (queue_block w port)"
proof -
  have "queue_runs w (fresh_token w []) (free_port w)"
    by (auto simp: runs_def free_port_def grows.stays grows_one split: sum.splits)
  then show ?thesis
    unfolding queue_block_def queue_gateway_def
    by (intro grow.runs_bind grow.runs_quiet grows_child grow.runs_finally grows_log queue_quietly queue_await
        queue_checks_permitted queue_settings_roles(1))
      (simp_all add: queue_settings_roles)
qed

end
