(* ===== verification/Queue_Success.thy ===== *)
theory Queue_Success
  imports Queue_Props "HOL-Library.Sublist"
begin

text \<open>
  What a returning queue demonstration has seen: which requests were sent, which of them the catalog saw,
  and how the one that expired was answered.
\<close>

subsection \<open>Steps that send no request\<close>

abbreviation silent :: "history \<Rightarrow> history \<Rightarrow> bool" where
  "silent \<equiv> grows (\<lambda>_ d. searched_in d = [])"

lemma silent_searched: "silent h g \<Longrightarrow> searched g = searched h"
  by (induction rule: grows.induct) (simp_all add: searched_simps)

lemma silent_quietly: "quietly (\<lambda>_ d. searched_in d = [])"
  unfolding quietly_def
proof (intro allI impI)
  fix d assume "quiet d"
  then show "searched_in d = []" by (cases d) simp_all
qed

lemma silent_steps:
  "runs silent (free_port w)" "runs silent (read_policy w env base name)" "runs silent (none_outstanding w env base name)"
  "runs silent (never_seen v)" "runs silent (finish_holds v)" "runs silent (await_ready w base p n)" "runs silent (open_limit v env base)"
  "runs silent (\<lambda>h. Some (h @ [Did what], q h))"
proof -
  show d: "runs silent (\<lambda>h. Some (h @ [Did what], q h))" for what and q :: "history \<Rightarrow> 'c result"
    by (simp add: runs_def grows_one)
  have l: "runs silent (\<lambda>h. Some (h @ [Did what], q h))" for what and q :: "history \<Rightarrow> response list result"
    by (simp add: runs_def grows_one)
  show "runs silent (free_port w)" by (auto simp: runs_def free_port_def grows.stays grows_one split: sum.splits)
  show p: "runs silent (read_policy w env base name)" for env base name
    unfolding read_policy_def by (intro grow.runs_bind grow.runs_quiet grows_request_get) simp
  show "runs silent (none_outstanding w env base name)"
    unfolding none_outstanding_def by (intro grow.runs_bind grow.runs_quiet p)
  show "runs silent (never_seen v)" unfolding never_seen_def by (intro grow.runs_bind grow.runs_quiet)
  show "runs silent (finish_holds v)"
    unfolding finish_holds_def by (intro grow.runs_bind grow.runs_each grow.runs_quiet grows_log l) simp
  show "runs silent (open_limit v env base)"
    unfolding open_limit_def Let_def by (intro grow.runs_bind grow.runs_quiet) (simp add: runs_def grows_one)
  show "runs silent (await_ready w base p n)"
  proof (induction n)
    case (Suc n)
    have "runs silent (sleep w s)" for s by (simp add: runs_def sleep_def grows_one)
    then show ?case
      unfolding await_ready.simps
      by (intro grow.runs_bind grow.runs_if grow.runs_quiet grow.runs_except grows_poll grows_request_get silent_quietly Suc) simp_all
  qed (simp add: grow.runs_quiet)
qed

lemma mset_around: "mset s = mset (xs @ [x] @ ys) \<Longrightarrow> set s = insert x (set (xs @ ys))"
  by (metis Un_insert_right append_Cons append_Nil list.simps(15) mset_eq_setD set_append)

subsection \<open>Stages\<close>

text \<open>The request that expired was answered as such, and the catalog had not seen it.\<close>

definition expired_unseen :: "queue_host \<Rightarrow> bool" where
  "expired_unseen w \<longleftrightarrow>
     (\<exists>h credential response body. post_answer w h credential (search_body forbidden_query) = Inr response \<and>
        status_code response = 503 \<and> response_json response = Inr body \<and> py_eq body queue_timeout \<and>
        retry_after response = Some ''1'' \<and> forbidden_query \<notin> set (seen_queries w h))"

definition idle :: "'w host_scheme \<Rightarrow> (string, string) dict \<Rightarrow> string \<Rightarrow> string \<Rightarrow> bool" where
  "idle w env base name \<longleftrightarrow>
     (\<exists>h response policy. fetch w h (Some (bearer_of env name)) (base @ ''/agent-policy'') = Inr response \<and>
        is_success response \<and> response_json response = Inr policy \<and> field_is policy ''outstanding'' (JInt 0) = Inr True)"

lemma none_outstanding_Inr: "none_outstanding w env base name h = Some (g, Inr u) \<Longrightarrow> idle w env base name"
  unfolding none_outstanding_def read_policy_def idle_def request_get_def
  by (auto simp: bind_Inr give_Inr check_Inr raise_for_status_def split: if_splits)

lemma never_seen_Inr: "never_seen w h = Some (g, Inr u) \<longleftrightarrow> forbidden_query \<notin> set (seen_queries w h) \<and> g = h"
  by (auto simp: never_seen_def ask_bind check_Inr)

lemma teach_searched:
  assumes "\<And>x h g. f x h = Some (g, Inr ()) \<Longrightarrow> searched g = searched h @ q x"
  shows "teach f xs h = Some (g, Inr ()) \<Longrightarrow> searched g = searched h @ concat (map q xs)"
proof (induction xs arbitrary: h)
  case (Cons x xs)
  then obtain k where "f x h = Some (k, Inr ())" "teach f xs k = Some (g, Inr ())" by (auto simp: bind_Inr)
  with Cons.IH assms show ?case by simp
qed (simp add: give_Inr)

lemma send_searched: "send_search env base name query h = Some (g, Inr u) \<Longrightarrow> searched g = searched h @ [query]"
  by (auto simp: send_search_out searched_simps searched_send)

lemma start_holds_Inr:
  assumes "start_holds w env base h = Some (g, Inr u)"
  shows "searched g = searched h @ map hold_query [0 ..< 10]"
proof -
  obtain k where k: "teach (\<lambda>index. send_search env base ''AGENT_TOKEN_1'' (hold_query index)) [0 ..< 10] h = Some (k, Inr ())"
    and a: "teach (\<lambda>_. tbind (\<lambda>h. Some (h @ [Did ''holds_started.acquire''], Inr (hold_started w h))) (\<lambda>acquired. check acquired []))
       [0 ..< 10] k = Some (g, Inr u)"
    using assms unfolding start_holds_def bind_Inr by auto
  have "searched k = searched h @ concat (map (\<lambda>i. [hold_query i]) [0 ..< 10])"
    by (rule teach_searched [OF _ k]) (rule send_searched)
  moreover have "runs silent (tbind (\<lambda>h. Some (h @ [Did ''holds_started.acquire''], Inr (hold_started w h))) (\<lambda>acquired. check acquired []))"
    by (intro grow.runs_bind grow.runs_quiet silent_steps)
  then have "runs silent (teach (\<lambda>_. tbind (\<lambda>h. Some (h @ [Did ''holds_started.acquire''], Inr (hold_started w h)))
      (\<lambda>acquired. check acquired [])) [0 ..< 10])" by (rule grow.runs_each)
  from silent_searched [OF runsD [OF this a]] have "searched g = searched k" .
  ultimately show ?thesis by simp
qed

lemma expire_one_Inr:
  assumes "expire_one w env base h = Some (g, Inr u)"
  shows "expired_unseen w \<and> searched g = searched h @ [forbidden_query]"
proof -
  let ?h = "h @ [Called (bearer_of env ''INTERACTIVE_TOKEN'') (base @ ''/search'') (search_body forbidden_query)]"
  obtain response body where r: "post_answer w ?h (bearer_of env ''INTERACTIVE_TOKEN'') (search_body forbidden_query) = Inr response"
    "status_code response = 503" "response_json response = Inr body" "py_eq body queue_timeout" "retry_header response = Inr ''1''"
    "never_seen w ?h = Some (?h, Inr ())" "none_outstanding w env base ''INTERACTIVE_TOKEN'' ?h = Some (g, Inr u)"
    using assms unfolding expire_one_def search_def
    by (auto simp: bind_Inr give_Inr check_Inr ask_def send_search_out never_seen_Inr)
  have "retry_after response = Some ''1''" using r(5) by (simp add: retry_header_def split: option.splits)
  with r(1-4,6) have "expired_unseen w" unfolding expired_unseen_def never_seen_Inr by blast
  moreover have "searched g = searched ?h" using silent_searched [OF runsD [OF silent_steps(3) r(7)]] .
  ultimately show ?thesis by (simp add: searched_simps searched_send)
qed

lemma streams_Inr:
  assumes "streams w env base h = Some (g, Inr u)"
  shows "mset (searched g) = mset (searched h) + mset stream_queries"
proof -
  let ?h = "h @ [Did ''pace_completions.start'']"
  let ?run = "\<lambda>_. run_streams w env base first_streams (0, 0)"
  let ?k = "map (\<lambda>s. Called (bearer_of env (stream_role s)) (base @ ''/search'') (search_body (stream_query s))) first_streams"
  from assms obtain i completed where i: "run_streams w env base first_streams (0, 0) (?h @ ?k) = Some (i, Inr completed)" "g = i"
    unfolding streams_def log_bind sum.case bind_Inr teach_send check_Inr by auto
  from run_streams_balanced [OF first_balanced, of w env base ?h] obtain j r where
    j: "run_streams w env base first_streams (0, 0) (?h @ ?k) = Some (?h @ ?k @ j, r)"
    "\<forall>x. r = Inr x \<longrightarrow> mset (searched (?k @ j)) = mset stream_queries \<and> x = (80, 120)" by blast
  from i j(1) have "g = ?h @ ?k @ j" "r = Inr completed" by auto
  with j(2) have "g = ?h @ ?k @ j" "mset (searched (?k @ j)) = mset stream_queries" by blast+
  then show ?thesis by (simp add: searched_simps)
qed

lemma queue_checks_Inr:
  assumes "queue_checks w env base h = Some (g, Inr u)"
  shows "mset (searched g) = mset (searched h) + mset (map hold_query [0 ..< 10] @ [forbidden_query] @ stream_queries) \<and>
    expired_unseen w \<and> (\<forall>name \<in> set queue_roles. idle w env base name) \<and>
    forbidden_query \<notin> set (seen_queries w g) \<and> card (set (seen_queries w g)) = 210"
proof -
  obtain a b c d e f m v where s: "open_limit w env base h = Some (a, Inr ())"
    "read_policy w env base ''INTERACTIVE_TOKEN'' a = Some (b, Inr v)" "start_holds w env base b = Some (c, Inr ())"
    "expire_one w env base c = Some (d, Inr ())" "finish_holds w d = Some (e, Inr ())" "streams w env base e = Some (f, Inr ())"
    and o: "teach (none_outstanding w env base) queue_roles f = Some (m, Inr ())"
    and n: "forbidden_query \<notin> set (seen_queries w m)" "length (remdups (seen_queries w m)) = 210" "g = m"
    using assms unfolding queue_checks_def queue_roles_def [symmetric]
    by (auto simp: bind_Inr give_Inr check_Inr never_seen_Inr ask_def)
  have "searched b = searched h"
    using silent_searched [OF runsD [OF silent_steps(7) s(1)]] silent_searched [OF runsD [OF silent_steps(2) s(2)]] by simp
  then have "searched d = searched h @ map hold_query [0 ..< 10] @ [forbidden_query]"
    using start_holds_Inr [OF s(3)] expire_one_Inr [OF s(4)] by simp
  then have "searched e = searched h @ map hold_query [0 ..< 10] @ [forbidden_query]"
    using silent_searched [OF runsD [OF silent_steps(5) s(5)]] by simp
  then have f: "mset (searched f) = mset (searched h) + mset (map hold_query [0 ..< 10] @ [forbidden_query] @ stream_queries)"
    using streams_Inr [OF s(6)] by simp
  have "searched m = searched f"
    using silent_searched [OF runsD [OF grow.runs_each o]] silent_steps(3) by blast
  moreover have "\<forall>name \<in> set queue_roles. idle w env base name"
    using o unfolding queue_roles_def by (auto simp: bind_Inr dest: none_outstanding_Inr)
  moreover have "card (set (seen_queries w m)) = 210" using n(2) by (simp add: length_remdups_card_conv)
  ultimately show ?thesis using f n expire_one_Inr [OF s(4)] by simp
qed

lemma queue_run:
  assumes "queue_main w [] = Some (g, Inr ())"
  obtains env base i k where "gateway_roles (fresh_token w []) env" "searched i = []" "queue_checks w env base i = Some (k, Inr ())"
    "prefix k g" "searched g = searched k"
  using assms [unfolded queue_main_block]
proof (cases rule: catalog_shape)
  case (bound port l)
  let ?h = "[Bound_port port, Did ''catalog.serve_forever'']"
  from bound(2) obtain q where q: "queue_block w port ?h = Some (q, Inr ())" "l = q @ [Did ''release_holds.set'']"
    by (auto simp: finally_did)
  from q(1) obtain a gateway port_text upstream_port where f: "free_port w ?h = Some (a, Inr gateway)"
    and m: "queue_gateway w (queue_settings (demo_roles w []) port_text upstream_port) (loopback port_text) a = Some (q, Inr ())"
    unfolding queue_block_def bind_Inr give_Inr by auto
  let ?env = "queue_settings (demo_roles w []) port_text upstream_port" and ?base = "loopback port_text"
  let ?p = "started_in a" and ?a = "a @ [Started (started_in a) (binary w ''ai-protocol'') (queue_settings (demo_roles w []) port_text upstream_port)]"
  from m obtain b where b: "tfinally (tbind (await_ready w ?base ?p 100) (\<lambda>_. queue_checks w ?env ?base)) (did ''http.aclose'') ?a = Some (b, Inr ())"
    "stop_child w SIGTERM ?p b = Some (q, Inr ())"
    unfolding queue_gateway_def child_def bind_Inr spawn_Inr by (elim exE conjE) (drule finally_Inr, auto)
  from b(1) obtain k where k: "tbind (await_ready w ?base ?p 100) (\<lambda>_. queue_checks w ?env ?base) ?a = Some (k, Inr ())"
    "b = k @ [Did ''http.aclose'']" by (auto simp: finally_did)
  from k(1) obtain i where i: "await_ready w ?base ?p 100 ?a = Some (i, Inr ())" "queue_checks w ?env ?base i = Some (k, Inr ())"
    by (auto simp: bind_Inr)
  have "searched i = []"
    using silent_searched [OF runsD [OF silent_steps(6) i(1)]] silent_searched [OF runsD [OF silent_steps(1) f]] by (simp add: searched_simps)
  moreover have s: "silent b q" using grows_stop_child [OF silent_quietly] b(2) by (rule runsD)
  have "prefix k g" using grows_extends [OF s] k(2) q(2) bound(3) by (auto simp: prefix_def)
  moreover have "searched g = searched k"
    using silent_searched [OF s] k(2) q(2) bound(3) by (simp add: searched_simps catalog_closed_def)
  ultimately show thesis using that queue_settings_roles(1) i(2) by blast
qed simp

subsection \<open>A sample run\<close>

definition ok_answer :: response where
  "ok_answer = \<lparr>status_code = 200, resp_json = None, retry_after = None\<rparr>"

definition sample_queue :: queue_host where
  "sample_queue =
     \<lparr>variables = [(''PATH'', ''/bin''), (''OPENAI_API_KEY'', ''k'')], interpreter = ''python'', root_dir = ''/r'',
      private_dir = (\<lambda>_. ''/tmp/p''), fresh_token = (\<lambda>_ name. name), bind_any = (\<lambda>h. Inr (if h = [] then 1 else 2)),
      popen = (\<lambda>_ _. Inr ()), os_status = (\<lambda>_ _. None), os_wait = (\<lambda>_ _ _. Some 0), os_reap = (\<lambda>_ _. Some 0),
      clock = (\<lambda>_. 0), nap = (\<lambda>_. Inr ()),
      fetch = (\<lambda>_ credential _. Inr (if credential = None then \<lparr>status_code = 401, resp_json = None, retry_after = None\<rparr>
        else \<lparr>status_code = 200,
          resp_json = Some (JDict [(''outstanding'', JInt 0), (''queue'', JDict [(''max_wait_ms'', JInt 500)])]), retry_after = None\<rparr>)),
      path_exists = (\<lambda>_ _. True), save = (\<lambda>_ _. Inr ()),
      hold_started = (\<lambda>_. True), seen_queries = (\<lambda>h. filter (\<lambda>q. q \<noteq> forbidden_query) (searched h)),
      post_answer = (\<lambda>_ _ _. Inr \<lparr>status_code = 503, resp_json = Some queue_timeout, retry_after = Some ''1''\<rparr>),
      limit_answer = (\<lambda>_ _ _. Inr ok_answer), hold_answers = (\<lambda>_. Inr (replicate 10 ok_answer)), next_stream = (\<lambda>_ _. 0),
      stream_answer = (\<lambda>_ _. Inr ok_answer), streams_expired = (\<lambda>_. False)\<rparr>"

text \<open>The two hundred and ten requests differ.\<close>

lemma short_numbers: "distinct (map nat_str [0 ..< 12])" "n < 10 \<Longrightarrow> length (nat_str n) = 1"
  by (simp_all add: upt_rec nat_str.simps)

lemma stream_parts:
  assumes "s \<in> set all_streams"
  shows "(kind_of s = ''interactive'' \<or> kind_of s = ''agent'') \<and> worker_of s < 12 \<and> number_of s < 10"
  using assms unfolding all_streams_def first_streams_def future_def by auto

lemma stream_query_inj: "inj_on stream_query (set all_streams)"
proof (rule inj_onI)
  fix s t assume s: "s \<in> set all_streams" and t: "t \<in> set all_streams" and e: "stream_query s = stream_query t"
  have k: "kind_of s = kind_of t" using stream_parts [OF s] stream_parts [OF t] e unfolding stream_query_def by auto
  have one: "length (nat_str (number_of s)) = 1" "length (nat_str (number_of t)) = 1"
    using stream_parts [OF s] stream_parts [OF t] short_numbers(2) by simp_all
  from e k have "(nat_str (worker_of s) @ ''-'') @ nat_str (number_of s) = (nat_str (worker_of t) @ ''-'') @ nat_str (number_of t)"
    unfolding stream_query_def by simp
  then have n: "nat_str (worker_of s) = nat_str (worker_of t)" "nat_str (number_of s) = nat_str (number_of t)"
    using one by (simp_all add: append_eq_append_conv)
  have "inj_on nat_str {0 ..< 12}" using short_numbers(1) by (simp add: distinct_map)
  then have "worker_of s = worker_of t" "number_of s = number_of t"
    using n stream_parts [OF s] stream_parts [OF t] by (auto dest: inj_onD)
  with k show "s = t" by (cases s; cases t) simp
qed

lemma streams_distinct: "distinct all_streams"
  unfolding all_streams_def
proof (rule distinct_concat)
  have p: "kind_of t = kind_of s \<and> worker_of t = worker_of s" if "t \<in> set (s # future s)" for s t
    using that by (auto simp: future_def)
  have z: "number_of s = 0" if "s \<in> set first_streams" for s using that by (auto simp: first_streams_def)
  have "distinct first_streams" by (auto simp: first_streams_def distinct_map inj_on_def)
  then show "distinct (map (\<lambda>s. s # future s) first_streams)" by (simp add: distinct_map inj_on_def)
  show "distinct ys" if "ys \<in> set (map (\<lambda>s. s # future s) first_streams)" for ys
    using that by (auto simp: future_def distinct_map inj_on_def dest!: z) (drule arg_cong [of _ _ number_of], simp)
  show "set ys \<inter> set zs = {}" if "ys \<in> set (map (\<lambda>s. s # future s) first_streams)"
    "zs \<in> set (map (\<lambda>s. s # future s) first_streams)" "ys \<noteq> zs" for ys zs
  proof (rule ccontr)
    assume "set ys \<inter> set zs \<noteq> {}"
    then obtain t where t: "t \<in> set ys" "t \<in> set zs" by blast
    from that obtain s s' where s: "s \<in> set first_streams" "ys = s # future s" "s' \<in> set first_streams" "zs = s' # future s'" by auto
    have "kind_of s = kind_of s'" "worker_of s = worker_of s'" using p [of t s] p [of t s'] t s(2,4) by auto
    with z [OF s(1)] z [OF s(3)] have "s = s'" by (cases s; cases s') simp
    with s(2,4) that(3) show False by simp
  qed
qed

lemma all_distinct: "distinct (map hold_query [0 ..< 10] @ stream_queries)" "forbidden_query \<notin> set (map hold_query [0 ..< 10] @ stream_queries)"
  "length (map hold_query [0 ..< 10] @ stream_queries) = 210"
proof -
  have d: "distinct (map hold_query [0 ..< 10])" "length all_streams = 200" by code_simp+
  have q: "hd q = CHR ''i'' \<or> hd q = CHR ''a''" if "q \<in> set stream_queries" for q
    using that stream_parts unfolding stream_queries_def stream_query_def by fastforce
  have h: "hd q = CHR ''h''" if "q \<in> set (map hold_query [0 ..< 10])" for q
    using that by (auto simp: hold_query_def)
  have "distinct stream_queries" unfolding stream_queries_def by (simp add: distinct_map streams_distinct stream_query_inj)
  moreover have "set (map hold_query [0 ..< 10]) \<inter> set stream_queries = {}" using q h by fastforce
  ultimately show "distinct (map hold_query [0 ..< 10] @ stream_queries)" using d(1) by simp
  have "hd forbidden_query = CHR ''m''" by (simp add: forbidden_query_def)
  then show "forbidden_query \<notin> set (map hold_query [0 ..< 10] @ stream_queries)" using q h by fastforce
  show "length (map hold_query [0 ..< 10] @ stream_queries) = 210" using d(2) by (simp add: stream_queries_def)
qed

text \<open>Stages that always return.\<close>

definition fine :: "'a task \<Rightarrow> 'a \<Rightarrow> bool" where
  "fine m x \<longleftrightarrow> (\<forall>h. \<exists>k. m h = Some (k, Inr x))"

lemma fineI: "(\<And>h. \<exists>k. m h = Some (k, Inr x)) \<Longrightarrow> fine m x"
  by (simp add: fine_def)

lemma fine_bind: "fine m x \<Longrightarrow> fine (f x) y \<Longrightarrow> fine (tbind m f) y"
  unfolding fine_def tbind_def by (metis (no_types, lifting) case_prod_conv option.simps(5) sum.simps(6))

lemma fine_give: "r = Inr x \<Longrightarrow> fine (give r) x"
  by (simp add: fine_def give_def)

lemma fine_check: "b \<Longrightarrow> fine (check b message) ()"
  by (simp add: fine_def check_def give_def)

lemma fine_one: "(\<And>h. q h = Inr x) \<Longrightarrow> fine (\<lambda>h. Some (h @ [d], q h)) x"
  by (simp add: fine_def)

lemma fine_each: "(\<And>x. x \<in> set xs \<Longrightarrow> fine (f x) ()) \<Longrightarrow> fine (teach f xs) ()"
proof (induction xs)
  case (Cons x xs)
  then show ?case by (auto intro: fine_bind)
qed (simp add: fine_give)

lemma sample_answered: "answered_stream sample_queue s h = Some (h @ [Did (stream_query s)], Inr ())"
  by (simp add: answered_stream_def tbind_def give_def sample_queue_def ok_answer_def)

lemma sample_streams_return: "\<exists>k x. run_streams sample_queue env base waiting completed h = Some (k, Inr x)"
proof (induction "remaining waiting" arbitrary: waiting completed h rule: less_induct)
  case less
  show ?case
  proof (cases "waiting = []")
    case True
    then show ?thesis by (subst run_streams.simps) simp
  next
    case False
    have e: "\<not> streams_expired sample_queue h" by (simp add: sample_queue_def)
    let ?i = "next_stream sample_queue h (length waiting) mod length waiting"
    let ?s = "waiting ! ?i" and ?h = "h @ [Did (stream_query (waiting ! (next_stream sample_queue h (length waiting) mod length waiting)))]"
    have i: "?i < length waiting" using False by simp
    show ?thesis
    proof (cases "next_request ?s")
      case None
      from less [OF remaining_step(1) [OF i], of "count_one ?s completed" ?h] False e None show ?thesis
        by (subst run_streams.simps) (simp add: Let_def sample_answered)
    next
      case (Some s)
      obtain k where k: "send_stream env base s ?h = Some (k, Inr ())" by (simp add: send_stream_def send_search_out)
      from less [OF remaining_step(2) [OF i Some], of "count_one ?s completed" k] False e Some k show ?thesis
        by (subst run_streams.simps) (simp add: Let_def sample_answered)
    qed
  qed
qed

lemma sample_streams: "fine (streams sample_queue env base) ()"
proof (rule fineI)
  fix h
  let ?h = "h @ [Did ''pace_completions.start'']"
  let ?k = "map (\<lambda>s. Called (bearer_of env (stream_role s)) (base @ ''/search'') (search_body (stream_query s))) first_streams"
  obtain j r where j: "run_streams sample_queue env base first_streams (0, 0) (?h @ ?k) = Some (?h @ ?k @ j, r)"
    "\<forall>x. r = Inr x \<longrightarrow> x = (80, 120)"
    using run_streams_balanced [OF first_balanced, of sample_queue env base ?h] by blast
  from sample_streams_return [of env base first_streams "(0, 0)" "?h @ ?k"] j(1) obtain x where "r = Inr x" by auto
  with j have "run_streams sample_queue env base first_streams (0, 0) (?h @ ?k) = Some (?h @ ?k @ j, Inr (80, 120))" by simp
  then have "streams sample_queue env base h = Some (?h @ ?k @ j, Inr ())"
    unfolding streams_def log_bind sum.case by (simp add: tbind_def teach_send check_def give_def)
  then show "\<exists>k. streams sample_queue env base h = Some (k, Inr ())" by blast
qed

abbreviation idle_policy :: json where
  "idle_policy \<equiv> JDict [(''outstanding'', JInt 0), (''queue'', JDict [(''max_wait_ms'', JInt 500)])]"

lemma sample_queue_stages:
  "fine (open_limit sample_queue env base) ()"
  "fine (read_policy sample_queue env base name) idle_policy"
  "fine (none_outstanding sample_queue env base name) ()"
  "fine (start_holds sample_queue env base) ()" "fine (finish_holds sample_queue) ()"
  "fine (never_seen sample_queue) ()"
proof -
  show "fine (open_limit sample_queue env base) ()"
    unfolding open_limit_def Let_def
    by (rule fineI) (simp add: tbind_def give_def sample_queue_def ok_answer_def raise_for_status_def is_success_def)
  show p: "fine (read_policy sample_queue env base name) idle_policy" for name
    unfolding read_policy_def request_get_def
    by (rule fineI) (simp add: tbind_def give_def sample_queue_def raise_for_status_def is_success_def response_json_def)
  have f: "field_is idle_policy ''outstanding'' (JInt 0) = Inr True" by (simp add: field_is_def num_eq_def)
  show n: "fine (none_outstanding sample_queue env base name) ()"
    unfolding none_outstanding_def
    by (rule fine_bind [OF p], rule fine_bind, rule fine_give, rule f, rule fine_check, rule TrueI)
  have s: "fine (send_search env base name query) ()" for name query by (simp add: fine_def send_search_out)
  show "fine (start_holds sample_queue env base) ()"
    unfolding start_holds_def
    by (rule fine_bind, rule fine_each, rule s, rule fine_each, rule fineI)
      (simp add: tbind_def check_def give_def sample_queue_def)
  show "fine (finish_holds sample_queue) ()"
    unfolding finish_holds_def
    by (rule fine_bind, simp add: fine_def log_def, rule fine_bind, rule fine_one, simp add: sample_queue_def,
        rule fine_each, rule fine_check) (auto simp: ok_answer_def)
  show "fine (never_seen sample_queue) ()"
    by (simp add: fine_def never_seen_def ask_bind check_def give_def sample_queue_def)
qed

lemma sample_expire: "fine (expire_one sample_queue env base) ()"
proof -
  let ?r = "\<lparr>status_code = 503, resp_json = Some queue_timeout, retry_after = Some ''1''\<rparr> :: response"
  have s: "fine (search sample_queue env base name query) ?r" for name query
    by (rule fineI) (simp add: search_def tbind_def send_search_out ask_def sample_queue_def)
  have e: "py_eq queue_timeout queue_timeout" by (simp add: queue_timeout_def)
  show ?thesis
    unfolding expire_one_def
    by (rule fine_bind [OF s], rule fine_bind, rule fine_check, simp, rule fine_bind [where x = queue_timeout], rule fine_give, simp add: response_json_def,
        rule fine_bind, rule fine_check, rule e, rule fine_bind [where x = "''1''"], rule fine_give, simp add: retry_header_def,
        rule fine_bind, rule fine_check, rule refl, rule fine_bind, rule sample_queue_stages(6), rule sample_queue_stages(3))
qed

lemma sample_checks:
  assumes "searched h = []"
  shows "\<exists>k. queue_checks sample_queue env base h = Some (k, Inr ())"
proof -
  let ?n = "none_outstanding sample_queue env base"
  let ?last = "tbind (never_seen sample_queue) (\<lambda>_. tbind (ask (\<lambda>h. Inr (seen_queries sample_queue h)))
      (\<lambda>seen. check (length (remdups seen) = 210) []))"
  obtain a where a: "open_limit sample_queue env base h = Some (a, Inr ())"
    using sample_queue_stages(1) unfolding fine_def by blast
  obtain b where b: "read_policy sample_queue env base ''INTERACTIVE_TOKEN'' a = Some (b, Inr idle_policy)"
    using sample_queue_stages(2) unfolding fine_def by blast
  obtain c where c: "start_holds sample_queue env base b = Some (c, Inr ())" using sample_queue_stages(4) unfolding fine_def by blast
  obtain d where d: "expire_one sample_queue env base c = Some (d, Inr ())" using sample_expire unfolding fine_def by blast
  obtain e where e: "finish_holds sample_queue d = Some (e, Inr ())" using sample_queue_stages(5) unfolding fine_def by blast
  obtain f where f: "streams sample_queue env base e = Some (f, Inr ())" using sample_streams unfolding fine_def by blast
  have "fine (teach ?n queue_roles) ()" by (rule fine_each, rule sample_queue_stages(3))
  then obtain m where m: "teach ?n queue_roles f = Some (m, Inr ())" unfolding fine_def by blast
  have "searched b = []"
    using assms silent_searched [OF runsD [OF silent_steps(7) a]] silent_searched [OF runsD [OF silent_steps(2) b]] by simp
  then have "searched e = map hold_query [0 ..< 10] @ [forbidden_query]"
    using start_holds_Inr [OF c] expire_one_Inr [OF d] silent_searched [OF runsD [OF silent_steps(5) e]] by simp
  moreover have "runs silent (teach ?n queue_roles)" by (rule grow.runs_each, rule silent_steps(3))
  from silent_searched [OF runsD [OF this m]] have "searched m = searched f" .
  ultimately have s: "mset (searched m) = mset (map hold_query [0 ..< 10] @ [forbidden_query] @ stream_queries)"
    using streams_Inr [OF f] by simp
  have "set (seen_queries sample_queue m) = set (searched m) - {forbidden_query}" by (auto simp: sample_queue_def)
  also have "\<dots> = set (map hold_query [0 ..< 10] @ stream_queries)"
    unfolding mset_around [OF s] by (rule Diff_insert_absorb [OF all_distinct(2)])
  finally have "set (seen_queries sample_queue m) = set (map hold_query [0 ..< 10] @ stream_queries)" .
  then have "card (set (seen_queries sample_queue m)) = 210"
    using distinct_card [OF all_distinct(1)] all_distinct(3) by simp
  then have "length (remdups (seen_queries sample_queue m)) = 210" by (simp add: length_remdups_card_conv)
  moreover have "never_seen sample_queue m = Some (m, Inr ())" by (simp add: never_seen_Inr) (simp add: sample_queue_def)
  ultimately have "?last m = Some (m, Inr ())" by (simp add: tbind_def ask_def check_def give_def)
  moreover have "rbind (subscript idle_policy ''queue'') (\<lambda>q. field_is q ''max_wait_ms'' (JInt 500)) = Inr True"
    by (simp add: field_is_def num_eq_def)
  ultimately show ?thesis
    using a b c d e f m unfolding queue_checks_def queue_roles_def [symmetric]
    by (simp add: tbind_def give_def check_def)
qed

lemma sample_queue_stop: "\<exists>k. stop_child sample_queue s p h = Some (k, Inr ())"
  by (simp add: stop_child_def send_signal_def wait_for_def poll_def tbind_def texcept_def log_def give_def Let_def
      sample_queue_def split: option.split)

lemma sample_queue_run: "\<exists>g. queue_main sample_queue [] = Some (g, Inr ())"
proof -
  let ?env = "queue_settings (demo_roles sample_queue []) ''2'' ''1''" and ?base = "''http://127.0.0.1:2''"
  let ?h = "[Bound_port 1, Did ''catalog.serve_forever'', Bound_port 2]"
  let ?a = "?h @ [Started 0 (binary sample_queue ''ai-protocol'') ?env]"
  let ?i = "?a @ [Polled 0 None, Asked None (?base @ ''/agent-policy'')]"
  have n: "(100 :: nat) = Suc 99" by simp
  have ready: "await_ready sample_queue ?base 0 100 ?a = Some (?i, Inr ())"
    unfolding n await_ready.simps
    by (simp add: tbind_def poll_def Let_def give_def texcept_def request_get_def sample_queue_def)
  obtain k where k: "queue_checks sample_queue ?env ?base ?i = Some (k, Inr ())"
    using sample_checks [of ?i ?env ?base] by (auto simp: searched_def)
  obtain m where m: "stop_child sample_queue SIGTERM 0 (k @ [Did ''http.aclose'']) = Some (m, Inr ())"
    using sample_queue_stop by blast
  have "popen sample_queue h c = Inr ()" for h c by (simp add: sample_queue_def)
  with ready k m have gateway: "queue_gateway sample_queue ?env ?base ?h = Some (m, Inr ())"
    by (simp add: queue_gateway_def child_def tbind_def spawn_def tfinally_def log_def)
  have ports: "free_port sample_queue [] = Some ([Bound_port 1], Inr 1)"
    "free_port sample_queue [Bound_port 1, Did ''catalog.serve_forever''] = Some (?h, Inr 2)"
    by (simp_all add: free_port_def sample_queue_def)
  have digits: "int_str 2 = Inr ''2''" "int_str 1 = Inr ''1''" by code_simp+
  have "queue_block sample_queue 1 [Bound_port 1, Did ''catalog.serve_forever''] = Some (m, Inr ())"
    using gateway by (simp add: queue_block_def tbind_def ports give_def digits)
  then show ?thesis by (simp add: queue_main_block with_catalog_def tbind_def ports tfinally_def log_def)
qed

end
