(* ===== verification/Queue_Results.thy ===== *)
theory Queue_Results
  imports Queue_Success
begin

text \<open>
  The properties of \<^verbatim>\<open>examples/queue_demo.py\<close>. The first holds for every order in which the gateway
  answers; the other two are applied to the sample run.
\<close>



text \<open>
  The queue demonstration leaves nothing behind and spreads no credential: however it ends,
  the gateway has been seen to end and was signalled only while it was running; the held
  requests were released before the catalog was closed, which is the last thing; the gateway is
  the only process and was started with its wait bounds; the policy was read and the catalog
  searched with an agent or the interactive token only, the administration token was sent only with
  the limit change, and every request went to the loopback interface.
\<close>

theorem queue_contained:
  assumes "queue_main w [] = Some (g, r)"
  shows "(\<forall>p < started_in g. returncode g p \<noteq> None) \<and>
    (\<forall>before p s after. g = before @ Signalled p s # after \<longrightarrow> p < started_in before \<and> returncode before p = None) \<and>
    (g \<noteq> [] \<longrightarrow> (\<exists>k. g = k @ Did ''release_holds.set'' # catalog_closed)) \<and>
    (\<forall>x \<in> set g. queue_permitted w (fresh_token w []) x)"
proof (intro conjI)
  have t: "tidy [] g" using tidy_queue assms by (rule runsD)
  then show "\<forall>p < started_in g. returncode g p \<noteq> None" by (simp add: tidy_def)
  show "\<forall>before p s after. g = before @ Signalled p s # after \<longrightarrow> p < started_in before \<and> returncode before p = None"
    using t grows_each [of signal_owned "[]" g] unfolding tidy_def by fastforce
  from assms [unfolded queue_main_block]
  have "(g \<noteq> [] \<longrightarrow> (\<exists>k. g = k @ Did ''release_holds.set'' # catalog_closed)) \<and>
    (\<forall>x \<in> set g. queue_permitted w (fresh_token w []) x)"
  proof (cases rule: catalog_shape)
    case (bound port k)
    have "queue_runs w (fresh_token w []) (tfinally (queue_block w port) (did ''release_holds.set''))"
      by (intro grow.runs_finally queue_block_permitted grows_log) simp
    from grows_permitted [OF this bound(2)] have "\<forall>x \<in> set k. queue_permitted w (fresh_token w []) x" by auto
    moreover obtain i where "k = i @ [Did ''release_holds.set'']" using bound(2) by (auto simp: finally_did)
    then have "g = i @ Did ''release_holds.set'' # catalog_closed" using bound(3) by simp
    ultimately show ?thesis using bound(3) by (auto simp: catalog_closed_def)
  qed simp
  then show "g \<noteq> [] \<longrightarrow> (\<exists>k. g = k @ Did ''release_holds.set'' # catalog_closed)"
    "\<forall>x \<in> set g. queue_permitted w (fresh_token w []) x" by simp_all
qed

theorem queue_contained_witness:
  "\<exists>g. queue_main sample_queue [] = Some (g, Inr ()) \<and> (\<forall>p < started_in g. returncode g p \<noteq> None) \<and>
     (\<forall>x \<in> set g. queue_permitted sample_queue (fresh_token sample_queue []) x)"
  using sample_queue_run queue_contained by blast

text \<open>
  Claim C32. A queue demonstration that returns has shown what it reports: it sent the ten held requests, the
  one that had to expire and the two hundred of the streams, once each; that one was answered 503 with
  the queue's timeout and a retry after 1; and a catalog that sees no
  request that was not sent has seen, at the end, each of the others and never the expired one;
  and then no role had an operation outstanding.
\<close>

theorem queue_success:
  assumes "queue_main w [] = Some (g, Inr ())" and "\<And>h. set (seen_queries w h) \<subseteq> set (searched h)"
  shows "mset (searched g) = mset (map hold_query [0 ..< 10] @ [forbidden_query] @ stream_queries) \<and> expired_unseen w \<and>
    (\<exists>k. prefix k g \<and> set (seen_queries w k) = set (map hold_query [0 ..< 10] @ stream_queries)) \<and>
    (\<exists>env base. gateway_roles (fresh_token w []) env \<and> (\<forall>name \<in> set queue_roles. idle w env base name))"
proof -
  let ?all = "map hold_query [0 ..< 10] @ stream_queries"
  from queue_run [OF assms(1)] obtain env base i k where r: "gateway_roles (fresh_token w []) env" "searched i = []"
    "queue_checks w env base i = Some (k, Inr ())" "prefix k g" "searched g = searched k" .
  note c = queue_checks_Inr [OF r(3)]
  have m: "mset (searched g) = mset (map hold_query [0 ..< 10] @ [forbidden_query] @ stream_queries)" using c r(2,5) by simp
  have "set (seen_queries w k) \<subseteq> insert forbidden_query (set ?all)"
    using assms(2) [of k] mset_around [OF m] r(5) by simp
  with c have "set (seen_queries w k) \<subseteq> set ?all" by blast
  moreover have "card (set ?all) \<le> card (set (seen_queries w k))" using c card_length [of ?all] all_distinct(3) by simp
  ultimately have "set (seen_queries w k) = set ?all" by (intro card_seteq) simp_all
  with m c r(1,4) show ?thesis by blast
qed

theorem queue_success_witness:
  "\<exists>g. mset (searched g) = mset (map hold_query [0 ..< 10] @ [forbidden_query] @ stream_queries) \<and> expired_unseen sample_queue \<and>
     (\<exists>k. prefix k g \<and> set (seen_queries sample_queue k) = set (map hold_query [0 ..< 10] @ stream_queries))"
proof -
  have "set (seen_queries sample_queue h) \<subseteq> set (searched h)" for h by (auto simp: sample_queue_def)
  then show ?thesis using sample_queue_run queue_success by blast
qed

end
