(* ===== verification/Spec2Isabelle.thy ===== *)
theory Spec2Isabelle
  imports Execute Client_Calls Conformance Publish_Props Packages_Props Agent_Clients Services Quickstart_Props Rust_Check
    Operations_Props Integration_Results Dynamic_Results Queue_Results
begin

text \<open>
  A verification development for the Python side of AI Protocol: the client SDK under
  \<^verbatim>\<open>python/ai_protocol/\<close>, the release and check scripts under \<^verbatim>\<open>scripts/\<close>, and under \<^verbatim>\<open>examples/\<close> the clients
  that choose which operation to run, the two fixture services, the quickstart and the
  demonstrations of integration, changing limits and queueing.

  \<^bold>\<open>The program.\<close> A service publishes operations (a name, a POST path, a JSON schema) at
  \<^verbatim>\<open>/agent-policy\<close>. Clients discover them and call them over HTTP, or hand a call to a local
  dispatcher over a Unix socket. Calls can have effects, so the SDK may repeat a request only when
  the answer says that nothing was started, and must report honestly whether a failed call was
  completed, not started or unknown. The adaptive client also limits how many calls are in flight
  to what the service currently advertises. The release script publishes the packages of the SDK.

  \<^bold>\<open>Theories and sources.\<close>
    \<^item> \<open>Prelude\<close>, \<open>Py_Text\<close>, \<open>Py_Json\<close>: exceptions and results, dictionaries (locale \<open>dict_store\<close>, interpreted
      as \<open>adict\<close>), the string operations and regular expressions (run by derivatives, proved equal to
      their languages), parsed JSON with Python's equality, \<^verbatim>\<open>json.dumps\<close>.
    \<^item> \<open>Url\<close>: \<^verbatim>\<open>urlsplit\<close> of the standard library and \<^verbatim>\<open>validate_origin\<close> (\<^verbatim>\<open>protocol.py\<close>).
    \<^item> \<open>Protocol\<close>: the rest of \<^verbatim>\<open>protocol.py\<close> but \<^verbatim>\<open>execute\<close>: \<open>service_client\<close>, \<open>validate_operation\<close> with
      \<open>check_references\<close>, \<open>discover\<close>, \<open>safe_to_retry\<close>.
    \<^item> \<open>Retry_Contract\<close>: the contract both callers share (locale \<open>bounded_retry\<close>: a log of answers that is
      bounded and continues only after retryable ones). \<open>Execute\<close>: \<^verbatim>\<open>execute\<close>, which interprets it
      (\<open>exec\<close>), and its refinement of the abstract rule \<open>decisive\<close>.
    \<^item> \<open>Dispatcher\<close>: \<^verbatim>\<open>dispatcher.py\<close>, one submission over a socket and the coherence of its replies.
    \<^item> \<open>Policy\<close>: \<^verbatim>\<open>validate_policy\<close> of \<^verbatim>\<open>client.py\<close>, the policies it accepts and their histories.
    \<^item> \<open>Client\<close>: \<^verbatim>\<open>client.py\<close>: \<open>OperationError\<close>, the constructor, \<^verbatim>\<open>_request\<close>, \<^verbatim>\<open>refresh\<close>, \<^verbatim>\<open>_poll\<close>, \<^verbatim>\<open>_acquire\<close>,
      \<^verbatim>\<open>aclose\<close>, each as a function of the shared state; \<open>Client_Run\<close>: \<^verbatim>\<open>call\<close>, cut at its suspension points,
      and the step relation \<open>step\<close> that interleaves any number of calls with refreshes, closing,
      deadlines and cancellation; \<open>Client_Safety\<close>: the invariants of the gate and of sleepers;
      \<open>Client_Calls\<close>: what holds of each call in every reachable state (interpretation \<open>adaptive\<close> of
      \<open>bounded_retry\<close>).
    \<^item> \<open>Conformance\<close>: \<^verbatim>\<open>conformance.py\<close>, the offline and the live contract check.
    \<^item> \<open>Agent_Clients\<close>: \<^verbatim>\<open>examples/llm_client.py\<close> and \<^verbatim>\<open>examples/discover_client.py\<close>.
    \<^item> \<open>Release\<close>, \<open>Release_Props\<close>: the checks of \<^verbatim>\<open>scripts/release.py\<close> (versions, published tag, bundle,
      registries). \<open>Jobs\<close>: scripts as jobs that extend a history of actions, with a logic for them.
      \<open>Publish\<close>, \<open>Publish_Props\<close>: \<^verbatim>\<open>prepare\<close>, \<^verbatim>\<open>attach_assets\<close>, \<^verbatim>\<open>publish\<close>, \<^verbatim>\<open>main\<close>; the locale \<open>marker\<close> is
      interpreted on the two markers of the notes.
    \<^item> \<open>Packages\<close>, \<open>Packages_Props\<close>: \<^verbatim>\<open>scripts/check_packages.py\<close> and \<^verbatim>\<open>scripts/check_clean.py\<close>.
    \<^item> \<open>Web_Query\<close>: \<^verbatim>\<open>urlparse\<close>, \<^verbatim>\<open>unquote\<close> and \<^verbatim>\<open>parse_qs\<close> of the standard library, and what an encoded query is
      read as. \<open>Services\<close>: the request handlers of \<^verbatim>\<open>examples/catalog_service.py\<close> and
      \<^verbatim>\<open>examples/support_service.py\<close>.
    \<^item> \<open>Owned\<close>, \<open>Owned_Props\<close>: programs that start processes, as tasks over a history of deeds; \<^verbatim>\<open>child\<close>
      (\<^verbatim>\<open>examples/quickstart.py\<close>), \<^verbatim>\<open>stop_process\<close> (\<^verbatim>\<open>examples/dynamic_demo.py\<close>), \<^verbatim>\<open>free_port\<close> and \<^verbatim>\<open>until\<close>
      (\<^verbatim>\<open>examples/service_integration_demo.py\<close>). The laws of tasks are proved once for every reflexive and
      transitive relation of histories (locale \<open>history_rel\<close>, interpreted as \<open>grow\<close>, \<open>tidied\<close>, \<open>owned\<close>).
      \<open>Quickstart\<close>, \<open>Quickstart_Props\<close>: \<^verbatim>\<open>examples/quickstart.py\<close> and \<^verbatim>\<open>examples/setup_demo.py\<close>; \<open>Rust_Check\<close>:
      \<^verbatim>\<open>scripts/check_rust_library.py\<close>; \<open>Operations_Check\<close>, \<open>Operations_Props\<close>: \<^verbatim>\<open>scripts/check_operations.py\<close>.
    \<^item> \<open>Py_Values\<close>: expressions over parsed JSON that the demonstrations share. \<open>Integration\<close>:
      \<^verbatim>\<open>examples/service_integration_demo.py\<close>; \<open>Integration_Props\<close>: its lemmas about traces,
      processes, logs and credentials; \<open>Integration_Success\<close>: what its checks establish; \<open>Integration_Sample\<close>: a
      host on which it returns; \<open>Integration_Results\<close>: its properties.
    \<^item> \<open>Dynamic_Demo\<close>: \<^verbatim>\<open>examples/dynamic_demo.py\<close>, with the callbacks of its \<^verbatim>\<open>ExitStack\<close> as nested blocks;
      \<open>Dynamic_Props\<close>: the laws of \<^verbatim>\<open>while True\<close> (in the locale \<open>history_rel\<close>), processes and credentials;
      \<open>Dynamic_Success\<close>: what its waits and checks establish and a host on which it returns;
      \<open>Dynamic_Results\<close>: its properties.
    \<^item> \<open>Queue_Demo\<close>: \<^verbatim>\<open>examples/queue_demo.py\<close>, its twenty streams as one loop that a parameter schedules;
      \<open>Queue_Props\<close>: the invariant \<open>balanced\<close> of that loop (a multiset equation between the requests sent
      and those to come), processes and credentials; \<open>Queue_Success\<close>, \<open>Queue_Results\<close>: as above.

  \<^bold>\<open>What the properties show.\<close> No unknown outcome is repeated, and verdicts are true, for \<^verbatim>\<open>execute\<close>, the
  adaptive client and the dispatcher connector; permits are exact and no wakeup is lost under
  every interleaving; only published operations with validated parameters are called, on the
  configured origin; policies are accepted exactly when well formed and continuing; envelopes,
  error codes, frames, bodies and sleeps stay within their bounds. For the release: a registry
  receives only validated and attached bytes, credentials reach one command each, success means
  that both registries show the tested files, the notes edit is idempotent, and what the package
  check writes is what the release accepts. For programs that start processes: on every path each
  process is seen to end, only running processes of the run are signalled, and credentials reach
  the processes and addresses that need them; a returning check or demonstration has seen what it
  claims (the drain and the expiry of a gateway that is stopped, equal answers with and without the
  dispatcher, a refusal that the upstream never saw, a client that follows a limit, a queued request that
  expires unseen), and a trace that is read while it is written gives whole records. The streams of the
  queue demonstration end under every schedule and send each request once. The fixture services answer what a query encodes.

  \<^bold>\<open>Conventions.\<close> A computation that may raise is a value of \<open>'a result\<close>. Effects are lists of actions
  next to the result, or a history that a job extends, or a step relation. Bounded Python loops
  recurse on the rounds that are left (five attempts, five tag objects, twelve registry polls), so
  these definitions are total and need no fuel. The loops that may run forever (\<^verbatim>\<open>until\<close>, the search for
  free ports, \<^verbatim>\<open>while True\<close> of the quickstart and, as \<open>tloop\<close>, of the limit demonstration) are \<^theory_text>\<open>partial_function (option)\<close>, \<open>None\<close> being a run that does not
  return; \<open>until_ends\<close> bounds \<^verbatim>\<open>until\<close> by 334 sleeps; \<open>run_streams\<close> is total, by the measure \<open>remaining\<close>. Code outside the sources is a parameter: the HTTP
  answers, the clock, sockets, the JSON Schema validator, \<^verbatim>\<open>json.loads\<close>, SHA-256, \<^verbatim>\<open>git\<close>, \<^verbatim>\<open>gh\<close>, the registries, the
  language model, the operating system's processes, the UTF-8 decoder. Answers of the world may depend on everything done before.

  \<^bold>\<open>Idealisations.\<close> Floats are exact rationals, infinities or NaN; texts hold code points below 256; a
  directory is the list of its entries; the lock of the client's condition never suspends on its
  own, since every holder releases it without suspending.

  \<^bold>\<open>Not modelled.\<close> Argument parsing and progress output; the Rust gateway and dispatcher, which are
  other programs; interrupts that arrive while a process is being stopped; what the tasks of the
  queue demonstration still do after another one has raised; \<^verbatim>\<open>dispatcher_demo.py\<close>, which runs and reads
  the benchmark drivers; \<^verbatim>\<open>check_docs.py\<close>, which rests on the search semantics of
  multi-line patterns, and the entry points that only read arguments and print.
\<close>

end
